(* ===== verification/Prelude.thy ===== *)
theory Prelude
  imports Main "HOL-Library.Word" "HOL-Library.Finite_Map" "HOL-Library.Signed_Division"
begin

text \<open>
  Shared vocabulary of the development: the machine integers of the Go sources, the
  results of fallible operations, Go maps as finite maps, and the generic lemmas about
  them that the component theories use.

  A Go \<open>int64\<close> (or \<open>int\<close>: the release builds are 64-bit) is a \<open>64 word\<close> read by \<open>sint\<close>,
  an \<open>int32\<close> a \<open>32 word\<close>; their arithmetic wraps around as in Go and they are compared
  with the signed orders. A Go map is an \<open>fmap\<close>: finite, with at most one value per key.
  A function that returns \<open>(T, error)\<close> returns \<open>'e + 'a\<close>, \<open>Inl\<close> for the error.
\<close>

type_synonym int64 = "64 word"
type_synonym int32 = "32 word"

text \<open>Laws of sequential steps that leave part of a state alone.\<close>
named_theorems frame_simps

text \<open>What a validity check that let its argument pass has established.\<close>
named_theorems check_dests

subsection \<open>Results\<close>

definition is_ok :: "'e + 'a \<Rightarrow> bool" where
  "is_ok r = (case r of Inl _ \<Rightarrow> False | Inr _ \<Rightarrow> True)"

lemma is_ok_simps [simp]: "\<not> is_ok (Inl e)" "is_ok (Inr a)"
  by (simp_all add: is_ok_def)

text \<open>
  A loop body applied to each element in turn, stopping at the first error: the shape of
  every \<open>for ... { if err := ...; err != nil { return err } }\<close> of the sources.
\<close>

fun fold_result :: "('a \<Rightarrow> 's \<Rightarrow> 'e + 's) \<Rightarrow> 'a list \<Rightarrow> 's \<Rightarrow> 'e + 's" where
  "fold_result f [] s = Inr s"
| "fold_result f (x # xs) s =
     (case f x s of Inl e \<Rightarrow> Inl e | Inr s' \<Rightarrow> fold_result f xs s')"

lemma fold_result_append:
  "fold_result f (xs @ ys) s =
     (case fold_result f xs s of Inl e \<Rightarrow> Inl e | Inr s' \<Rightarrow> fold_result f ys s')"
  by (induction xs arbitrary: s) (auto split: sum.splits)

lemma fold_result_invariant:
  assumes "fold_result f xs s = Inr s'" and "P s"
    and "\<And>x s s'. x \<in> set xs \<Longrightarrow> P s \<Longrightarrow> f x s = Inr s' \<Longrightarrow> P s'"
  shows "P s'"
  using assms
proof (induction xs arbitrary: s)
  case Nil
  then show ?case by simp
next
  case (Cons x xs)
  from Cons.prems(1) obtain t where t: "f x s = Inr t" "fold_result f xs t = Inr s'"
    by (auto split: sum.splits)
  have "P t" by (rule Cons.prems(3) [OF _ Cons.prems(2) t(1)]) simp
  with t(2) show ?case by (rule Cons.IH) (rule Cons.prems(3), auto)
qed

subsection \<open>Go maps\<close>

definition go_len :: "('k, 'v) fmap \<Rightarrow> nat" where
  "go_len m = fcard (fmdom m)"

lemma go_len_empty [simp]: "go_len fmempty = 0"
  by (simp add: go_len_def)

lemma go_len_upd:
  "go_len (fmupd k v m) = (if fmlookup m k = None then Suc (go_len m) else go_len m)"
proof (cases "k |\<in>| fmdom m")
  case True
  then have "fmlookup m k \<noteq> None" by (auto simp: fmlookup_dom_iff)
  with True show ?thesis by (simp add: go_len_def finsert_absorb)
next
  case False
  then show ?thesis by (simp add: go_len_def fmdom_notD fcard_finsert_disjoint)
qed

lemma go_len_mono:
  assumes "fmdom m |\<subseteq>| fmdom m'"
  shows "go_len m \<le> go_len m'"
  using assms by (simp add: go_len_def fcard_mono)

lemma go_len_0_iff: "go_len m = 0 \<longleftrightarrow> m = fmempty"
  by (simp add: go_len_def) (metis fmdom_empty fmrestrict_fset_dom fmrestrict_fset_null)

text \<open>Deleting, while ranging over a map, the entries that satisfy a test.\<close>

definition delete_where :: "('k \<Rightarrow> 'v \<Rightarrow> bool) \<Rightarrow> ('k, 'v) fmap \<Rightarrow> ('k, 'v) fmap" where
  "delete_where P m =
     fmfilter (\<lambda>k. case fmlookup m k of None \<Rightarrow> False | Some v \<Rightarrow> \<not> P k v) m"

lemma delete_where_lookup [simp]:
  "fmlookup (delete_where P m) k =
     (case fmlookup m k of None \<Rightarrow> None | Some v \<Rightarrow> if P k v then None else Some v)"
  by (auto simp: delete_where_def split: option.splits)

lemma delete_where_empty [simp]: "delete_where P fmempty = fmempty"
  by (rule fmap_ext) simp

lemma delete_where_upd [simp]:
  "delete_where P (fmupd k v m) =
     (if P k v then delete_where P (fmdrop k m) else fmupd k v (delete_where P m))"
  by (rule fmap_ext) (auto split: option.splits)

lemma delete_where_dom: "fmdom (delete_where P m) |\<subseteq>| fmdom m"
  by (auto simp: fmlookup_dom_iff split: option.splits if_splits)

lemma delete_where_len: "go_len (delete_where P m) \<le> go_len m"
  by (rule go_len_mono) (rule delete_where_dom)

text \<open>
  The order in which \<open>range\<close> visits the keys of a map is unspecified in Go. Functions
  whose result depends on it take the order as an argument: any enumeration of the key
  set without repetition.
\<close>

definition range_order :: "(string fset \<Rightarrow> string list) \<Rightarrow> bool" where
  "range_order ord \<longleftrightarrow> (\<forall>S. set (ord S) = fset S \<and> distinct (ord S))"

definition range_values ::
    "(string fset \<Rightarrow> string list) \<Rightarrow> (string, 'v) fmap \<Rightarrow> 'v list" where
  "range_values ord m =
     concat (map (\<lambda>k. case fmlookup m k of None \<Rightarrow> [] | Some v \<Rightarrow> [v]) (ord (fmdom m)))"

lemma range_values_set:
  assumes "range_order ord"
  shows "set (range_values ord m) = {v. \<exists>k. fmlookup m k = Some v}"
proof -
  have "set (range_values ord m) = {v. \<exists>k \<in> set (ord (fmdom m)). fmlookup m k = Some v}"
    by (force simp: range_values_def split: option.splits)
  also have "\<dots> = {v. \<exists>k. fmlookup m k = Some v}"
    using assms by (auto simp: range_order_def fmlookup_dom_iff)
  finally show ?thesis .
qed

lemma range_values_empty [simp]:
  assumes "range_order ord"
  shows "range_values ord fmempty = []"
proof -
  have "set (ord {||}) = {}" using assms by (simp add: range_order_def)
  then show ?thesis by (simp add: range_values_def)
qed

end
