(* ===== verification/GoStrings.thy ===== *)
theory GoStrings
  imports Prelude "HOL-Library.Char_ord" "HOL-Library.List_Lexorder"
begin

text \<open>
  The parts of Go's \<open>strings\<close> and \<open>strconv\<close> packages that the sources use. A Go string
  is a sequence of bytes, here a \<open>string\<close> whose characters are the bytes; the order of
  \<open>List_Lexorder\<close> over \<open>Char_ord\<close> is Go's bytewise \<open><\<close> on strings.
\<close>

subsection \<open>strings.TrimSpace\<close>

definition ascii_space :: "char \<Rightarrow> bool" where
  "ascii_space c \<longleftrightarrow> c \<in> {CHR 0x09, CHR 0x0A, CHR 0x0B, CHR 0x0C, CHR 0x0D, CHR '' ''}"

text \<open>
  The white-space runes above ASCII, by their UTF-8 encoding: U+0085, U+00A0, and
  U+1680, U+2000 to U+200A, U+2028, U+2029, U+202F, U+205F, U+3000.
\<close>

definition wide_space2 :: "char \<Rightarrow> char \<Rightarrow> bool" where
  "wide_space2 c d \<longleftrightarrow> c = CHR 0xC2 \<and> (d = CHR 0x85 \<or> d = CHR 0xA0)"

definition wide_space3 :: "char \<Rightarrow> char \<Rightarrow> char \<Rightarrow> bool" where
  "wide_space3 c d e \<longleftrightarrow>
     (c = CHR 0xE1 \<and> d = CHR 0x9A \<and> e = CHR 0x80) \<or>
     (c = CHR 0xE2 \<and> d = CHR 0x80 \<and>
        e \<in> {CHR 0x80, CHR 0x81, CHR 0x82, CHR 0x83, CHR 0x84, CHR 0x85, CHR 0x86,
             CHR 0x87, CHR 0x88, CHR 0x89, CHR 0x8A, CHR 0xA8, CHR 0xA9, CHR 0xAF}) \<or>
     (c = CHR 0xE2 \<and> d = CHR 0x81 \<and> e = CHR 0x9F) \<or>
     (c = CHR 0xE3 \<and> d = CHR 0x80 \<and> e = CHR 0x80)"

text \<open>How many bytes the white-space rune at the start (the end) of a string has, 0 for none.\<close>

fun space_prefix :: "string \<Rightarrow> nat" where
  "space_prefix [] = 0"
| "space_prefix [c] = (if ascii_space c then 1 else 0)"
| "space_prefix [c, d] = (if ascii_space c then 1 else if wide_space2 c d then 2 else 0)"
| "space_prefix (c # d # e # s) =
     (if ascii_space c then 1 else if wide_space2 c d then 2
      else if wide_space3 c d e then 3 else 0)"

fun space_prefix_rev :: "string \<Rightarrow> nat" where
  "space_prefix_rev [] = 0"
| "space_prefix_rev [c] = (if ascii_space c then 1 else 0)"
| "space_prefix_rev [c, d] = (if ascii_space c then 1 else if wide_space2 d c then 2 else 0)"
| "space_prefix_rev (c # d # e # s) =
     (if ascii_space c then 1 else if wide_space2 d c then 2
      else if wide_space3 e d c then 3 else 0)"

lemma space_prefix_le: "space_prefix s \<le> length s"
  by (induction s rule: space_prefix.induct) auto

lemma space_prefix_rev_le: "space_prefix_rev s \<le> length s"
  by (induction s rule: space_prefix_rev.induct) auto

function trim_left :: "string \<Rightarrow> string" where
  "trim_left s = (if space_prefix s = 0 then s else trim_left (drop (space_prefix s) s))"
  by pat_completeness auto
termination
proof (relation "measure length")
  fix s :: string
  assume "space_prefix s \<noteq> 0"
  then show "(drop (space_prefix s) s, s) \<in> measure length"
    using space_prefix_le [of s] by (cases s) auto
qed simp

function trim_right_rev :: "string \<Rightarrow> string" where
  "trim_right_rev s =
     (if space_prefix_rev s = 0 then s else trim_right_rev (drop (space_prefix_rev s) s))"
  by pat_completeness auto
termination
proof (relation "measure length")
  fix s :: string
  assume "space_prefix_rev s \<noteq> 0"
  then show "(drop (space_prefix_rev s) s, s) \<in> measure length"
    using space_prefix_rev_le [of s] by (cases s) auto
qed simp

declare trim_left.simps [simp del] trim_right_rev.simps [simp del]

definition trim_right :: "string \<Rightarrow> string" where
  "trim_right s = rev (trim_right_rev (rev s))"

definition TrimSpace :: "string \<Rightarrow> string" where
  "TrimSpace s = trim_right (trim_left s)"

lemma trim_left_done: "space_prefix (trim_left s) = 0"
  by (induction s rule: trim_left.induct) (metis trim_left.simps)

lemma trim_left_fix: "space_prefix s = 0 \<Longrightarrow> trim_left s = s"
  by (subst trim_left.simps) simp

lemma trim_right_rev_done: "space_prefix_rev (trim_right_rev s) = 0"
  by (induction s rule: trim_right_rev.induct) (metis trim_right_rev.simps)

lemma trim_right_rev_fix: "space_prefix_rev s = 0 \<Longrightarrow> trim_right_rev s = s"
  by (subst trim_right_rev.simps) simp

lemma trim_right_rev_suffix: "\<exists>p. s = p @ trim_right_rev s"
proof (induction s rule: trim_right_rev.induct)
  case (1 s)
  show ?case
  proof (cases "space_prefix_rev s = 0")
    case True
    then show ?thesis by (simp add: trim_right_rev_fix)
  next
    case False
    from "1.IH" [OF this] obtain p
      where "drop (space_prefix_rev s) s = p @ trim_right_rev (drop (space_prefix_rev s) s)"
      by blast
    with False have "s = (take (space_prefix_rev s) s @ p) @ trim_right_rev s"
      by (metis append.assoc append_take_drop_id trim_right_rev.simps)
    then show ?thesis by blast
  qed
qed

lemma trim_right_prefix: "\<exists>p. s = trim_right s @ p"
proof -
  obtain p where "rev s = p @ trim_right_rev (rev s)"
    using trim_right_rev_suffix by blast
  then have "s = rev (trim_right_rev (rev s)) @ rev p"
    by (metis rev_append rev_rev_ident)
  then show ?thesis unfolding trim_right_def by blast
qed

text \<open>No white space at the start of a string: none at the start of its prefixes.\<close>

lemma space_prefix_ascii: "ascii_space c \<Longrightarrow> space_prefix (c # s) = 1"
  by (cases "c # s" rule: space_prefix.cases) auto

lemma space_prefix_wide: "wide_space2 c d \<Longrightarrow> space_prefix (c # d # s) \<noteq> 0"
  by (cases s) auto

lemma space_prefix_append: "space_prefix (s @ p) = 0 \<Longrightarrow> space_prefix s = 0"
  by (induction s rule: space_prefix.induct)
    (auto split: if_splits simp: space_prefix_ascii dest: space_prefix_wide)

lemma TrimSpace_no_prefix: "space_prefix (TrimSpace s) = 0"
  unfolding TrimSpace_def
  by (metis space_prefix_append trim_left_done trim_right_prefix)

lemma TrimSpace_no_suffix: "space_prefix_rev (rev (TrimSpace s)) = 0"
  by (simp add: TrimSpace_def trim_right_def trim_right_rev_done)

lemma TrimSpace_fix:
  assumes "space_prefix s = 0" and "space_prefix_rev (rev s) = 0"
  shows "TrimSpace s = s"
  using assms by (simp add: TrimSpace_def trim_left_fix trim_right_def trim_right_rev_fix)

lemma TrimSpace_idem [simp]: "TrimSpace (TrimSpace s) = TrimSpace s"
  by (rule TrimSpace_fix) (rule TrimSpace_no_prefix, rule TrimSpace_no_suffix)

lemma TrimSpace_Nil [simp]: "TrimSpace [] = []"
  by (rule TrimSpace_fix) simp_all

lemma TrimSpace_take:
  assumes "TrimSpace s = s"
  shows "space_prefix s = 0" and "space_prefix_rev (rev s) = 0"
  using TrimSpace_no_prefix [of s] TrimSpace_no_suffix [of s] assms by simp_all

subsection \<open>Case conversion and prefixes\<close>

definition upper_char :: "char \<Rightarrow> char" where
  "upper_char c = (if CHR ''a'' \<le> c \<and> c \<le> CHR ''z'' then char_of (of_char c - 32 :: nat) else c)"

definition lower_char :: "char \<Rightarrow> char" where
  "lower_char c = (if CHR ''A'' \<le> c \<and> c \<le> CHR ''Z'' then char_of (of_char c + 32 :: nat) else c)"

text \<open>
  \<open>strings.ToUpper\<close>. Its results are only ever compared with ASCII names, so what
  matters is which strings it maps to which ASCII string: beside the ASCII letters, the
  runes U+0131 and U+017F have the ASCII upper cases I and S, and no other rune above
  ASCII has one. Other bytes are kept.
\<close>

fun ToUpper :: "string \<Rightarrow> string" where
  "ToUpper (c # d # s) =
     (if c = CHR 0xC4 \<and> d = CHR 0xB1 then CHR ''I'' # ToUpper s
      else if c = CHR 0xC5 \<and> d = CHR 0xBF then CHR ''S'' # ToUpper s
      else upper_char c # ToUpper (d # s))"
| "ToUpper [c] = [upper_char c]"
| "ToUpper [] = []"

text \<open>
  \<open>strings.ToLower\<close>, used only to test for the prefix \<open>"bearer "\<close>: the runes above ASCII
  whose lower case is ASCII (U+0130 and U+212A, i and k) do not occur in it.
\<close>

definition ToLower :: "string \<Rightarrow> string" where
  "ToLower s = map lower_char s"

fun HasPrefix :: "string \<Rightarrow> string \<Rightarrow> bool" where
  "HasPrefix s [] = True"
| "HasPrefix [] (p # ps) = False"
| "HasPrefix (c # s) (p # ps) = (c = p \<and> HasPrefix s ps)"

definition HasSuffix :: "string \<Rightarrow> string \<Rightarrow> bool" where
  "HasSuffix s p = HasPrefix (rev s) (rev p)"

definition TrimPrefix :: "string \<Rightarrow> string \<Rightarrow> string" where
  "TrimPrefix s p = (if HasPrefix s p then drop (length p) s else s)"

lemma HasPrefix_iff: "HasPrefix s p \<longleftrightarrow> (\<exists>r. s = p @ r)"
  by (induction s p rule: HasPrefix.induct) auto

lemma HasSuffix_iff: "HasSuffix s p \<longleftrightarrow> (\<exists>r. s = r @ p)"
  unfolding HasSuffix_def HasPrefix_iff by (metis rev_append rev_rev_ident)

lemma ToLower_append: "ToLower (s @ t) = ToLower s @ ToLower t"
  by (simp add: ToLower_def)

lemma length_ToLower [simp]: "length (ToLower s) = length s"
  by (simp add: ToLower_def)

lemma trim_left_suffix: "\<exists>p. s = p @ trim_left s"
proof (induction s rule: trim_left.induct)
  case (1 s)
  then show ?case by (metis append_take_drop_id append.assoc append_Nil trim_left.simps)
qed

lemma set_TrimSpace: "set (TrimSpace s) \<subseteq> set s"
proof -
  have "set (trim_left s) \<subseteq> set s" using trim_left_suffix [of s] by (metis set_append sup_ge2)
  moreover have "set (trim_right x) \<subseteq> set x" for x
    using trim_right_prefix [of x] by (metis set_append sup_ge1)
  ultimately show ?thesis unfolding TrimSpace_def by blast
qed

subsection \<open>chooseString\<close>

text \<open>The first argument that is not blank, trimmed (the same helper in three packages).\<close>

fun chooseString :: "string list \<Rightarrow> string" where
  "chooseString [] = []"
| "chooseString (v # vs) = (if TrimSpace v \<noteq> [] then TrimSpace v else chooseString vs)"

lemma chooseString_trimmed [simp]: "TrimSpace (chooseString vs) = chooseString vs"
  by (induction vs) auto

lemma set_chooseString: "c \<in> set (chooseString vs) \<Longrightarrow> \<exists>v \<in> set vs. c \<in> set v"
  using set_TrimSpace by (induction vs) (auto split: if_splits)

lemma chooseString_nonempty:
  "chooseString vs \<noteq> [] \<longleftrightarrow> (\<exists>v \<in> set vs. TrimSpace v \<noteq> [])"
  by (induction vs) auto

end
