(* ===== verification/GoStrconv.thy ===== *)
theory GoStrconv
  imports GoStrings
begin

text \<open>
  \<open>strconv.FormatInt\<close>, \<open>ParseInt\<close> and \<open>Atoi\<close> in base 10, with the errors and the values
  Go returns on every path, and the proof that they round-trip. A parse returns the pair
  \<open>(value, error)\<close> as in Go: callers that ignore the error use the value.
\<close>

datatype num_error = ErrSyntax | ErrRange

definition digit_char :: "nat \<Rightarrow> char" where
  "digit_char d = char_of (48 + d)"

definition is_digit :: "char \<Rightarrow> bool" where
  "is_digit c \<longleftrightarrow> 48 \<le> (of_char c :: nat) \<and> (of_char c :: nat) \<le> 57"

definition digit_val :: "char \<Rightarrow> nat" where
  "digit_val c = of_char c - 48"

lemma digit_char_inverse [simp]:
  "d < 10 \<Longrightarrow> is_digit (digit_char d)" "d < 10 \<Longrightarrow> digit_val (digit_char d) = d"
  by (simp_all add: is_digit_def digit_val_def digit_char_def of_char_of)

fun dec_digits :: "nat \<Rightarrow> string" where
  "dec_digits n =
     (if n < 10 then [digit_char n] else dec_digits (n div 10) @ [digit_char (n mod 10)])"

declare dec_digits.simps [simp del]

definition format_int :: "int \<Rightarrow> string" where
  "format_int i = (if i < 0 then CHR ''-'' # dec_digits (nat (- i)) else dec_digits (nat i))"

definition FormatInt :: "int64 \<Rightarrow> string" where
  "FormatInt w = format_int (sint w)"

text \<open>\<open>strconv.ParseUint\<close>: a range error is reported before any later character is read.\<close>

fun parse_uint_loop :: "nat \<Rightarrow> string \<Rightarrow> num_error + nat" where
  "parse_uint_loop n [] = Inr n"
| "parse_uint_loop n (c # cs) =
     (if \<not> is_digit c then Inl ErrSyntax
      else if 1844674407370955162 \<le> n then Inl ErrRange
      else if 2 ^ 64 - 1 < n * 10 + digit_val c then Inl ErrRange
      else parse_uint_loop (n * 10 + digit_val c) cs)"

definition parse_uint :: "string \<Rightarrow> num_error + nat" where
  "parse_uint s = (if s = [] then Inl ErrSyntax else parse_uint_loop 0 s)"

definition parse_int_unsigned :: "bool \<Rightarrow> string \<Rightarrow> int \<times> num_error option" where
  "parse_int_unsigned neg s =
     (case parse_uint s of
        Inl ErrSyntax \<Rightarrow> (0, Some ErrSyntax)
      | Inl ErrRange \<Rightarrow> (if neg then - (2 ^ 63) else 2 ^ 63 - 1, Some ErrRange)
      | Inr n \<Rightarrow>
          (if \<not> neg \<and> 2 ^ 63 \<le> n then (2 ^ 63 - 1, Some ErrRange)
           else if neg \<and> 2 ^ 63 < n then (- (2 ^ 63), Some ErrRange)
           else (if neg then - int n else int n, None)))"

definition parse_int :: "string \<Rightarrow> int \<times> num_error option" where
  "parse_int s =
     (case s of
        [] \<Rightarrow> (0, Some ErrSyntax)
      | c # cs \<Rightarrow>
          (if c = CHR ''+'' then parse_int_unsigned False cs
           else if c = CHR ''-'' then parse_int_unsigned True cs
           else parse_int_unsigned False s))"

definition ParseInt :: "string \<Rightarrow> int64 \<times> num_error option" where
  "ParseInt s = (case parse_int s of (v, err) \<Rightarrow> (word_of_int v, err))"

definition Atoi :: "string \<Rightarrow> num_error + int64" where
  "Atoi s = (case ParseInt s of (v, None) \<Rightarrow> Inr v | (_, Some e) \<Rightarrow> Inl e)"

subsection \<open>Round trip\<close>

lemma dec_digits_nonempty [simp]: "dec_digits n \<noteq> []"
  by (subst dec_digits.simps) simp

lemma dec_digits_are_digits: "\<forall>c \<in> set (dec_digits n). is_digit c"
proof (induction n rule: dec_digits.induct)
  case (1 n)
  then show ?case by (subst dec_digits.simps) auto
qed

lemma parse_uint_loop_append:
  "parse_uint_loop n (s @ t) =
     (case parse_uint_loop n s of Inl e \<Rightarrow> Inl e | Inr m \<Rightarrow> parse_uint_loop m t)"
  by (induction n s rule: parse_uint_loop.induct) auto

lemma parse_uint_loop_digits:
  assumes "n < 2 ^ 64"
  shows "parse_uint_loop 0 (dec_digits n) = Inr n"
  using assms
proof (induction n rule: dec_digits.induct)
  case (1 n)
  show ?case
  proof (cases "n < 10")
    case True
    then show ?thesis by (subst dec_digits.simps) simp
  next
    case False
    have "parse_uint_loop 0 (dec_digits (n div 10)) = Inr (n div 10)"
      using "1.IH" [OF False] "1.prems" by simp
    moreover have "n div 10 < 1844674407370955162" "n div 10 * 10 + n mod 10 \<le> 2 ^ 64 - 1"
      using "1.prems" by simp_all
    ultimately show ?thesis
      using False by (simp add: dec_digits.simps [of n] parse_uint_loop_append)
  qed
qed

lemma sign_not_digit: "\<not> is_digit (CHR ''+'')" "\<not> is_digit (CHR ''-'')"
  by (simp_all add: is_digit_def)

lemma parse_int_format_int:
  assumes "- (2 ^ 63) \<le> i" and "i < 2 ^ 63"
  shows "parse_int (format_int i) = (i, None)"
proof (cases "i < 0")
  case True
  with assms have "nat (- i) < 2 ^ 64" "\<not> 2 ^ 63 < nat (- i)" by auto
  with True show ?thesis
    by (simp add: parse_int_def format_int_def parse_int_unsigned_def parse_uint_def
        parse_uint_loop_digits)
next
  case False
  with assms have n: "nat i < 2 ^ 64" "\<not> 2 ^ 63 \<le> nat i" by auto
  obtain c cs where c: "dec_digits (nat i) = c # cs"
    by (meson dec_digits_nonempty neq_Nil_conv)
  then have "is_digit c" using dec_digits_are_digits [of "nat i"] by simp
  then have "c \<noteq> CHR ''+''" "c \<noteq> CHR ''-''" using sign_not_digit by auto
  with False n c parse_uint_loop_digits [OF n(1)] show ?thesis
    by (simp add: parse_int_def format_int_def parse_int_unsigned_def parse_uint_def)
qed

lemma sint_range64: "- (2 ^ 63) \<le> sint (w :: int64)" "sint (w :: int64) < 2 ^ 63"
  using sint_ge [of w] sint_lt [of w] by simp_all

lemma ParseInt_FormatInt: "ParseInt (FormatInt w) = (w, None)"
  using sint_range64 [of w] by (simp add: ParseInt_def FormatInt_def parse_int_format_int)

lemma FormatInt_inject [simp]: "FormatInt v = FormatInt w \<longleftrightarrow> v = w"
  by (metis ParseInt_FormatInt fst_conv)

lemma FormatInt_nonempty [simp]: "FormatInt w \<noteq> []"
  by (simp add: FormatInt_def format_int_def)

lemma space_char_not_digit: "is_digit c \<Longrightarrow> \<not> ascii_space c"
  by (auto simp: is_digit_def ascii_space_def)

lemma wide_not_digit:
  "is_digit c \<Longrightarrow> \<not> wide_space2 c d" "is_digit d \<Longrightarrow> \<not> wide_space2 c d"
  "is_digit c \<Longrightarrow> \<not> wide_space3 c d e" "is_digit e \<Longrightarrow> \<not> wide_space3 c d e"
  by (auto simp: is_digit_def wide_space2_def wide_space3_def)

lemma TrimSpace_graphic_ends:
  assumes "s \<noteq> []" "is_digit (hd s) \<or> hd s = CHR ''-''" "is_digit (last s)"
  shows "TrimSpace s = s"
proof (rule TrimSpace_fix)
  have minus: "\<not> ascii_space CHR ''-''" "\<not> wide_space2 CHR ''-'' d" "\<not> wide_space3 CHR ''-'' d e"
    for d e by (simp_all add: ascii_space_def wide_space2_def wide_space3_def)
  have hd: "\<not> ascii_space (hd s)" "\<not> wide_space2 (hd s) d" "\<not> wide_space3 (hd s) d e" for d e
    using assms(2) minus space_char_not_digit wide_not_digit(1,3) by metis+
  then show "space_prefix s = 0"
    by (cases s rule: space_prefix.cases) auto
  have "hd (rev s) = last s" using assms(1) by (simp add: hd_rev)
  then have lst: "is_digit (hd (rev s))" using assms(3) by simp
  then show "space_prefix_rev (rev s) = 0"
    by (cases "rev s" rule: space_prefix_rev.cases)
      (auto simp: space_char_not_digit wide_not_digit)
qed

lemma TrimSpace_FormatInt [simp]: "TrimSpace (FormatInt w) = FormatInt w"
proof (rule TrimSpace_graphic_ends)
  let ?d = "dec_digits (nat \<bar>sint w\<bar>)"
  have f: "FormatInt w = (if sint w < 0 then CHR ''-'' # ?d else ?d)"
    by (simp add: FormatInt_def format_int_def)
  show "FormatInt w \<noteq> []" by simp
  show "is_digit (hd (FormatInt w)) \<or> hd (FormatInt w) = CHR ''-''"
    using dec_digits_are_digits [of "nat \<bar>sint w\<bar>"] f by auto
  show "is_digit (last (FormatInt w))"
    using dec_digits_are_digits [of "nat \<bar>sint w\<bar>"] f by auto
qed

end
