(* ===== verification/GoTime.thy ===== *)
theory GoTime
  imports Prelude
begin

text \<open>
  The parts of Go's \<open>time\<close> package that the sources use. A \<open>Duration\<close> is an \<open>int64\<close> of
  nanoseconds whose arithmetic wraps around. A \<open>Time\<close> is an instant in nanoseconds since
  the Unix epoch, an \<open>int\<close>: Go's range of instants (292 billion years) is never left by
  adding one 64-bit duration to a clock reading. \<open>UTC()\<close> strips the monotonic reading, so
  comparisons are between wall-clock instants.
\<close>

type_synonym duration = int64
type_synonym time = int

definition Second :: duration where "Second = 1000000000"
definition Millisecond :: duration where "Millisecond = 1000000"
definition Minute :: duration where "Minute = 60000000000"

text \<open>The zero \<open>Time\<close> is January 1, year 1, 00:00:00 UTC.\<close>

definition zero_time :: time where "zero_time = - 62135596800 * 1000000000"

definition IsZero :: "time \<Rightarrow> bool" where "IsZero t \<longleftrightarrow> t = zero_time"

definition Add :: "time \<Rightarrow> duration \<Rightarrow> time" where "Add t d = t + sint d"

definition Before :: "time \<Rightarrow> time \<Rightarrow> bool" where "Before t u \<longleftrightarrow> t < u"

text \<open>\<open>Time.Sub\<close> saturates at the largest and the smallest duration.\<close>

definition Sub :: "time \<Rightarrow> time \<Rightarrow> duration" where
  "Sub t u =
     (if 2 ^ 63 - 1 < t - u then word_of_int (2 ^ 63 - 1)
      else if t - u < - (2 ^ 63) then word_of_int (- (2 ^ 63))
      else word_of_int (t - u))"

text \<open>\<open>Duration.Milliseconds\<close> truncates towards zero, \<open>Time.UnixMilli\<close> rounds down.\<close>

definition Milliseconds :: "duration \<Rightarrow> int64" where
  "Milliseconds d = word_of_int (sint d sdiv 1000000)"

definition UnixMilli :: "time \<Rightarrow> int64" where
  "UnixMilli t = word_of_int (t div 1000000)"

subsection \<open>Laws\<close>

lemma sint64_of_int:
  assumes "- (2 ^ 63) \<le> i" and "i < 2 ^ 63"
  shows "sint (word_of_int i :: int64) = i"
  using assms by (simp add: signed_of_int signed_take_bit_int_eq_self)

lemma Sub_saturated: "sint (Sub t u) = max (- (2 ^ 63)) (min (2 ^ 63 - 1) (t - u))"
  unfolding Sub_def
  by (cases "2 ^ 63 - 1 < t - u"; cases "t - u < - (2 ^ 63)")
    (simp_all add: sint64_of_int del: of_int_diff)

lemma Sub_nonneg_iff: "0 \<le> sint (Sub t u) \<longleftrightarrow> u \<le> t"
  by (simp add: Sub_saturated le_max_iff_disj)

lemma sdiv_million_nonneg: "0 \<le> a \<Longrightarrow> a sdiv 1000000 = a div (1000000 :: int)"
  by (simp add: signed_divide_int_def sgn_if)

lemma sdiv_million_abs: "\<bar>a sdiv 1000000\<bar> = \<bar>a\<bar> div (1000000 :: int)"
  by (simp add: signed_divide_int_def abs_mult sgn_if)

lemma Milliseconds_sint: "sint (Milliseconds d) = sint d sdiv 1000000"
proof -
  have "\<bar>sint d\<bar> \<le> 2 ^ 63" using sint_ge [of d] sint_lt [of d] by simp
  then have "\<bar>sint d\<bar> div 1000000 \<le> 2 ^ 63 div 1000000" by (rule zdiv_mono1) simp
  then have "\<bar>sint d sdiv 1000000\<bar> \<le> 2 ^ 63 div 1000000" by (simp add: sdiv_million_abs)
  then show ?thesis by (simp add: Milliseconds_def sint64_of_int)
qed

text \<open>
  A wait of \<open>Milliseconds (Sub t u)\<close> milliseconds from \<open>u\<close> never passes \<open>t\<close> and falls
  short of it by less than a millisecond.
\<close>

lemma Milliseconds_Sub_bounds:
  assumes "u \<le> t" and "t - u < 2 ^ 63"
  shows "u + sint (Milliseconds (Sub t u)) * 1000000 \<le> t"
    and "t < u + (sint (Milliseconds (Sub t u)) + 1) * 1000000"
proof -
  have "sint (Sub t u) = t - u" using assms by (simp add: Sub_saturated)
  with assms have ms: "sint (Milliseconds (Sub t u)) = (t - u) div 1000000"
    by (simp add: Milliseconds_sint sdiv_million_nonneg)
  define q r where "q = (t - u) div 1000000" and "r = (t - u) mod 1000000"
  have "q * 1000000 + r = t - u" "0 \<le> r" "r < 1000000"
    by (simp_all add: q_def r_def)
  then show "u + sint (Milliseconds (Sub t u)) * 1000000 \<le> t"
    and "t < u + (sint (Milliseconds (Sub t u)) + 1) * 1000000"
    unfolding ms q_def [symmetric] by simp_all
qed

text \<open>A number of seconds that fits becomes a duration of that many nanoseconds.\<close>

lemma seconds_duration:
  assumes "0 \<le> sint w" and "sint w \<le> 9223372036"
  shows "sint (w * Second) = sint w * 1000000000"
proof -
  have "w * Second = word_of_int (sint w * 1000000000)"
    by (simp add: Second_def)
  also have "sint \<dots> = sint w * 1000000000"
    using assms by (intro sint64_of_int) simp_all
  finally show ?thesis .
qed

end
