(* ===== verification/Json.thy ===== *)
theory Json
  imports GoStrconv
begin

text \<open>
  The part of \<open>encoding/json\<close> that rule contents go through: the text of a document is
  decoded into a value (\<open>json_decode\<close>: whitespace, literals, the strict number grammar,
  string escapes with surrogate pairs and the replacement of invalid UTF-8, the nesting
  limit of 10000). A number keeps its literal and an object its members in order, so that
  the conversions of \<open>JsonGo\<close> see what \<open>json.RawMessage\<close> keeps.
\<close>

datatype json =
    JNull
  | JBool bool
  | JNumber string
  | JString string
  | JArray "json list"
  | JObject "(string \<times> json) list"

subsection \<open>Tokens\<close>

definition json_ws :: "char \<Rightarrow> bool" where
  "json_ws c \<longleftrightarrow> c \<in> {CHR '' '', CHR 0x09, CHR 0x0A, CHR 0x0D}"

definition skip_ws :: "string \<Rightarrow> string" where
  "skip_ws s = dropWhile json_ws s"

definition hex_val :: "char \<Rightarrow> nat option" where
  "hex_val c =
     (let n = of_char c :: nat in
      if 48 \<le> n \<and> n \<le> 57 then Some (n - 48)
      else if 97 \<le> n \<and> n \<le> 102 then Some (n - 87)
      else if 65 \<le> n \<and> n \<le> 70 then Some (n - 55) else None)"

fun hex4 :: "string \<Rightarrow> (nat \<times> string) option" where
  "hex4 (a # b # c # d # s) =
     (case (hex_val a, hex_val b, hex_val c, hex_val d) of
        (Some w, Some x, Some y, Some z) \<Rightarrow> Some (((w * 16 + x) * 16 + y) * 16 + z, s)
      | _ \<Rightarrow> None)"
| "hex4 _ = None"

text \<open>UTF-8 encoding of a code point, and the length of the valid sequence at the start of a string.\<close>

definition utf8_encode :: "nat \<Rightarrow> string" where
  "utf8_encode r =
     (if r < 128 then [char_of r]
      else if r < 2048 then [char_of (192 + r div 64), char_of (128 + r mod 64)]
      else if r < 65536 then
        [char_of (224 + r div 4096), char_of (128 + r div 64 mod 64), char_of (128 + r mod 64)]
      else
        [char_of (240 + r div 262144), char_of (128 + r div 4096 mod 64),
         char_of (128 + r div 64 mod 64), char_of (128 + r mod 64)])"

definition byte_between :: "nat \<Rightarrow> nat \<Rightarrow> char \<Rightarrow> bool" where
  "byte_between lo hi c \<longleftrightarrow> lo \<le> (of_char c :: nat) \<and> (of_char c :: nat) \<le> hi"

definition utf8_len :: "string \<Rightarrow> nat" where
  "utf8_len s =
     (case s of
        c # d # e # f # _ \<Rightarrow>
          (if byte_between 194 223 c \<and> byte_between 128 191 d then 2
           else if ((c = CHR 0xE0 \<and> byte_between 160 191 d) \<or> (c = CHR 0xED \<and> byte_between 128 159 d)
                \<or> ((byte_between 225 236 c \<or> byte_between 238 239 c) \<and> byte_between 128 191 d))
                \<and> byte_between 128 191 e then 3
           else if ((c = CHR 0xF0 \<and> byte_between 144 191 d) \<or> (c = CHR 0xF4 \<and> byte_between 128 143 d)
                \<or> (byte_between 241 243 c \<and> byte_between 128 191 d))
                \<and> byte_between 128 191 e \<and> byte_between 128 191 f then 4 else 0)
      | [c, d, e] \<Rightarrow>
          (if byte_between 194 223 c \<and> byte_between 128 191 d then 2
           else if ((c = CHR 0xE0 \<and> byte_between 160 191 d) \<or> (c = CHR 0xED \<and> byte_between 128 159 d)
                \<or> ((byte_between 225 236 c \<or> byte_between 238 239 c) \<and> byte_between 128 191 d))
                \<and> byte_between 128 191 e then 3 else 0)
      | [c, d] \<Rightarrow> (if byte_between 194 223 c \<and> byte_between 128 191 d then 2 else 0)
      | _ \<Rightarrow> 0)"

definition replacement :: string where
  "replacement = [CHR 0xEF, CHR 0xBF, CHR 0xBD]"

definition simple_escape :: "char \<Rightarrow> char option" where
  "simple_escape e =
     (if e = CHR ''b'' then Some (CHR 0x08) else if e = CHR ''f'' then Some (CHR 0x0C)
      else if e = CHR ''n'' then Some (CHR 0x0A) else if e = CHR ''r'' then Some (CHR 0x0D)
      else if e = CHR ''t'' then Some (CHR 0x09)
      else if e \<in> {CHR 0x22, CHR 0x5C, CHR ''/''} then Some e else None)"

text \<open>
  \<open>\uXXXX\<close>, with the text after it: a surrogate pair becomes one code point, a lone
  surrogate the replacement character.
\<close>

definition unicode_escape :: "string \<Rightarrow> (string \<times> string) option" where
  "unicode_escape s =
     (case hex4 s of
        None \<Rightarrow> None
      | Some (r, s1) \<Rightarrow>
          (if r < 55296 \<or> 57343 < r then Some (utf8_encode r, s1)
           else case s1 of
             b # u # s2 \<Rightarrow>
               (if b = CHR 0x5C \<and> u = CHR ''u'' then
                  (case hex4 s2 of
                     Some (r2, s3) \<Rightarrow>
                       (if r < 56320 \<and> 56320 \<le> r2 \<and> r2 \<le> 57343
                        then Some (utf8_encode (65536 + (r - 55296) * 1024 + (r2 - 56320)), s3)
                        else Some (replacement, s1))
                   | None \<Rightarrow> Some (replacement, s1))
                else Some (replacement, s1))
           | _ \<Rightarrow> Some (replacement, s1)))"

lemma hex4_shorter: "hex4 s = Some (r, t) \<Longrightarrow> length t < length s"
  by (induction s rule: hex4.induct) (auto split: option.splits prod.splits)

lemma unicode_escape_shorter: "unicode_escape s = Some (c, t) \<Longrightarrow> length t < length s"
  by (auto simp: unicode_escape_def split: option.splits prod.splits if_splits list.splits
      dest!: hex4_shorter)

text \<open>The characters of a string up to its closing quote, decoded, and the text after it.\<close>

definition prepend :: "string \<Rightarrow> (string \<times> 'a) option \<Rightarrow> (string \<times> 'a) option" where
  "prepend p r = map_option (\<lambda>(s, t). (p @ s, t)) r"

function json_chars :: "string \<Rightarrow> (string \<times> string) option" where
  "json_chars [] = None"
| "json_chars (c # s) =
     (if c = CHR 0x22 then Some ([], s)
      else if (of_char c :: nat) < 32 then None
      else if c = CHR 0x5C then
        (case s of
           [] \<Rightarrow> None
         | e # s1 \<Rightarrow>
             (if e = CHR ''u'' then
                (case unicode_escape s1 of
                   None \<Rightarrow> None
                 | Some (u, s2) \<Rightarrow> prepend u (json_chars s2))
              else case simple_escape e of
                None \<Rightarrow> None
              | Some d \<Rightarrow> prepend [d] (json_chars s1)))
      else if (of_char c :: nat) < 128 then prepend [c] (json_chars s)
      else if utf8_len (c # s) = 0 then prepend replacement (json_chars s)
      else prepend (take (utf8_len (c # s)) (c # s)) (json_chars (drop (utf8_len (c # s) - 1) s)))"
  by pat_completeness auto
termination
  by (relation "measure length") (auto dest!: unicode_escape_shorter)

declare json_chars.simps [simp del]
lemmas json_chars_unfold = json_chars.simps

definition digits_of :: "string \<Rightarrow> string" where "digits_of s = takeWhile is_digit s"
definition after_digits :: "string \<Rightarrow> string" where "after_digits s = dropWhile is_digit s"

definition int_part :: "string \<Rightarrow> (string \<times> string) option" where
  "int_part s =
     (case s of
        [] \<Rightarrow> None
      | c # r \<Rightarrow>
          (if c = CHR ''0'' then Some ([c], r)
           else if is_digit c then Some (digits_of s, after_digits s) else None))"

definition frac_part :: "string \<Rightarrow> (string \<times> string) option" where
  "frac_part s =
     (case s of
        c # r \<Rightarrow>
          (if c \<noteq> CHR ''.'' then Some ([], s)
           else if digits_of r = [] then None else Some (c # digits_of r, after_digits r))
      | [] \<Rightarrow> Some ([], s))"

definition exp_sign :: "string \<Rightarrow> string \<times> string" where
  "exp_sign s =
     (case s of
        c # r \<Rightarrow> (if c = CHR ''+'' \<or> c = CHR ''-'' then ([c], r) else ([], s))
      | [] \<Rightarrow> ([], s))"

definition exp_part :: "string \<Rightarrow> (string \<times> string) option" where
  "exp_part s =
     (case s of
        c # r \<Rightarrow>
          (if c \<noteq> CHR ''e'' \<and> c \<noteq> CHR ''E'' then Some ([], s)
           else case exp_sign r of (sg, t) \<Rightarrow>
             (if digits_of t = [] then None else Some (c # sg @ digits_of t, after_digits t)))
      | [] \<Rightarrow> Some ([], s))"

definition minus_part :: "string \<Rightarrow> string \<times> string" where
  "minus_part s =
     (case s of c # r \<Rightarrow> (if c = CHR ''-'' then ([c], r) else ([], s)) | [] \<Rightarrow> ([], s))"

definition json_number :: "string \<Rightarrow> (string \<times> string) option" where
  "json_number s =
     (case minus_part s of (m, s1) \<Rightarrow>
        (case int_part s1 of None \<Rightarrow> None | Some (i, s2) \<Rightarrow>
          (case frac_part s2 of None \<Rightarrow> None | Some (f, s3) \<Rightarrow>
            (case exp_part s3 of None \<Rightarrow> None | Some (e, s4) \<Rightarrow> Some (m @ i @ f @ e, s4)))))"

subsection \<open>Values\<close>

definition max_nesting :: nat where "max_nesting = 10000"

text \<open>
  The recursive descent, on fuel: each call spends one unit, and \<open>json_decode\<close> gives
  more than any document of that length can use (\<open>json_fuel_enough\<close> below). The second
  number counts the open arrays and objects.
\<close>

fun json_value :: "nat \<Rightarrow> nat \<Rightarrow> string \<Rightarrow> (json \<times> string) option"
  and json_elements :: "nat \<Rightarrow> nat \<Rightarrow> string \<Rightarrow> (json list \<times> string) option"
  and json_members :: "nat \<Rightarrow> nat \<Rightarrow> string \<Rightarrow> ((string \<times> json) list \<times> string) option" where
  "json_value 0 d s = None"
| "json_value (Suc n) d s =
     (case s of
        [] \<Rightarrow> None
      | c # r \<Rightarrow>
          (if c = CHR 0x22 then map_option (\<lambda>(v, t). (JString v, t)) (json_chars r)
           else if c = CHR ''['' then
             (if max_nesting \<le> d then None
              else case skip_ws r of
                e # t \<Rightarrow>
                  (if e = CHR '']'' then Some (JArray [], t)
                   else map_option (\<lambda>(vs, t). (JArray vs, t)) (json_elements n (Suc d) (e # t)))
              | [] \<Rightarrow> None)
           else if c = CHR ''{'' then
             (if max_nesting \<le> d then None
              else case skip_ws r of
                e # t \<Rightarrow>
                  (if e = CHR ''}'' then Some (JObject [], t)
                   else map_option (\<lambda>(ms, t). (JObject ms, t)) (json_members n (Suc d) (e # t)))
              | [] \<Rightarrow> None)
           else if HasPrefix s ''null'' then Some (JNull, drop 4 s)
           else if HasPrefix s ''true'' then Some (JBool True, drop 4 s)
           else if HasPrefix s ''false'' then Some (JBool False, drop 5 s)
           else map_option (\<lambda>(l, t). (JNumber l, t)) (json_number s)))"
| "json_elements 0 d s = None"
| "json_elements (Suc n) d s =
     (case json_value n d s of
        None \<Rightarrow> None
      | Some (v, r) \<Rightarrow>
          (case skip_ws r of
             [] \<Rightarrow> None
           | c # t \<Rightarrow>
               (if c = CHR '']'' then Some ([v], t)
                else if c = CHR '','' then
                  map_option (\<lambda>(vs, t). (v # vs, t)) (json_elements n d (skip_ws t))
                else None)))"
| "json_members 0 d s = None"
| "json_members (Suc n) d s =
     (case s of
        [] \<Rightarrow> None
      | q # r \<Rightarrow>
          (if q \<noteq> CHR 0x22 then None
           else case json_chars r of
             None \<Rightarrow> None
           | Some (k, r1) \<Rightarrow>
               (case skip_ws r1 of
                  [] \<Rightarrow> None
                | c # r2 \<Rightarrow>
                    (if c \<noteq> CHR '':'' then None
                     else case json_value n d (skip_ws r2) of
                       None \<Rightarrow> None
                     | Some (v, r3) \<Rightarrow>
                         (case skip_ws r3 of
                            [] \<Rightarrow> None
                          | e # t \<Rightarrow>
                              (if e = CHR ''}'' then Some ([(k, v)], t)
                               else if e = CHR '','' then
                                 map_option (\<lambda>(ms, t). ((k, v) # ms, t)) (json_members n d (skip_ws t))
                               else None))))))"

definition json_decode :: "string \<Rightarrow> json option" where
  "json_decode s =
     (case json_value (2 * length s + 1) 0 (skip_ws s) of
        Some (v, r) \<Rightarrow> (if skip_ws r = [] then Some v else None)
      | None \<Rightarrow> None)"

subsection \<open>Every call consumes text; the fuel is enough\<close>

lemma skip_ws_le: "length (skip_ws s) \<le> length s"
  by (simp add: skip_ws_def length_dropWhile_le)

lemma json_chars_shorter: "json_chars s = Some (v, t) \<Longrightarrow> length t < length s"
proof (induction s arbitrary: v rule: length_induct)
  case (1 s)
  have IH: "json_chars r = Some (w, t) \<Longrightarrow> length r < length s \<Longrightarrow> length t < length s" for r w
    using "1.IH" less_trans by blast
  obtain c r where s: "s = c # r" using "1.prems" by (cases s) (simp_all add: json_chars_unfold)
  show ?case
    using "1.prems" unfolding s json_chars_unfold(2) prepend_def
    by (auto split: if_splits list.splits option.splits dest!: unicode_escape_shorter
        dest: IH [unfolded s])
qed

lemma after_digits_le: "length (after_digits s) \<le> length s"
  by (simp add: after_digits_def length_dropWhile_le)

lemma exp_sign_le: "exp_sign s = (g, t) \<Longrightarrow> length t \<le> length s"
  by (auto simp: exp_sign_def split: list.splits if_splits)

lemma int_part_shorter: "int_part s = Some (i, t) \<Longrightarrow> length t < length s"
  by (cases s) (auto simp: int_part_def after_digits_def length_dropWhile_le less_Suc_eq_le
      split: if_splits)

lemma frac_part_le: "frac_part s = Some (i, t) \<Longrightarrow> length t \<le> length s"
  using after_digits_le [of "tl s"] by (auto simp: frac_part_def split: list.splits if_splits)

lemma exp_part_le: "exp_part s = Some (i, t) \<Longrightarrow> length t \<le> length s"
  by (auto simp: exp_part_def split: list.splits if_splits prod.splits dest!: exp_sign_le
      intro: le_SucI order_trans [OF after_digits_le])

lemma json_number_shorter: "json_number s = Some (l, t) \<Longrightarrow> length t < length s"
  by (auto simp: json_number_def minus_part_def split: list.splits option.splits if_splits
      dest!: int_part_shorter frac_part_le exp_part_le)

lemma skip_ws_shorter: "skip_ws s = c # t \<Longrightarrow> length t < length s"
  using skip_ws_le [of s] by simp

lemma json_shorter:
  "(\<forall>d s v t. json_value n d s = Some (v, t) \<longrightarrow> length t < length s) \<and>
   (\<forall>d s vs t. json_elements n d s = Some (vs, t) \<longrightarrow> length t < length s) \<and>
   (\<forall>d s ms t. json_members n d s = Some (ms, t) \<longrightarrow> length t < length s)"
proof (induction n)
  case 0
  then show ?case by simp
next
  case (Suc n)
  then have IH: "json_value n d s = Some (v, t) \<Longrightarrow> length t < length s"
      "json_elements n d s = Some (vs, t) \<Longrightarrow> length t < length s"
      "json_members n d s = Some (ms, t) \<Longrightarrow> length t < length s" for d s v t vs ms
    by blast+
  have "length t < length s" if "json_value (Suc n) d s = Some (v, t)" for d s v t
    using that
    by (auto split: list.splits if_splits dest!: IH json_chars_shorter json_number_shorter
        skip_ws_shorter)
  moreover have "length t < length s" if "json_elements (Suc n) d s = Some (vs, t)" for d s vs t
    using that
    by (auto split: list.splits if_splits option.splits dest!: IH skip_ws_shorter
        order_less_le_trans [OF _ skip_ws_le])
  moreover have "length t < length s" if "json_members (Suc n) d s = Some (ms, t)" for d s ms t
    using that
    by (auto split: list.splits if_splits option.splits
        dest!: IH json_chars_shorter skip_ws_shorter order_less_le_trans [OF _ skip_ws_le])
  ultimately show ?case by blast
qed

lemmas json_value_shorter = json_shorter [THEN conjunct1, rule_format]

text \<open>
  Fuel beyond twice the length of the text changes nothing: \<open>json_decode\<close> computes what
  the recursive descent without fuel does.
\<close>

lemma json_fuel_step:
  "(\<forall>d s. 2 * length s < n \<longrightarrow> json_value (Suc n) d s = json_value n d s) \<and>
   (\<forall>d s. 2 * length s + 1 < n \<longrightarrow> json_elements (Suc n) d s = json_elements n d s) \<and>
   (\<forall>d s. 2 * length s + 1 < n \<longrightarrow> json_members (Suc n) d s = json_members n d s)"
proof (induction n)
  case 0
  then show ?case by simp
next
  case (Suc n)
  obtain m where m_def: "m = Suc n" by blast
  with Suc have IH: "2 * length s < n \<Longrightarrow> json_value m d s = json_value n d s"
      "2 * length s + 1 < n \<Longrightarrow> json_elements m d s = json_elements n d s"
      "2 * length s + 1 < n \<Longrightarrow> json_members m d s = json_members n d s" for d s
    by blast+
  have "json_value (Suc m) d s = json_value (Suc n) d s" if b: "2 * length s < Suc n" for d s
  proof (cases s)
    case (Cons c r)
    have "2 * length (e # t) + 1 < n" if "skip_ws r = e # t" for e t
      using that b Cons skip_ws_le [of r] by simp
    then show ?thesis using Cons
      by (auto simp: IH split: list.splits)
  qed simp
  moreover have "json_elements (Suc m) d s = json_elements (Suc n) d s"
    if b: "2 * length s + 1 < Suc n" for d s
  proof -
    have "2 * length (skip_ws t) + 1 < n" if "json_value n d s = Some (v, r)" "skip_ws r = c # t"
      for v r c t
      using json_value_shorter [OF that(1)] skip_ws_shorter [OF that(2)] skip_ws_le [of t] b
      by simp
    moreover have "2 * length s < n" using b by simp
    ultimately show ?thesis
      by (auto simp: IH split: list.splits option.splits)
  qed
  moreover have "json_members (Suc m) d s = json_members (Suc n) d s"
    if b: "2 * length s + 1 < Suc n" for d s
  proof (cases s)
    case (Cons q r)
    have v: "2 * length (skip_ws r2) < n"
      if "json_chars r = Some (k, r1)" "skip_ws r1 = c # r2" for k r1 c r2
      using json_chars_shorter [OF that(1)] skip_ws_shorter [OF that(2)] skip_ws_le [of r2] b Cons
      by simp
    have m: "json_members m d (skip_ws t) = json_members n d (skip_ws t)"
      if "json_chars r = Some (k, r1)" "skip_ws r1 = c # r2"
        "json_value n d (skip_ws r2) = Some (w, r3)" "skip_ws r3 = e # t" for k r1 c r2 w r3 e t
      using json_chars_shorter [OF that(1)] skip_ws_shorter [OF that(2)] skip_ws_le [of r2]
        json_value_shorter [OF that(3)] skip_ws_shorter [OF that(4)] skip_ws_le [of t] b Cons
      by (intro IH(3)) simp
    show ?thesis using Cons
      by (auto simp: IH(1) v split: list.splits option.splits)
        (use m in metis)
  qed simp
  ultimately show ?case unfolding m_def by blast
qed

lemma json_fuel_enough:
  assumes "2 * length s < n"
  shows "json_value (n + k) d s = json_value n d s"
proof (induction k)
  case (Suc k)
  have "json_value (Suc (n + k)) d s = json_value (n + k) d s"
    using json_fuel_step [of "n + k"] assms by simp
  with Suc show ?case by simp
qed simp

end
