(* ===== verification/RuleModel.thy ===== *)
theory RuleModel
  imports GoStrconv GoTime Json
begin

text \<open>
  The rule snapshot of \<open>internal/rulestore/model.go\<close>: applications by code, each with its
  configurations by id and its rules by id. Nil-able slices and maps are options; a Go map
  field is an \<open>fmap\<close> (nil and empty maps read alike). A \<open>json.RawMessage\<close> is its text.
\<close>

record Config =
  cfg_ApplicationCode :: string
  cfg_ConfigID :: string
  cfg_RuleName :: string
  cfg_RuleType :: string
  cfg_Content :: "string option"
  cfg_ContentChecksum :: string
  cfg_AggregateChecksum :: string
  cfg_RuleCount :: int64

record Rule =
  rule_ApplicationCode :: string
  rule_ConfigID :: string
  rule_RuleID :: string
  rule_Name :: string
  rule_SnapshotVersion :: int64
  rule_Checksum :: string
  rule_SchemaVersion :: string
  rule_Algorithm :: string
  rule_Quota :: int64
  rule_WindowSeconds :: int64
  rule_Burst :: int64
  rule_Dimensions :: "string list option"
  rule_FailPolicy :: string
  rule_Attributes :: "(string, string) fmap option"
  rule_Raw :: "string option"

record Application =
  app_Code :: string
  app_Version :: int64
  app_Checksum :: string
  app_Configs :: "(string, Config) fmap"
  app_Rules :: "(string, Rule) fmap"

record Snapshot =
  snap_Version :: int64
  snap_Checksum :: string
  snap_GeneratedAt :: time
  snap_Apps :: "(string, Application) fmap"

text \<open>The zero \<open>Rule{}\<close>, which lookups that fail return.\<close>

definition zero_Rule :: Rule where
  "zero_Rule =
     \<lparr>rule_ApplicationCode = [], rule_ConfigID = [], rule_RuleID = [], rule_Name = [],
      rule_SnapshotVersion = 0, rule_Checksum = [], rule_SchemaVersion = [],
      rule_Algorithm = [], rule_Quota = 0, rule_WindowSeconds = 0, rule_Burst = 0,
      rule_Dimensions = None, rule_FailPolicy = [], rule_Attributes = None, rule_Raw = None\<rparr>"

definition EmptySnapshot :: "time \<Rightarrow> Snapshot" where
  "EmptySnapshot now =
     \<lparr>snap_Version = 0, snap_Checksum = [], snap_GeneratedAt = now, snap_Apps = fmempty\<rparr>"

definition Snapshot_Empty :: "Snapshot \<Rightarrow> bool" where
  "Snapshot_Empty s \<longleftrightarrow>
     snap_Version s = 0 \<and> snap_Checksum s = [] \<and> go_len (snap_Apps s) = 0"

subsection \<open>Clone\<close>

definition Config_Clone :: "Config \<Rightarrow> Config" where
  "Config_Clone c = c\<lparr>cfg_Content := map_option (\<lambda>raw. [] @ raw) (cfg_Content c)\<rparr>"

definition Rule_Clone :: "Rule \<Rightarrow> Rule" where
  "Rule_Clone r =
     r\<lparr>rule_Dimensions := map_option (\<lambda>ds. [] @ ds) (rule_Dimensions r),
       rule_Attributes := map_option (fmmap (\<lambda>v. v)) (rule_Attributes r),
       rule_Raw := map_option (\<lambda>raw. [] @ raw) (rule_Raw r)\<rparr>"

definition Application_Clone :: "Application \<Rightarrow> Application" where
  "Application_Clone a =
     \<lparr>app_Code = app_Code a, app_Version = app_Version a, app_Checksum = app_Checksum a,
      app_Configs = fmmap Config_Clone (app_Configs a),
      app_Rules = fmmap Rule_Clone (app_Rules a)\<rparr>"

definition Snapshot_Clone :: "Snapshot \<Rightarrow> Snapshot" where
  "Snapshot_Clone s =
     \<lparr>snap_Version = snap_Version s, snap_Checksum = snap_Checksum s,
      snap_GeneratedAt = snap_GeneratedAt s,
      snap_Apps = fmmap Application_Clone (snap_Apps s)\<rparr>"

definition Revision :: "Rule \<Rightarrow> string" where
  "Revision r = (if rule_SnapshotVersion r = 0 then [] else FormatInt (rule_SnapshotVersion r))"

text \<open>A clone has the value of the original: cloning only cuts sharing.\<close>

lemma Config_Clone_id [simp]: "Config_Clone c = c"
  by (simp add: Config_Clone_def option.map_ident)

lemma fmmap_same: "(\<And>v. f v = v) \<Longrightarrow> fmmap f m = m"
  by (rule fmap_ext) (simp add: option.map_ident_strong)

lemma Rule_Clone_id [simp]: "Rule_Clone r = r"
  by (simp add: Rule_Clone_def fmmap_same option.map_ident option.map_ident_strong)

lemma Application_Clone_id [simp]: "Application_Clone a = a"
  by (simp add: Application_Clone_def fmmap_same)

lemma Snapshot_Clone_id [simp]: "Snapshot_Clone s = s"
  by (simp add: Snapshot_Clone_def fmmap_same)

lemma Revision_inject:
  "Revision r = Revision r' \<longleftrightarrow> rule_SnapshotVersion r = rule_SnapshotVersion r'"
  by (simp add: Revision_def) (metis FormatInt_nonempty)

end
