(* ===== verification/Config.thy ===== *)
theory Config
  imports GoStrconv GoTime
begin

text \<open>
  \<open>internal/config/config.go\<close>: the configuration of the service and the helpers that choose
  each value from the environment, the configuration file and a default. The environment is
  the function \<open>os.Getenv\<close>.
\<close>

record InstanceConfig =
  ic_Namespace :: string
  ic_Service :: string
  ic_ID :: string
  ic_Host :: string
  ic_Port :: int32
  ic_Priority :: int32
  ic_Weight :: int32
  ic_Zone :: string
  ic_Version :: string

record StellOrbitConfig =
  so_RuntimeEndpoint :: string
  so_HTTPTimeout :: duration
  so_AuthToken :: string

record RulesConfig =
  rc_SnapshotPageSize :: int64
  rc_WatchReconnectDelay :: duration
  rc_WatchResyncInterval :: duration
  rc_DeltaFetchTimeout :: duration
  rc_FullSyncMaxRetries :: int64
  rc_WatchEventBuffer :: int64
  rc_ServerLagRetryAfter :: duration
  rc_BucketGCInterval :: duration
  rc_ExpiredBucketGrace :: duration
  rc_MaxBuckets :: int64
  rc_CompatiblePrevRevision :: duration
  rc_SessionHeartbeatInterval :: duration
  rc_AllowEmptyStartup :: bool

record ServiceConfig =
  sc_Instance :: InstanceConfig
  sc_StellOrbit :: StellOrbitConfig
  sc_Rules :: RulesConfig
  sc_GRPC_ClientName :: string
  sc_Observability_TopologyMetrics :: bool
  sc_Security_AuthToken :: string

subsection \<open>Choosing values\<close>

definition chooseInt :: "int64 \<Rightarrow> int64 \<Rightarrow> int64" where
  "chooseInt value fallback = (if value \<noteq> 0 then value else fallback)"

definition chooseInt32 :: "int32 \<Rightarrow> int32 \<Rightarrow> int32" where
  "chooseInt32 value fallback = (if value \<noteq> 0 then value else fallback)"

definition envString :: "(string \<Rightarrow> string) \<Rightarrow> string \<Rightarrow> string \<Rightarrow> string" where
  "envString getenv key fallback =
     (let value = TrimSpace (getenv key) in if value = [] then fallback else value)"

definition envInt :: "(string \<Rightarrow> string) \<Rightarrow> string \<Rightarrow> int64 \<Rightarrow> int64" where
  "envInt getenv key fallback =
     (let value = TrimSpace (getenv key) in
      if value = [] then fallback
      else case Atoi value of Inl _ \<Rightarrow> fallback | Inr parsed \<Rightarrow> parsed)"

text \<open>\<open>strconv.ParseBool\<close>\<close>

definition ParseBool :: "string \<Rightarrow> bool option" where
  "ParseBool s =
     (if s \<in> {''1'', ''t'', ''T'', ''true'', ''TRUE'', ''True''} then Some True
      else if s \<in> {''0'', ''f'', ''F'', ''false'', ''FALSE'', ''False''} then Some False
      else None)"

definition envBool :: "(string \<Rightarrow> string) \<Rightarrow> string \<Rightarrow> bool \<Rightarrow> bool" where
  "envBool getenv key fallback =
     (let value = TrimSpace (getenv key) in
      if value = [] then fallback
      else case ParseBool value of None \<Rightarrow> fallback | Some parsed \<Rightarrow> parsed)"

end
