(* ===== verification/GoSort.thy ===== *)
theory GoSort
  imports GoStrings "HOL-Library.Product_Lexorder" "HOL-Library.Multiset"
begin

text \<open>
  \<open>sort.SliceStable\<close>: a stable sort by a comparison function. When the function compares
  keys of a linear order it is the library's \<open>sort_key\<close>, which the proofs use.
\<close>

fun insert_stable :: "('a \<Rightarrow> 'a \<Rightarrow> bool) \<Rightarrow> 'a \<Rightarrow> 'a list \<Rightarrow> 'a list" where
  "insert_stable lt x [] = [x]"
| "insert_stable lt x (y # ys) =
     (if lt y x then y # insert_stable lt x ys else x # y # ys)"

definition SliceStable :: "('a \<Rightarrow> 'a \<Rightarrow> bool) \<Rightarrow> 'a list \<Rightarrow> 'a list" where
  "SliceStable lt xs = foldr (insert_stable lt) xs []"

lemma insert_stable_key:
  assumes "\<And>x y. lt x y \<longleftrightarrow> key x < (key y :: 'k :: linorder)"
  shows "insert_stable lt x ys = insort_key key x ys"
  by (induction ys) (auto simp: assms not_less)

lemma SliceStable_key:
  assumes "\<And>x y. lt x y \<longleftrightarrow> key x < (key y :: 'k :: linorder)"
  shows "SliceStable lt xs = sort_key key xs"
proof -
  have "insert_stable lt = insort_key key"
    by (intro ext) (rule insert_stable_key [OF assms])
  then show ?thesis by (simp add: SliceStable_def sort_key_def)
qed

lemma SliceStable_set [simp]: "set (SliceStable lt xs) = set xs"
proof -
  have "set (insert_stable lt x ys) = insert x (set ys)" for x ys
    by (induction ys) auto
  then show ?thesis unfolding SliceStable_def by (induction xs) auto
qed

lemma SliceStable_mset [simp]: "mset (SliceStable lt xs) = mset xs"
proof -
  have "mset (insert_stable lt x ys) = add_mset x (mset ys)" for x ys
    by (induction ys) auto
  then show ?thesis unfolding SliceStable_def by (induction xs) auto
qed

text \<open>With pairwise distinct keys the input order does not matter.\<close>

lemma sort_key_unique:
  assumes "mset xs = mset ys" and "inj_on key (set xs)"
  shows "sort_key key xs = sort_key (key :: 'a \<Rightarrow> 'k :: linorder) ys"
proof (rule sort_key_inj_key_eq)
  show "mset xs = mset (sort_key key ys)" using assms(1) by simp
qed (use assms(2) in simp_all)

end
