(* ===== verification/Registry.thy ===== *)
theory Registry
  imports RuleModel Config GoSort
begin

text \<open>
  \<open>internal/registry/registry.go\<close>: the providers of the service's instances. The discovery
  service behind \<open>StellarProvider\<close> is an argument: the outcome of its query. A provider's
  \<open>local\<close> instance is state that \<open>Update\<close> writes.
\<close>

record Instance =
  inst_InstanceID :: string
  inst_Host :: string
  inst_Port :: int32
  inst_Priority :: int32
  inst_Weight :: int32
  inst_Zone :: string
  inst_Version :: string
  inst_RuleRevision :: string
  inst_State :: string
  inst_Metadata :: "(string, string) fmap"

definition zero_Instance :: Instance where
  "zero_Instance =
     \<lparr>inst_InstanceID = [], inst_Host = [], inst_Port = 0, inst_Priority = 0, inst_Weight = 0,
      inst_Zone = [], inst_Version = [], inst_RuleRevision = [], inst_State = [],
      inst_Metadata = fmempty\<rparr>"

text \<open>What the code reads of the discovery client's types.\<close>

record StellarEndpoint =
  se_Name :: string
  se_Protocol :: string
  se_Host :: string
  se_Port :: int64
  se_Weight :: int64

record StellarInstance =
  si_InstanceID :: string
  si_Zone :: string
  si_Endpoints :: "StellarEndpoint list"
  si_Metadata :: "(string, string) fmap"

record StellarQuery =
  sq_Namespace :: string
  sq_Service :: string
  sq_PassingOnly :: bool

subsection \<open>Maps and instances\<close>

definition cloneMap :: "(string, string) fmap \<Rightarrow> (string, string) fmap" where
  "cloneMap values = fmmap (\<lambda>value. value) values"

definition mergeMap :: "(string, string) fmap \<Rightarrow> (string, string) fmap \<Rightarrow> (string, string) fmap" where
  "mergeMap base override = cloneMap base ++\<^sub>f override"

definition cloneInstance :: "Instance \<Rightarrow> Instance" where
  "cloneInstance value = value\<lparr>inst_Metadata := cloneMap (inst_Metadata value)\<rparr>"

definition Sprintf_host_port :: "string \<Rightarrow> int32 \<Rightarrow> string" where
  "Sprintf_host_port host port = host @ '':'' @ format_int (sint port)"

definition registry_less :: "Instance \<Rightarrow> Instance \<Rightarrow> bool" where
  "registry_less left right =
     (if inst_Priority left \<noteq> inst_Priority right then inst_Priority left <s inst_Priority right
      else if inst_Weight left \<noteq> inst_Weight right then inst_Weight right <s inst_Weight left
      else Sprintf_host_port (inst_Host left) (inst_Port left) <
           Sprintf_host_port (inst_Host right) (inst_Port right))"

definition sortInstances :: "Instance list \<Rightarrow> Instance list" where
  "sortInstances instances = SliceStable registry_less instances"

subsection \<open>Instances of the discovery service\<close>

definition endpoint :: "StellarEndpoint list \<Rightarrow> string \<times> int64" where
  "endpoint endpoints =
     (case find (\<lambda>e. se_Protocol e = ''grpc'' \<or> se_Name e = ''grpc'') endpoints of
        Some candidate \<Rightarrow> (se_Host candidate, se_Port candidate)
      | None \<Rightarrow>
          (case endpoints of [] \<Rightarrow> ([], 0) | first # _ \<Rightarrow> (se_Host first, se_Port first)))"

definition endpointWeight :: "StellarEndpoint list \<Rightarrow> int32 \<Rightarrow> int32" where
  "endpointWeight endpoints fallback =
     (case find (\<lambda>e. 0 <s se_Weight e) endpoints of
        Some candidate \<Rightarrow> scast (se_Weight candidate)
      | None \<Rightarrow> fallback)"

definition int32Value :: "(string, string) fmap \<Rightarrow> string \<Rightarrow> int32 \<Rightarrow> int32" where
  "int32Value values key fallback =
     (case fmlookup values key of
        None \<Rightarrow> fallback
      | Some value \<Rightarrow> (case Atoi value of Inl _ \<Rightarrow> fallback | Inr parsed \<Rightarrow> scast parsed))"

definition map_value :: "(string, string) fmap \<Rightarrow> string \<Rightarrow> string" where
  "map_value values key = (case fmlookup values key of None \<Rightarrow> [] | Some value \<Rightarrow> value)"

definition fromStellar :: "StellarInstance \<Rightarrow> Instance" where
  "fromStellar item =
     (case endpoint (si_Endpoints item) of (host, port) \<Rightarrow>
        \<lparr>inst_InstanceID = si_InstanceID item,
         inst_Host = host,
         inst_Port = scast port,
         inst_Priority = int32Value (si_Metadata item) ''priority'' 100,
         inst_Weight = int32Value (si_Metadata item) ''weight'' (endpointWeight (si_Endpoints item) 100),
         inst_Zone = si_Zone item,
         inst_Version = map_value (si_Metadata item) ''version'',
         inst_RuleRevision = map_value (si_Metadata item) ''rule_revision'',
         inst_State = ''UP'',
         inst_Metadata = cloneMap (si_Metadata item)\<rparr>)"

subsection \<open>LocalProvider\<close>

definition LocalProvider_Update :: "Snapshot \<Rightarrow> Instance \<Rightarrow> Instance" where
  "LocalProvider_Update snapshot i =
     (let revision = FormatInt (snap_Version snapshot) in
      i\<lparr>inst_RuleRevision := revision,
        inst_Metadata := fmupd ''rule_checksum'' (snap_Checksum snapshot)
          (fmupd ''rule_revision'' revision (inst_Metadata i))\<rparr>)"

definition currentInstance :: "Instance \<Rightarrow> Instance" where
  "currentInstance i = cloneInstance i"

definition LocalProvider_List :: "Instance \<Rightarrow> 'e + Instance list" where
  "LocalProvider_List i = Inr [currentInstance i]"

subsection \<open>StellarProvider\<close>

record StellarProvider =
  sp_cfg :: ServiceConfig
  sp_local :: Instance

definition discover_query :: "ServiceConfig \<Rightarrow> StellarQuery" where
  "discover_query cfg =
     \<lparr>sq_Namespace = ic_Namespace (sc_Instance cfg), sq_Service = ic_Service (sc_Instance cfg),
      sq_PassingOnly = True\<rparr>"

definition with_local :: "Instance \<Rightarrow> Instance \<Rightarrow> Instance" where
  "with_local local_inst inst =
     (if inst_InstanceID inst = inst_InstanceID local_inst
      then inst\<lparr>inst_RuleRevision := inst_RuleRevision local_inst,
             inst_Priority := inst_Priority local_inst,
             inst_Weight := inst_Weight local_inst,
             inst_Metadata := mergeMap (inst_Metadata inst) (inst_Metadata local_inst)\<rparr>
      else inst)"

definition StellarProvider_List ::
    "(StellarQuery \<Rightarrow> 'e + StellarInstance list) \<Rightarrow> StellarProvider \<Rightarrow> 'e + Instance list" where
  "StellarProvider_List discover p =
     (case discover (discover_query (sp_cfg p)) of
        Inl err \<Rightarrow> Inl err
      | Inr items \<Rightarrow>
          (let local_inst = currentInstance (sp_local p) in
           Inr (sortInstances (map (\<lambda>item. with_local local_inst (fromStellar item)) items))))"

definition StellarProvider_Update :: "Snapshot \<Rightarrow> StellarProvider \<Rightarrow> StellarProvider" where
  "StellarProvider_Update snapshot p = p\<lparr>sp_local := LocalProvider_Update snapshot (sp_local p)\<rparr>"

subsection \<open>Provider\<close>

text \<open>The interface value that \<open>NewProvider\<close> returns, and its methods by dispatch.\<close>

datatype Provider = Local Instance | Stellar StellarProvider

definition NewProvider :: "bool \<Rightarrow> ServiceConfig \<Rightarrow> Provider" where
  "NewProvider has_registry cfg =
     (let c = sc_Instance cfg;
          local_inst =
            \<lparr>inst_InstanceID = ic_ID c, inst_Host = ic_Host c, inst_Port = ic_Port c,
             inst_Priority = ic_Priority c, inst_Weight = ic_Weight c, inst_Zone = ic_Zone c,
             inst_Version = ic_Version c, inst_RuleRevision = [], inst_State = ''UP'',
             inst_Metadata = fmupd ''source'' ''local'' fmempty\<rparr> in
      if \<not> has_registry then Local local_inst
      else Stellar \<lparr>sp_cfg = cfg, sp_local = local_inst\<rparr>)"

definition Provider_List ::
    "(StellarQuery \<Rightarrow> 'e + StellarInstance list) \<Rightarrow> Provider \<Rightarrow> 'e + Instance list" where
  "Provider_List discover p =
     (case p of Local i \<Rightarrow> LocalProvider_List i | Stellar sp \<Rightarrow> StellarProvider_List discover sp)"

definition Provider_Update :: "Snapshot \<Rightarrow> Provider \<Rightarrow> Provider" where
  "Provider_Update snapshot p =
     (case p of
        Local i \<Rightarrow> Local (LocalProvider_Update snapshot i)
      | Stellar sp \<Rightarrow> Stellar (StellarProvider_Update snapshot sp))"

definition Provider_Start :: "Snapshot \<Rightarrow> Provider \<Rightarrow> Provider" where
  "Provider_Start snapshot p = Provider_Update snapshot p"

definition self_instance :: "Provider \<Rightarrow> Instance" where
  "self_instance p = (case p of Local i \<Rightarrow> i | Stellar sp \<Rightarrow> sp_local sp)"

subsection \<open>The contract of a provider\<close>

lemma cloneMap_id [simp]: "cloneMap m = m"
  by (simp add: cloneMap_def fmmap_same)

lemma cloneInstance_id [simp]: "cloneInstance i = i" "currentInstance i = i"
  by (simp_all add: cloneInstance_def currentInstance_def)

text \<open>
  What the topology and the server rely on: a listing that contains this server's own
  instance shows the revision of the snapshot the provider was last updated with.
\<close>

locale instance_provider =
  fixes list :: "'s \<Rightarrow> 'e + Instance list" and update :: "Snapshot \<Rightarrow> 's \<Rightarrow> 's"
    and self :: "'s \<Rightarrow> string"
  assumes self_update: "self (update snapshot p) = self p"
    and own_revision: "list (update snapshot p) = Inr instances \<Longrightarrow> i \<in> set instances \<Longrightarrow>
      inst_InstanceID i = self p \<Longrightarrow>
      inst_RuleRevision i = FormatInt (snap_Version snapshot) \<and>
      map_value (inst_Metadata i) ''rule_checksum'' = snap_Checksum snapshot"
begin

lemma last_update_wins:
  assumes "list (fold update (snapshots @ [snapshot]) p) = Inr instances" and "i \<in> set instances"
    and "inst_InstanceID i = self p"
  shows "inst_RuleRevision i = FormatInt (snap_Version snapshot)"
proof -
  have "self (fold update snapshots p) = self p"
    by (induction snapshots arbitrary: p) (simp_all add: self_update)
  then show ?thesis using own_revision [of snapshot "fold update snapshots p"] assms by simp
qed

end

lemma with_local_id: "inst_InstanceID (with_local l i) = inst_InstanceID i"
  by (simp add: with_local_def)

interpretation local_provider: instance_provider LocalProvider_List LocalProvider_Update inst_InstanceID
  by unfold_locales (auto simp: LocalProvider_List_def LocalProvider_Update_def Let_def map_value_def)

interpretation stellar_provider: instance_provider "StellarProvider_List discover" StellarProvider_Update
    "\<lambda>p. inst_InstanceID (sp_local p)"
proof unfold_locales
  fix snapshot p
  show "inst_InstanceID (sp_local (StellarProvider_Update snapshot p)) = inst_InstanceID (sp_local p)"
    by (simp add: StellarProvider_Update_def LocalProvider_Update_def Let_def)
next
  fix snapshot p instances i
  assume l: "StellarProvider_List discover (StellarProvider_Update snapshot p) = Inr instances"
    and i: "i \<in> set instances" "inst_InstanceID i = inst_InstanceID (sp_local p)"
  let ?local = "LocalProvider_Update snapshot (sp_local p)"
  obtain item where item: "i = with_local ?local (fromStellar item)"
    using l i(1)
    by (auto simp: StellarProvider_List_def StellarProvider_Update_def sortInstances_def Let_def
        split: sum.splits)
  have "inst_InstanceID (fromStellar item) = inst_InstanceID ?local"
    using i(2) by (simp add: item with_local_id LocalProvider_Update_def Let_def)
  then show "inst_RuleRevision i = FormatInt (snap_Version snapshot) \<and>
      map_value (inst_Metadata i) ''rule_checksum'' = snap_Checksum snapshot"
    by (simp add: item with_local_def LocalProvider_Update_def Let_def mergeMap_def map_value_def)
qed

interpretation provider: instance_provider "Provider_List discover" Provider_Update
    "\<lambda>p. inst_InstanceID (self_instance p)"
  by unfold_locales
    (auto simp: Provider_List_def Provider_Update_def self_instance_def local_provider.self_update
      stellar_provider.self_update split: Provider.splits
      dest: local_provider.own_revision stellar_provider.own_revision)

end
