(* ===== verification/SHA256.thy ===== *)
theory SHA256
  imports Prelude
begin

text \<open>
  \<open>crypto/sha256\<close> and \<open>encoding/hex\<close>: the hash of FIPS 180-4 on byte strings, by which the
  topology names its revision and places quota shards.
\<close>

unbundle bit_operations_syntax

text \<open>The round constants and the initial state of the standard, in decimal.\<close>

definition sha_primes_k :: "int32 list" where
  "sha_primes_k =
    [1116352408, 1899447441, 3049323471, 3921009573, 961987163, 1508970993, 2453635748, 2870763221,
     3624381080, 310598401, 607225278, 1426881987, 1925078388, 2162078206, 2614888103, 3248222580,
     3835390401, 4022224774, 264347078, 604807628, 770255983, 1249150122, 1555081692, 1996064986,
     2554220882, 2821834349, 2952996808, 3210313671, 3336571891, 3584528711, 113926993, 338241895,
     666307205, 773529912, 1294757372, 1396182291, 1695183700, 1986661051, 2177026350, 2456956037,
     2730485921, 2820302411, 3259730800, 3345764771, 3516065817, 3600352804, 4094571909, 275423344,
     430227734, 506948616, 659060556, 883997877, 958139571, 1322822218, 1537002063, 1747873779,
     1955562222, 2024104815, 2227730452, 2361852424, 2428436474, 2756734187, 3204031479, 3329325298]"

definition sha_init :: "int32 list" where
  "sha_init =
    [1779033703, 3144134277, 1013904242, 2773480762, 1359893119, 2600822924, 528734635, 1541459225]"

definition sha_big_endian :: "8 word list \<Rightarrow> int32" where
  "sha_big_endian bs = fold (\<lambda>b w. push_bit 8 w OR ucast b) bs 0"

text \<open>The message schedule, latest word first.\<close>

fun sha_schedule :: "nat \<Rightarrow> int32 list \<Rightarrow> int32 list" where
  "sha_schedule 0 ws = ws"
| "sha_schedule (Suc n) ws =
     (let a = ws ! 14; b = ws ! 1;
          s0 = word_rotr 7 a XOR word_rotr 18 a XOR drop_bit 3 a;
          s1 = word_rotr 17 b XOR word_rotr 19 b XOR drop_bit 10 b in
      sha_schedule n ((ws ! 15 + s0 + ws ! 6 + s1) # ws))"

definition sha_round :: "int32 \<times> int32 \<Rightarrow> int32 list \<Rightarrow> int32 list" where
  "sha_round kw hs =
     (let a = hs ! 0; b = hs ! 1; c = hs ! 2; d = hs ! 3;
          e = hs ! 4; f = hs ! 5; g = hs ! 6; h = hs ! 7;
          s1 = word_rotr 6 e XOR word_rotr 11 e XOR word_rotr 25 e;
          ch = (e AND f) XOR (NOT e AND g);
          t1 = h + s1 + ch + fst kw + snd kw;
          s0 = word_rotr 2 a XOR word_rotr 13 a XOR word_rotr 22 a;
          maj = (a AND b) XOR (a AND c) XOR (b AND c);
          t2 = s0 + maj in
      [t1 + t2, a, b, c, d + t1, e, f, g])"

fun sha_words :: "8 word list \<Rightarrow> int32 list" where
  "sha_words (a # b # c # d # bs) = sha_big_endian [a, b, c, d] # sha_words bs"
| "sha_words _ = []"

definition sha_block :: "int32 list \<Rightarrow> 8 word list \<Rightarrow> int32 list" where
  "sha_block hs block =
     map2 (+) hs (fold sha_round (zip sha_primes_k (rev (sha_schedule 48 (rev (sha_words block))))) hs)"

function sha_blocks :: "int32 list \<Rightarrow> 8 word list \<Rightarrow> int32 list" where
  "sha_blocks hs bs =
     (if bs = [] then hs else sha_blocks (sha_block hs (take 64 bs)) (drop 64 bs))"
  by pat_completeness auto

termination by (relation "measure (\<lambda>(hs, bs). length bs)") auto

declare sha_blocks.simps [simp del]

definition sha_pad :: "8 word list \<Rightarrow> 8 word list" where
  "sha_pad bs =
     bs @ [0x80] @ replicate ((119 - length bs mod 64) mod 64) 0 @
     map (\<lambda>i. word_of_nat (length bs * 8 div 256 ^ (7 - i))) [0 ..< 8]"

text \<open>\<open>sha256.Sum256\<close>: the 32 bytes of the digest.\<close>

definition Sum256 :: "string \<Rightarrow> 8 word list" where
  "Sum256 s =
     concat (map (\<lambda>w. map (\<lambda>i. ucast (drop_bit (8 * (3 - i)) w)) [0 ..< 4])
       (sha_blocks sha_init (sha_pad (map (\<lambda>c. word_of_nat (of_char c)) s))))"

definition hex_digit :: "nat \<Rightarrow> char" where
  "hex_digit d = ''0123456789abcdef'' ! d"

definition EncodeToString :: "8 word list \<Rightarrow> string" where
  "EncodeToString bs = concat (map (\<lambda>b. [hex_digit (unat b div 16), hex_digit (unat b mod 16)]) bs)"

lemma EncodeToString_length: "length (EncodeToString bs) = 2 * length bs"
  by (induction bs) (simp_all add: EncodeToString_def)

lemma sha_rounds_length: "length hs = 8 \<Longrightarrow> length (fold sha_round kws hs) = 8"
  by (induction kws arbitrary: hs) (simp_all add: sha_round_def Let_def)

lemma sha_blocks_length: "length hs = 8 \<Longrightarrow> length (sha_blocks hs bs) = 8"
proof (induction hs bs rule: sha_blocks.induct)
  case (1 hs bs)
  have "length (sha_block hs (take 64 bs)) = 8" using "1.prems" by (simp add: sha_block_def sha_rounds_length)
  then show ?case using "1.IH" "1.prems" by (subst sha_blocks.simps) simp
qed

lemma Sum256_length: "length (Sum256 s) = 32"
proof -
  have "length (concat (map (\<lambda>w. map (\<lambda>i. ucast (drop_bit (8 * (3 - i)) w) :: 8 word) [0 ..< 4]) ws)) =
      4 * length ws" for ws :: "int32 list"
    by (induction ws) simp_all
  then show ?thesis by (simp add: Sum256_def sha_blocks_length sha_init_def)
qed

end
