(* ===== verification/JsonGo.thy ===== *)
theory JsonGo
  imports Json Complex_Main "HOL-Library.Log_Nat"
begin

text \<open>
  What \<open>json.Unmarshal\<close> of a decoded value into a Go type gives: \<open>None\<close> for an error,
  \<open>Some\<close> for the value. JSON \<open>null\<close> leaves a fresh variable at its zero value without an
  error. A \<open>float64\<close> is its exact rational value: \<open>parse_float\<close> rounds a literal to the
  nearest representable number, ties to even, as \<open>strconv.ParseFloat\<close> does.
\<close>

subsection \<open>float64\<close>

definition pow2 :: "int \<Rightarrow> rat" where
  "pow2 e = (if 0 \<le> e then 2 ^ nat e else 1 / 2 ^ nat (- e))"

definition pow10 :: "int \<Rightarrow> rat" where
  "pow10 e = (if 0 \<le> e then 10 ^ nat e else 1 / 10 ^ nat (- e))"

definition round_half_even :: "rat \<Rightarrow> int" where
  "round_half_even x =
     (let n = \<lfloor>x\<rfloor>; r = x - of_int n in
      if r < 1 / 2 then n else if 1 / 2 < r then n + 1 else if even n then n else n + 1)"

text \<open>The exponent \<open>e\<close> with \<open>2 ^ e \<le> x < 2 ^ (e + 1)\<close>, for a positive rational.\<close>

definition exponent2 :: "rat \<Rightarrow> int" where
  "exponent2 x =
     (case quotient_of x of (p, q) \<Rightarrow>
        (let e = bitlen p - bitlen q in if x < pow2 e then e - 1 else e))"

definition round_float_pos :: "rat \<Rightarrow> rat option" where
  "round_float_pos x =
     (let u = pow2 (max (exponent2 x) (- 1022) - 52);
          y = of_int (round_half_even (x / u)) * u in
      if pow2 1024 \<le> y then None else Some y)"

definition round_float :: "rat \<Rightarrow> rat option" where
  "round_float x =
     (if x = 0 then Some 0
      else if 0 < x then round_float_pos x else map_option uminus (round_float_pos (- x)))"

definition digits_value :: "string \<Rightarrow> nat" where
  "digits_value s = fold (\<lambda>c n. n * 10 + digit_val c) s 0"

definition exp_value :: "string \<Rightarrow> int" where
  "exp_value s =
     (case s of
        [] \<Rightarrow> 0
      | _ # r \<Rightarrow> (case exp_sign r of (sg, t) \<Rightarrow>
          (if sg = ''-'' then - int (digits_value t) else int (digits_value t))))"

text \<open>The exact value of a number literal of the JSON grammar.\<close>

definition literal_value :: "string \<Rightarrow> rat" where
  "literal_value l =
     (case minus_part l of (m, s1) \<Rightarrow>
        (let i = digits_of s1; s2 = after_digits s1;
             f = (case s2 of c # r \<Rightarrow> (if c = CHR ''.'' then digits_of r else []) | [] \<Rightarrow> []);
             s3 = (case s2 of c # r \<Rightarrow> (if c = CHR ''.'' then after_digits r else s2) | [] \<Rightarrow> []);
             x = of_nat (digits_value (i @ f)) * pow10 (exp_value s3 - int (length f)) in
         if m = [] then x else - x))"

definition parse_float :: "string \<Rightarrow> rat option" where
  "parse_float l = round_float (literal_value l)"

text \<open>
  \<open>int64(f)\<close> truncates towards zero; out of range it is the smallest \<open>int64\<close>, which is what
  the amd64 builds of the release compute.
\<close>

definition int64_of_float :: "rat \<Rightarrow> int64" where
  "int64_of_float f =
     (let n = (if 0 \<le> f then \<lfloor>f\<rfloor> else - \<lfloor>- f\<rfloor>) in
      if - (2 ^ 63) \<le> n \<and> n < 2 ^ 63 then word_of_int n else word_of_int (- (2 ^ 63)))"

subsection \<open>json.Unmarshal into Go types\<close>

definition unmarshal_string :: "json \<Rightarrow> string option" where
  "unmarshal_string j =
     (case j of JNull \<Rightarrow> Some [] | JString s \<Rightarrow> Some s | _ \<Rightarrow> None)"

definition valid_number :: "string \<Rightarrow> bool" where
  "valid_number s = (case json_number s of Some (_, r) \<Rightarrow> r = [] | None \<Rightarrow> False)"

definition unmarshal_number :: "json \<Rightarrow> string option" where
  "unmarshal_number j =
     (case j of
        JNull \<Rightarrow> Some [] | JNumber l \<Rightarrow> Some l
      | JString s \<Rightarrow> (if valid_number s then Some s else None) | _ \<Rightarrow> None)"

definition unmarshal_int64 :: "json \<Rightarrow> int64 option" where
  "unmarshal_int64 j =
     (case j of
        JNull \<Rightarrow> Some 0
      | JNumber l \<Rightarrow> (case ParseInt l of (v, None) \<Rightarrow> Some v | (_, Some _) \<Rightarrow> None)
      | _ \<Rightarrow> None)"

definition unmarshal_float64 :: "json \<Rightarrow> rat option" where
  "unmarshal_float64 j =
     (case j of JNull \<Rightarrow> Some 0 | JNumber l \<Rightarrow> parse_float l | _ \<Rightarrow> None)"

text \<open>Into \<open>[]string\<close>: \<open>None\<close> inside for the nil slice that \<open>null\<close> leaves.\<close>

definition unmarshal_strings :: "json \<Rightarrow> string list option option" where
  "unmarshal_strings j =
     (case j of
        JNull \<Rightarrow> Some None
      | JArray vs \<Rightarrow>
          (if list_all (\<lambda>v. unmarshal_string v \<noteq> None) vs
           then Some (Some (map (\<lambda>v. case unmarshal_string v of Some s \<Rightarrow> s | None \<Rightarrow> []) vs))
           else None)
      | _ \<Rightarrow> None)"

text \<open>Into \<open>map[string]string\<close>, again with \<open>None\<close> inside for the nil map.\<close>

definition unmarshal_string_map :: "json \<Rightarrow> (string, string) fmap option option" where
  "unmarshal_string_map j =
     (case j of
        JNull \<Rightarrow> Some None
      | JObject ms \<Rightarrow>
          (if list_all (\<lambda>(k, v). unmarshal_string v \<noteq> None) ms
           then Some (Some (fold (\<lambda>(k, v) m.
                  fmupd k (case unmarshal_string v of Some s \<Rightarrow> s | None \<Rightarrow> []) m) ms fmempty))
           else None)
      | _ \<Rightarrow> None)"

subsection \<open>fmt.Sprint of a value decoded into any\<close>

text \<open>
  A decoded number is a \<open>float64\<close>; one beyond its range makes the whole decoding fail.
\<close>

fun floats_ok :: "json \<Rightarrow> bool" where
  "floats_ok (JNumber l) = (parse_float l \<noteq> None)"
| "floats_ok (JArray vs) = list_all floats_ok vs"
| "floats_ok (JObject ms) = list_all (\<lambda>m. floats_ok (snd m)) ms"
| "floats_ok _ = True"

text \<open>
  \<open>%v\<close> of a \<open>float64\<close>: the fewest decimal digits that read back as the same number, as
  \<open>%e\<close> when the decimal exponent is below -4 or above 5.
\<close>

definition exponent10 :: "rat \<Rightarrow> int" where
  "exponent10 x =
     (let e = (exponent2 x * 1233) div 4096 in
      if pow10 (e + 1) \<le> x then e + 1 else if x < pow10 e then e - 1 else e)"

definition decimal_candidate :: "rat \<Rightarrow> nat \<Rightarrow> nat \<times> int" where
  "decimal_candidate x k =
     (let e = exponent10 x - int k + 1 in (nat (round_half_even (x / pow10 e)), e))"

fun shortest_from :: "nat \<Rightarrow> rat \<Rightarrow> nat \<Rightarrow> nat \<times> int" where
  "shortest_from 0 x k = decimal_candidate x k"
| "shortest_from (Suc n) x k =
     (case decimal_candidate x k of (d, e) \<Rightarrow>
        (if round_float (of_nat d * pow10 e) = Some x then (d, e) else shortest_from n x (Suc k)))"

definition strip_zeros :: "string \<Rightarrow> string" where
  "strip_zeros s = rev (dropWhile (\<lambda>c. c = CHR ''0'') (rev s))"

definition exp_suffix :: "int \<Rightarrow> string" where
  "exp_suffix x =
     (let d = dec_digits (nat \<bar>x\<bar>) in
      CHR ''e'' # (if x < 0 then CHR ''-'' else CHR ''+'') # (if length d < 2 then CHR ''0'' # d else d))"

definition format_float_pos :: "rat \<Rightarrow> string" where
  "format_float_pos x =
     (case shortest_from 16 x 1 of (d, e) \<Rightarrow>
        (let all = dec_digits d; ds = strip_zeros all; dp = int (length all) + e in
         if dp - 1 < - 4 \<or> 6 \<le> dp - 1 then
           (case ds of
              [] \<Rightarrow> []
            | c # r \<Rightarrow> (if r = [] then [c] else c # CHR ''.'' # r) @ exp_suffix (dp - 1))
         else if dp \<le> 0 then ''0.'' @ replicate (nat (- dp)) (CHR ''0'') @ ds
         else if int (length ds) \<le> dp then ds @ replicate (nat (dp - int (length ds))) (CHR ''0'')
         else take (nat dp) ds @ CHR ''.'' # drop (nat dp) ds))"

definition format_float :: "string \<Rightarrow> string" where
  "format_float l =
     (case parse_float l of
        None \<Rightarrow> []
      | Some x \<Rightarrow>
          (if x = 0 then (if HasPrefix l ''-'' then ''-0'' else ''0'')
           else if 0 < x then format_float_pos x else CHR ''-'' # format_float_pos (- x)))"

fun join_spaces :: "string list \<Rightarrow> string" where
  "join_spaces [] = []"
| "join_spaces [s] = s"
| "join_spaces (s # t # ss) = s @ CHR '' '' # join_spaces (t # ss)"

fun go_sprint :: "json \<Rightarrow> string" where
  "go_sprint JNull = ''<nil>''"
| "go_sprint (JBool b) = (if b then ''true'' else ''false'')"
| "go_sprint (JNumber l) = format_float l"
| "go_sprint (JString s) = s"
| "go_sprint (JArray vs) = ''['' @ join_spaces (map go_sprint vs) @ '']''"
| "go_sprint (JObject ms) =
     (let kvs = map (\<lambda>m. (fst m, go_sprint (snd m))) ms in
      ''map['' @ join_spaces (map (\<lambda>k. k @ CHR '':'' #
          (case map_of (rev kvs) k of None \<Rightarrow> [] | Some v \<Rightarrow> v)) (sort (remdups (map fst kvs))))
        @ '']'')"

text \<open>Into \<open>map[string]any\<close>, each value printed.\<close>

definition unmarshal_any_map :: "json \<Rightarrow> (string, string) fmap option" where
  "unmarshal_any_map j =
     (case j of
        JNull \<Rightarrow> Some fmempty
      | JObject ms \<Rightarrow>
          (if list_all (\<lambda>m. floats_ok (snd m)) ms
           then Some (fold (\<lambda>(k, v) m. fmupd k (go_sprint v) m) ms fmempty) else None)
      | _ \<Rightarrow> None)"

end
