(* ===== verification/GoFloat.thy ===== *)
theory GoFloat
  imports JsonGo
begin

text \<open>
  \<open>float64\<close> arithmetic on the rational values of JsonGo: the exact result rounded once. An
  overflow is the value \<open>2 ^ 1024\<close>, which compares above every finite one as \<open>+Inf\<close> does.
\<close>

definition fl :: "rat \<Rightarrow> rat" where
  "fl x = (case round_float x of Some y \<Rightarrow> y | None \<Rightarrow> if 0 < x then pow2 1024 else - pow2 1024)"

text \<open>\<open>math.Nextafter(1, 0)\<close>\<close>

definition below_one :: rat where "below_one = 1 - 1 / 2 ^ 53"

lemma pow2_pos [simp]: "0 < pow2 e"
  by (simp add: pow2_def)

lemma pow2_add: "pow2 (a + b) = pow2 a * pow2 b"
proof -
  have nonneg: "pow2 (int m + b) = 2 ^ m * pow2 b" for m b
  proof (cases "0 \<le> b")
    case True
    then show ?thesis by (simp add: pow2_def nat_add_distrib power_add)
  next
    case False
    define n where "n = nat (- b)"
    have b: "b = - int n" "0 < n" using False by (simp_all add: n_def)
    show ?thesis
    proof (cases "n \<le> m")
      case True
      then have "(2 :: rat) ^ m = 2 ^ (m - n) * 2 ^ n" by (simp flip: power_add)
      then show ?thesis using True b by (simp add: pow2_def nat_diff_distrib)
    next
      case False
      then have "(2 :: rat) ^ n = 2 ^ (n - m) * 2 ^ m" by (simp flip: power_add)
      then show ?thesis using False b by (simp add: pow2_def nat_diff_distrib)
    qed
  qed
  show ?thesis
  proof (cases "0 \<le> a")
    case True
    then show ?thesis using nonneg [of "nat a" b] by (simp add: pow2_def)
  next
    case False
    have "pow2 (int (nat (- a)) + (a + b)) = 2 ^ nat (- a) * pow2 (a + b)" by (rule nonneg)
    then have "pow2 b = 2 ^ nat (- a) * pow2 (a + b)" using False by simp
    then show ?thesis using False by (simp add: pow2_def)
  qed
qed

lemma pow2_nat: "0 \<le> e \<Longrightarrow> pow2 e = 2 ^ nat e"
  by (simp add: pow2_def)

lemma exponent2_le:
  assumes "0 < x"
  shows "pow2 (exponent2 x) \<le> x"
proof -
  obtain p q where pq: "quotient_of x = (p, q)" by fastforce
  have q: "0 < q" and x: "x = of_int p / of_int q"
    using pq by (auto intro: quotient_of_denom_pos quotient_of_div)
  have p: "0 < p" using assms q x by (simp add: zero_less_divide_iff)
  define m n where "m = bitlen p" and "n = bitlen q"
  have bitlen: "0 < bitlen z" if "0 < z" for z
  proof (rule ccontr)
    assume "\<not> 0 < bitlen z"
    with bitlen_bounds [OF that] that show False by simp
  qed
  have mn: "0 < m" "0 < n" using bitlen p q by (simp_all add: m_def n_def)
  have "2 ^ nat (m - 1) \<le> p" "q < 2 ^ nat n"
    using bitlen_bounds [OF p] bitlen_bounds [OF q] by (simp_all add: m_def n_def)
  then have "(2 :: rat) ^ nat (m - 1) \<le> of_int p" "(of_int q :: rat) \<le> 2 ^ nat n"
    by (metis of_int_le_iff of_int_numeral of_int_power, metis less_imp_le of_int_le_iff of_int_numeral of_int_power)
  then have low: "pow2 (m - 1) \<le> of_int p" "of_int q \<le> pow2 n"
    using mn by (simp_all add: pow2_nat)
  have "pow2 (m - n - 1) * of_int q \<le> pow2 (m - n - 1) * pow2 n" using low(2) by simp
  also have "\<dots> = pow2 (m - 1)" by (simp flip: pow2_add)
  also have "\<dots> \<le> of_int p" by (rule low(1))
  finally have "pow2 (m - n - 1) \<le> x" using q by (simp add: x pos_le_divide_eq)
  then show ?thesis by (auto simp: exponent2_def pq m_def n_def Let_def)
qed

lemma round_half_even_ge: "1 \<le> y \<Longrightarrow> 1 \<le> round_half_even y"
  by (simp add: round_half_even_def Let_def)

lemma round_half_even_nonneg: "0 \<le> y \<Longrightarrow> 0 \<le> round_half_even y"
  by (simp add: round_half_even_def Let_def)

lemma fl_nonneg:
  assumes "0 \<le> x"
  shows "0 \<le> fl x"
proof (cases "x = 0")
  case False
  let ?u = "pow2 (max (exponent2 x) (- 1022) - 52)"
  have "0 \<le> x / ?u" using assms by (simp add: less_imp_le)
  then have "0 \<le> (of_int (round_half_even (x / ?u)) :: rat)" using round_half_even_nonneg by simp
  then show ?thesis
    using False assms by (simp add: fl_def round_float_def round_float_pos_def Let_def less_imp_le)
qed (simp add: fl_def round_float_def)

lemma fl_le:
  assumes "0 \<le> x"
  shows "fl x \<le> pow2 1024"
  using assms by (auto simp: fl_def round_float_def round_float_pos_def Let_def not_le less_imp_le)

text \<open>A value of normal magnitude is not rounded to zero.\<close>

lemma fl_pos:
  assumes "pow2 (- 1022) \<le> x"
  shows "0 < fl x"
proof -
  have x: "0 < x" using assms pow2_pos [of "- 1022"] by linarith
  define e where "e = max (exponent2 x) (- 1022)"
  have "pow2 e \<le> x" using exponent2_le [OF x] assms by (simp add: e_def max_def)
  moreover have "pow2 (e - 52) * 1 \<le> pow2 (e - 52) * pow2 52"
    by (intro mult_left_mono) (simp_all add: pow2_def)
  then have "pow2 (e - 52) \<le> pow2 e" by (simp flip: pow2_add)
  ultimately have "1 \<le> x / pow2 (e - 52)" by (simp add: pos_le_divide_eq)
  then have "1 \<le> round_half_even (x / pow2 (e - 52))" by (rule round_half_even_ge)
  then have "0 < (of_int (round_half_even (x / pow2 (e - 52))) :: rat)" by simp
  then have "0 < of_int (round_half_even (x / pow2 (e - 52))) * pow2 (e - 52)" by simp
  then show ?thesis
    using x by (auto simp: fl_def round_float_def round_float_pos_def Let_def e_def)
qed

text \<open>Rounding loses at most half of a value of normal magnitude.\<close>

lemma round_half_even_low: "y - 1 / 2 \<le> of_int (round_half_even y)"
  by (auto simp: round_half_even_def Let_def) linarith+

lemma fl_half:
  assumes "pow2 (- 1022) \<le> x" and "x \<le> 2 * pow2 1024"
  shows "x / 2 \<le> fl x"
proof -
  have x: "0 < x" using assms pow2_pos [of "- 1022"] by linarith
  define e where "e = max (exponent2 x) (- 1022)"
  define u where "u = pow2 (e - 52)"
  have u: "0 < u" by (simp add: u_def)
  have "pow2 e \<le> x" using exponent2_le [OF x] assms by (simp add: e_def max_def)
  moreover have "pow2 (e - 52) * 1 \<le> pow2 (e - 52) * pow2 52"
    by (intro mult_left_mono) (simp_all add: pow2_def)
  then have "u \<le> pow2 e" by (simp add: u_def flip: pow2_add)
  ultimately have "u \<le> x" by simp
  have "(x / u - 1 / 2) * u \<le> of_int (round_half_even (x / u)) * u"
    using round_half_even_low [of "x / u"] u by (intro mult_right_mono) simp_all
  then have "x - u / 2 \<le> of_int (round_half_even (x / u)) * u" using u by (simp add: left_diff_distrib)
  with \<open>u \<le> x\<close> have low: "x / 2 \<le> of_int (round_half_even (x / u)) * u" by simp
  have eq: "fl x = (if pow2 1024 \<le> of_int (round_half_even (x / u)) * u then pow2 1024
      else of_int (round_half_even (x / u)) * u)"
    using x by (simp add: fl_def round_float_def round_float_pos_def Let_def u_def e_def)
  have "x / 2 \<le> pow2 1024" using assms(2) x by simp
  with low show ?thesis by (simp add: eq)
qed

end
