(* ===== verification/Topology.thy ===== *)
theory Topology
  imports Registry SHA256 GoFloat
begin

text \<open>
  \<open>internal/topology/topology.go\<close> without its manager: the normalised instance list, the
  revision that names it, and the rendezvous hash that picks the owner of a quota shard.
  \<open>math.Log\<close> is an argument, \<open>mlog\<close>; the proofs use of it only that the logarithm of a number
  strictly between 0 and 1 is negative (\<open>log_negative\<close>). The other float operations are
  rounded as in GoFloat.
\<close>

record Topology =
  top_Namespace :: string
  top_Service :: string
  top_Revision :: string
  top_HashAlgorithm :: string
  top_Instances :: "Instance list"

definition zero_Topology :: Topology where
  "zero_Topology =
     \<lparr>top_Namespace = [], top_Service = [], top_Revision = [], top_HashAlgorithm = [],
      top_Instances = []\<rparr>"

definition HashAlgorithmRendezvousV1 :: string where
  "HashAlgorithmRendezvousV1 = ''rendezvous_hash_v1''"

definition cloneInstances :: "Instance list \<Rightarrow> Instance list" where
  "cloneInstances instances = map cloneInstance instances"

definition Topology_Clone :: "Topology \<Rightarrow> Topology" where
  "Topology_Clone t = t\<lparr>top_Instances := cloneInstances (top_Instances t)\<rparr>"

subsection \<open>Normalisation\<close>

definition normalizeState :: "string \<Rightarrow> string" where
  "normalizeState state0 =
     (let state = ToUpper (TrimSpace state0) in if state = [] then ''UP'' else state)"

definition normalizeInstance :: "Instance \<Rightarrow> Instance option" where
  "normalizeInstance inst0 =
     (let inst = inst0\<lparr>inst_InstanceID := TrimSpace (inst_InstanceID inst0),
            inst_Host := TrimSpace (inst_Host inst0),
            inst_Zone := TrimSpace (inst_Zone inst0),
            inst_Version := TrimSpace (inst_Version inst0),
            inst_State := normalizeState (inst_State inst0)\<rparr> in
      if inst_InstanceID inst = [] \<or> inst_Host inst = [] \<or> inst_Port inst \<le>s 0 then None
      else if inst_State inst \<notin> {''UP'', ''DRAINING'', ''MIGRATING''} then None
      else
        (let inst = (if inst_Priority inst = 0 then inst\<lparr>inst_Priority := 100\<rparr> else inst);
             inst = (if inst_Weight inst \<le>s 0 then inst\<lparr>inst_Weight := 100\<rparr> else inst) in
         Some (inst\<lparr>inst_Metadata := cloneMap (inst_Metadata inst)\<rparr>)))"

definition topology_less :: "Instance \<Rightarrow> Instance \<Rightarrow> bool" where
  "topology_less left right =
     (if inst_Priority left \<noteq> inst_Priority right then inst_Priority left <s inst_Priority right
      else if inst_Weight left \<noteq> inst_Weight right then inst_Weight right <s inst_Weight left
      else if inst_InstanceID left \<noteq> inst_InstanceID right
      then inst_InstanceID left < inst_InstanceID right
      else Sprintf_host_port (inst_Host left) (inst_Port left) <
           Sprintf_host_port (inst_Host right) (inst_Port right))"

definition topology_sortInstances :: "Instance list \<Rightarrow> Instance list" where
  "topology_sortInstances instances = SliceStable topology_less instances"

subsection \<open>Build\<close>

definition format_int32 :: "int32 \<Rightarrow> string" where
  "format_int32 i = format_int (sint i)"

definition newline :: string where "newline = [CHR 0x0A]"

definition instance_line :: "Instance \<Rightarrow> string" where
  "instance_line i =
     inst_InstanceID i @ ''|'' @ inst_State i @ ''|'' @ format_int32 (inst_Priority i) @ ''|'' @
     format_int32 (inst_Weight i) @ ''|'' @ inst_Zone i @ ''|'' @ inst_Host i @ ''|'' @
     format_int32 (inst_Port i) @ ''|'' @ inst_Version i @ newline"

definition revision_text :: "string \<Rightarrow> string \<Rightarrow> Instance list \<Rightarrow> string" where
  "revision_text namespace service instances =
     TrimSpace namespace @ ''/'' @ TrimSpace service @ newline @ concat (map instance_line instances)"

definition revision :: "string \<Rightarrow> string \<Rightarrow> Instance list \<Rightarrow> string" where
  "revision namespace service instances =
     take 16 (EncodeToString (Sum256 (revision_text namespace service instances)))"

definition Build :: "string \<Rightarrow> string \<Rightarrow> Instance list \<Rightarrow> Topology" where
  "Build namespace service instances =
     (let filtered = topology_sortInstances (List.map_filter normalizeInstance instances) in
      \<lparr>top_Namespace = TrimSpace namespace, top_Service = TrimSpace service,
       top_Revision = revision namespace service filtered,
       top_HashAlgorithm = HashAlgorithmRendezvousV1,
       top_Instances = cloneInstances filtered\<rparr>)"

subsection \<open>Shards and owners\<close>

definition ShardKey :: "string \<Rightarrow> string \<Rightarrow> string \<Rightarrow> string" where
  "ShardKey applicationCode ruleID quotaKey =
     TrimSpace applicationCode @ '':'' @ TrimSpace ruleID @ '':'' @ TrimSpace quotaKey"

definition ShardHash :: "string \<Rightarrow> string \<Rightarrow> string" where
  "ShardHash rv shardKey =
     take 16 (EncodeToString (Sum256 (TrimSpace rv @ newline @ TrimSpace shardKey)))"

definition big_endian_uint64 :: "8 word list \<Rightarrow> nat" where
  "big_endian_uint64 bs = fold (\<lambda>b n. n * 256 + unat b) bs 0"

definition hash_unit :: "nat \<Rightarrow> rat" where
  "hash_unit value =
     (let unit = fl (fl (fl (of_nat value) + 1) / 2 ^ 64) in if 1 \<le> unit then below_one else unit)"

definition weightedScore :: "(rat \<Rightarrow> rat) \<Rightarrow> string \<Rightarrow> string \<Rightarrow> Instance \<Rightarrow> rat" where
  "weightedScore mlog rv shardKey inst =
     (let digest = Sum256 (TrimSpace rv @ newline @ TrimSpace shardKey @ newline @ inst_InstanceID inst);
          unit = hash_unit (big_endian_uint64 (take 8 digest));
          weight0 = of_int (sint (inst_Weight inst));
          weight = (if weight0 \<le> 0 then 100 else weight0) in
      fl (weight / - mlog unit))"

definition owner_step ::
    "(rat \<Rightarrow> rat) \<Rightarrow> string \<Rightarrow> string \<Rightarrow> Instance \<Rightarrow> rat \<times> Instance \<Rightarrow> rat \<times> Instance" where
  "owner_step mlog rv shardKey inst best =
     (if inst_State inst \<noteq> ''UP'' then best
      else
        (let score = weightedScore mlog rv shardKey inst in
         if fst best < score \<or>
            (score = fst best \<and> inst_InstanceID inst < inst_InstanceID (snd best))
         then (score, inst) else best))"

definition Topology_OwnerOf :: "(rat \<Rightarrow> rat) \<Rightarrow> Topology \<Rightarrow> string \<Rightarrow> Instance \<times> bool" where
  "Topology_OwnerOf mlog t shardKey0 =
     (let shardKey = TrimSpace shardKey0 in
      if shardKey = [] \<or> top_Revision t = [] then (zero_Instance, False)
      else case fold (owner_step mlog (top_Revision t) shardKey) (top_Instances t) (- 1, zero_Instance) of
        (bestScore, owner) \<Rightarrow>
          (if bestScore < 0 then (zero_Instance, False) else (cloneInstance owner, True)))"

definition log_negative :: "(rat \<Rightarrow> rat) \<Rightarrow> bool" where
  "log_negative mlog \<longleftrightarrow> (\<forall>u. 0 < u \<longrightarrow> u < 1 \<longrightarrow> mlog u < 0)"

end
