(* ===== verification/TopologyMetrics.thy ===== *)
theory TopologyMetrics
  imports Topology
begin

text \<open>
  \<open>internal/topology/metrics.go\<close>: what each recording method writes to which instrument, as a
  list of measurements in the order of the calls. A nil \<open>*Metrics\<close> records nothing. The
  instruments themselves belong to the meter of OpenTelemetry.
\<close>

datatype attribute = String string string | Bool string bool

datatype measured = Int64 int64 | Float64 rat

record measurement =
  m_instrument :: string
  m_value :: measured
  m_attributes :: "attribute list"

record Metrics =
  metrics_baseAttributes :: "attribute list"

definition NewMetrics :: "string \<Rightarrow> string \<Rightarrow> string \<Rightarrow> Metrics" where
  "NewMetrics namespace service instanceID =
     \<lparr>metrics_baseAttributes =
        [String ''stellpulsar.namespace'' (TrimSpace namespace),
         String ''stellpulsar.service'' (TrimSpace service),
         String ''stellpulsar.instance_id'' (TrimSpace instanceID)]\<rparr>"

definition normalizeAttribute :: "string \<Rightarrow> string" where
  "normalizeAttribute value0 =
     (let value = TrimSpace value0 in if value = [] then ''unknown'' else value)"

definition attributes :: "Metrics \<Rightarrow> attribute list \<Rightarrow> attribute list" where
  "attributes m extra = metrics_baseAttributes m @ extra"

text \<open>\<open>Duration.Seconds\<close>\<close>

definition Seconds :: "duration \<Rightarrow> rat" where
  "Seconds d =
     (let sec = sint d sdiv 1000000000; nsec = sint d smod 1000000000 in
      fl (of_int sec + fl (of_int nsec / 1000000000)))"

definition recordCacheState :: "Metrics \<Rightarrow> duration \<Rightarrow> bool \<Rightarrow> measurement list" where
  "recordCacheState m age0 stale =
     (let age = (if age0 <s 0 then 0 else age0) in
      [\<lparr>m_instrument = ''stellpulsar.topology.cache.age'', m_value = Float64 (Seconds age),
        m_attributes = metrics_baseAttributes m\<rparr>,
       \<lparr>m_instrument = ''stellpulsar.topology.cache.stale'',
        m_value = Int64 (if stale then 1 else 0), m_attributes = metrics_baseAttributes m\<rparr>])"

definition count_state :: "Instance \<Rightarrow> (string, int64) fmap \<Rightarrow> (string, int64) fmap" where
  "count_state inst counts =
     (let state0 = normalizeAttribute (inst_State inst);
          state = (if state0 = [] then ''UP'' else state0);
          n = (case fmlookup counts state of None \<Rightarrow> 0 | Some n \<Rightarrow> n) in
      fmupd state (n + 1) counts)"

definition recordInstances ::
    "(string fset \<Rightarrow> string list) \<Rightarrow> Metrics \<Rightarrow> Topology \<Rightarrow> measurement list" where
  "recordInstances ord m t =
     (let initial = fmap_of_list
            [(''TOTAL'', word_of_nat (length (top_Instances t))), (''UP'', 0), (''DRAINING'', 0),
             (''MIGRATING'', 0)];
          counts = fold count_state (top_Instances t) initial in
      map (\<lambda>state. \<lparr>m_instrument = ''stellpulsar.topology.instance.count'',
             m_value = Int64 (case fmlookup counts state of None \<Rightarrow> 0 | Some n \<Rightarrow> n),
             m_attributes = attributes m [String ''state'' state]\<rparr>)
        (ord (fmdom counts)))"

definition RecordCacheAccess ::
    "Metrics option \<Rightarrow> string \<Rightarrow> duration \<Rightarrow> bool \<Rightarrow> measurement list" where
  "RecordCacheAccess metrics result age stale =
     (case metrics of
        None \<Rightarrow> []
      | Some m \<Rightarrow>
          \<lparr>m_instrument = ''stellpulsar.topology.cache.access.count'', m_value = Int64 1,
           m_attributes = attributes m [String ''result'' (normalizeAttribute result)]\<rparr> #
          recordCacheState m age stale)"

definition RecordRefresh ::
    "(string fset \<Rightarrow> string list) \<Rightarrow> Metrics option \<Rightarrow> string \<Rightarrow> duration \<Rightarrow> Topology \<Rightarrow> duration \<Rightarrow>
     bool \<Rightarrow> measurement list" where
  "RecordRefresh ord metrics result dur topology age stale =
     (case metrics of
        None \<Rightarrow> []
      | Some m \<Rightarrow>
          (let attrs = attributes m [String ''result'' (normalizeAttribute result)] in
           [\<lparr>m_instrument = ''stellpulsar.topology.refresh.count'', m_value = Int64 1, m_attributes = attrs\<rparr>,
            \<lparr>m_instrument = ''stellpulsar.topology.refresh.duration'', m_value = Float64 (Seconds dur),
             m_attributes = attrs\<rparr>] @
           recordCacheState m age stale @
           (if top_Revision topology \<noteq> [] then recordInstances ord m topology else [])))"

definition RecordOwnerLookup ::
    "Metrics option \<Rightarrow> string \<Rightarrow> duration \<Rightarrow> bool \<Rightarrow> measurement list" where
  "RecordOwnerLookup metrics result dur localOwner =
     (case metrics of
        None \<Rightarrow> []
      | Some m \<Rightarrow>
          (let attrs = attributes m
                 [String ''result'' (normalizeAttribute result), Bool ''local_owner'' localOwner] in
           [\<lparr>m_instrument = ''stellpulsar.topology.owner.lookup.count'', m_value = Int64 1,
             m_attributes = attrs\<rparr>,
            \<lparr>m_instrument = ''stellpulsar.topology.owner.lookup.duration'',
             m_value = Float64 (Seconds dur), m_attributes = attrs\<rparr>]))"

definition metrics_RecordOwnerCheck :: "Metrics option \<Rightarrow> string \<Rightarrow> string \<Rightarrow> measurement list" where
  "metrics_RecordOwnerCheck metrics result reason =
     (case metrics of
        None \<Rightarrow> []
      | Some m \<Rightarrow>
          [\<lparr>m_instrument = ''stellpulsar.topology.owner.check.count'', m_value = Int64 1,
            m_attributes = attributes m
              [String ''result'' (normalizeAttribute result),
               String ''reason'' (normalizeAttribute reason)]\<rparr>])"

end
