(* ===== verification/TopologyOwners.thy ===== *)
theory TopologyOwners
  imports Topology
begin

text \<open>
  What the topology guarantees: the owner of a shard is the instance with the best score
  whatever order the instances come in, and the instance list of a topology, its revision
  and with it every owner depend only on which instances were discovered.
\<close>

subsection \<open>Scores\<close>

lemma hash_unit_range: "0 < hash_unit value \<and> hash_unit value < 1"
proof -
  have tiny: "pow2 (- 1022) \<le> (1 :: rat) / 2 ^ 65" by (simp add: pow2_def divide_simps)
  have one: "(1 :: rat) \<le> pow2 1024" by (simp add: pow2_def)
  define y where "y = fl (of_nat value) + 1"
  have y: "1 \<le> y" "y \<le> 2 * pow2 1024"
    using fl_nonneg [of "of_nat value"] fl_le [of "of_nat value"] one by (simp_all add: y_def)
  have "pow2 (- 1022) \<le> y" using y(1) tiny by (simp add: divide_simps)
  from fl_half [OF this y(2)] y(1) have "1 / 2 \<le> fl y" by simp
  then have "1 / 2 / 2 ^ 64 \<le> fl y / 2 ^ 64" by (rule divide_right_mono) simp
  then have "pow2 (- 1022) \<le> fl y / 2 ^ 64" using tiny by simp
  then have "0 < fl (fl y / 2 ^ 64)" by (rule fl_pos)
  then show ?thesis by (simp add: hash_unit_def Let_def y_def below_one_def)
qed

lemma weightedScore_nonneg:
  assumes "log_negative mlog"
  shows "0 \<le> weightedScore mlog rv shardKey inst"
proof -
  have "0 < - mlog (hash_unit v)" for v
    using assms hash_unit_range [of v] by (simp add: log_negative_def)
  then have nn: "0 \<le> fl (w / - mlog (hash_unit v))" if "0 \<le> w" for w v
    using that by (intro fl_nonneg divide_nonneg_pos) auto
  show ?thesis unfolding weightedScore_def Let_def by (rule nn) simp
qed

subsection \<open>The owner\<close>

definition up :: "Instance \<Rightarrow> bool" where
  "up i \<longleftrightarrow> inst_State i = ''UP''"

text \<open>\<open>o\<close> is at least as good an owner as \<open>i\<close>: a higher score, or the same and an id no later.\<close>

definition as_good :: "(Instance \<Rightarrow> rat) \<Rightarrow> Instance \<Rightarrow> Instance \<Rightarrow> bool" where
  "as_good score own i \<longleftrightarrow>
     score i < score own \<or> (score i = score own \<and> inst_InstanceID own \<le> inst_InstanceID i)"

lemma as_good_trans: "as_good score a b \<Longrightarrow> as_good score b c \<Longrightarrow> as_good score a c"
  by (auto simp: as_good_def)

lemma as_good_refl: "as_good score a a"
  by (simp add: as_good_def)

lemma as_good_total: "\<not> as_good score a b \<Longrightarrow> as_good score b a"
  by (auto simp: as_good_def)

lemma as_good_antisym: "as_good score a b \<Longrightarrow> as_good score b a \<Longrightarrow> inst_InstanceID a = inst_InstanceID b"
  by (auto simp: as_good_def)

lemma owner_fold:
  assumes "\<And>i. 0 \<le> weightedScore mlog rv key i"
  shows "case fold (owner_step mlog rv key) xs (- 1, zero_Instance) of (best, own) \<Rightarrow>
    (if \<exists>i \<in> set xs. up i
     then own \<in> set xs \<and> up own \<and> best = weightedScore mlog rv key own \<and>
       (\<forall>i \<in> set xs. up i \<longrightarrow> as_good (weightedScore mlog rv key) own i)
     else best = - 1 \<and> own = zero_Instance)"
proof (induction xs rule: rev_induct)
  case (snoc x xs)
  let ?score = "weightedScore mlog rv key"
  obtain best own where bo: "fold (owner_step mlog rv key) xs (- 1, zero_Instance) = (best, own)"
    by fastforce
  note IH = snoc.IH [unfolded bo prod.case]
  have step: "fold (owner_step mlog rv key) (xs @ [x]) (- 1, zero_Instance) =
      owner_step mlog rv key x (best, own)" by (simp add: bo)
  show ?case
  proof (cases "up x")
    case False
    then show ?thesis using IH unfolding step by (auto simp: owner_step_def up_def split: if_splits)
  next
    case True
    then have x: "inst_State x = ''UP''" by (simp add: up_def)
    show ?thesis
    proof (cases "\<exists>i \<in> set xs. up i")
      case False
      then have "best < ?score x" using IH assms [of x] by simp
      then have "owner_step mlog rv key x (best, own) = (?score x, x)"
        using x by (simp add: owner_step_def)
      then show ?thesis using True False unfolding step by (auto simp: as_good_refl)
    next
      case prev: True
      then have IH: "own \<in> set xs" "up own" "best = ?score own"
        "\<forall>i \<in> set xs. up i \<longrightarrow> as_good ?score own i" using IH by simp_all
      have eq: "owner_step mlog rv key x (best, own) =
          (if as_good ?score own x then (best, own) else (?score x, x))"
        using x by (auto simp: owner_step_def Let_def IH(3) as_good_def not_le)
      show ?thesis
      proof (cases "as_good ?score own x")
        case True
        then show ?thesis using IH \<open>up x\<close> unfolding step eq by auto
      next
        case False
        then have "as_good ?score x own" by (rule as_good_total)
        then show ?thesis using False IH \<open>up x\<close> unfolding step eq
          by (auto simp: as_good_refl intro: as_good_trans)
      qed
    qed
  qed
qed simp

lemma OwnerOf_cases:
  assumes "log_negative mlog"
  shows "if TrimSpace key \<noteq> [] \<and> top_Revision t \<noteq> [] \<and> (\<exists>i \<in> set (top_Instances t). up i)
    then (\<exists>own \<in> set (top_Instances t). Topology_OwnerOf mlog t key = (own, True) \<and> up own \<and>
      (\<forall>i \<in> set (top_Instances t). up i \<longrightarrow>
        as_good (weightedScore mlog (top_Revision t) (TrimSpace key)) own i))
    else Topology_OwnerOf mlog t key = (zero_Instance, False)"
proof -
  let ?score = "weightedScore mlog (top_Revision t) (TrimSpace key)"
  obtain best own where bo: "fold (owner_step mlog (top_Revision t) (TrimSpace key))
      (top_Instances t) (- 1, zero_Instance) = (best, own)" by fastforce
  have nonneg: "0 \<le> ?score i" for i by (rule weightedScore_nonneg [OF assms])
  note f = owner_fold [of mlog "top_Revision t" "TrimSpace key" "top_Instances t", OF nonneg,
      unfolded bo prod.case]
  have best: "\<not> best < 0" if "\<exists>i \<in> set (top_Instances t). up i"
    using f that nonneg [of own] by (simp add: not_less)
  show ?thesis
    using f best by (auto simp: Topology_OwnerOf_def Let_def bo)
qed

text \<open>Priorities play no part in the choice of the owner.\<close>

lemma owner_fold_priority:
  assumes "fst x = fst y \<and> inst_InstanceID (snd x) = inst_InstanceID (snd y)"
  shows "fst (fold (owner_step mlog rv key) (map (\<lambda>i. i\<lparr>inst_Priority := p i\<rparr>) xs) x) =
      fst (fold (owner_step mlog rv key) xs y) \<and>
    inst_InstanceID (snd (fold (owner_step mlog rv key) (map (\<lambda>i. i\<lparr>inst_Priority := p i\<rparr>) xs) x)) =
      inst_InstanceID (snd (fold (owner_step mlog rv key) xs y))"
  using assms
proof (induction xs arbitrary: x y)
  case (Cons i xs)
  have "weightedScore mlog rv key (i\<lparr>inst_Priority := p i\<rparr>) = weightedScore mlog rv key i"
    by (simp add: weightedScore_def)
  then have "fst (owner_step mlog rv key (i\<lparr>inst_Priority := p i\<rparr>) x) = fst (owner_step mlog rv key i y) \<and>
      inst_InstanceID (snd (owner_step mlog rv key (i\<lparr>inst_Priority := p i\<rparr>) x)) =
      inst_InstanceID (snd (owner_step mlog rv key i y))"
    using Cons.prems by (simp add: owner_step_def Let_def)
  from Cons.IH [OF this] show ?case by simp
qed simp

lemma OwnerOf_priority:
  "inst_InstanceID (fst (Topology_OwnerOf mlog
      (t\<lparr>top_Instances := map (\<lambda>i. i\<lparr>inst_Priority := p i\<rparr>) (top_Instances t)\<rparr>) key)) =
    inst_InstanceID (fst (Topology_OwnerOf mlog t key))"
  using owner_fold_priority [of "(- 1, zero_Instance)" "(- 1, zero_Instance)" mlog "top_Revision t" "TrimSpace key" p
      "top_Instances t"]
  by (auto simp: Topology_OwnerOf_def Let_def cloneInstance_def split: prod.split)

text \<open>With distinct ids the owner does not depend on the order of the instances.\<close>

lemma OwnerOf_order:
  assumes "log_negative mlog" and "set (top_Instances t) = set (top_Instances t')"
    and "top_Revision t = top_Revision t'" and "inj_on inst_InstanceID (set (top_Instances t))"
  shows "Topology_OwnerOf mlog t key = Topology_OwnerOf mlog t' key"
proof (cases "TrimSpace key \<noteq> [] \<and> top_Revision t \<noteq> [] \<and> (\<exists>i \<in> set (top_Instances t). up i)")
  case True
  then obtain o1 where o1: "o1 \<in> set (top_Instances t)" "Topology_OwnerOf mlog t key = (o1, True)" "up o1"
    "\<forall>i \<in> set (top_Instances t). up i \<longrightarrow>
        as_good (weightedScore mlog (top_Revision t) (TrimSpace key)) o1 i"
    using OwnerOf_cases [OF assms(1), of key t] by auto
  obtain o2 where o2: "o2 \<in> set (top_Instances t)" "Topology_OwnerOf mlog t' key = (o2, True)" "up o2"
    "\<forall>i \<in> set (top_Instances t). up i \<longrightarrow>
        as_good (weightedScore mlog (top_Revision t) (TrimSpace key)) o2 i"
    using OwnerOf_cases [OF assms(1), of key t'] True assms(2,3) by auto
  have "inst_InstanceID o1 = inst_InstanceID o2" using o1 o2 as_good_antisym by blast
  then have "o1 = o2" using assms(4) o1(1) o2(1) by (auto dest: inj_onD)
  then show ?thesis using o1 o2 by simp
next
  case False
  then show ?thesis
    using OwnerOf_cases [OF assms(1), of key t] OwnerOf_cases [OF assms(1), of key t'] assms(2,3) by auto
qed

subsection \<open>Normal form\<close>

definition inst_wf :: "Instance \<Rightarrow> bool" where
  "inst_wf i \<longleftrightarrow>
     inst_InstanceID i \<noteq> [] \<and> TrimSpace (inst_InstanceID i) = inst_InstanceID i \<and>
     inst_Host i \<noteq> [] \<and> TrimSpace (inst_Host i) = inst_Host i \<and>
     TrimSpace (inst_Zone i) = inst_Zone i \<and> TrimSpace (inst_Version i) = inst_Version i \<and>
     0 <s inst_Port i \<and> inst_State i \<in> {''UP'', ''DRAINING'', ''MIGRATING''} \<and>
     inst_Priority i \<noteq> 0 \<and> 0 <s inst_Weight i"

lemma normal_states:
  "normalizeState ''UP'' = ''UP''" "normalizeState ''DRAINING'' = ''DRAINING''"
  "normalizeState ''MIGRATING'' = ''MIGRATING''"
  by code_simp+

lemma not_sle_0_32: "\<not> w \<le>s 0 \<longleftrightarrow> 0 <s (w :: int32)"
  by (simp add: word_sle_eq word_sless_alt not_le)

lemma normalizeInstance_wf:
  assumes "normalizeInstance i = Some j"
  shows "inst_wf j"
proof -
  have "0 <s (100 :: int32)" by (simp add: word_sless_alt)
  then show ?thesis
    using assms by (auto simp: normalizeInstance_def Let_def inst_wf_def not_sle_0_32 split: if_splits)
qed

lemma normalizeInstance_fix:
  assumes "inst_wf i"
  shows "normalizeInstance i = Some i"
proof -
  have "normalizeState (inst_State i) = inst_State i"
    using assms normal_states by (auto simp: inst_wf_def)
  then show ?thesis
    using assms by (auto simp: normalizeInstance_def Let_def inst_wf_def not_sle_0_32 [symmetric])
qed

definition topology_key :: "Instance \<Rightarrow> int \<times> int \<times> string \<times> string" where
  "topology_key i =
     (sint (inst_Priority i), - sint (inst_Weight i), inst_InstanceID i,
      Sprintf_host_port (inst_Host i) (inst_Port i))"

lemma sint_eq_iff_32: "sint (v :: int32) = sint w \<longleftrightarrow> v = w"
  by (auto intro: signed_word_eqI)

lemma topology_less_key: "topology_less i j \<longleftrightarrow> topology_key i < topology_key j"
  by (auto simp: topology_less_def topology_key_def less_prod_def' word_sless_alt sint_eq_iff_32
      less_le)

lemma topology_sort_key: "topology_sortInstances xs = sort_key topology_key xs"
  unfolding topology_sortInstances_def by (rule SliceStable_key) (rule topology_less_key)

definition normalized :: "Instance list \<Rightarrow> Instance list" where
  "normalized xs = List.map_filter normalizeInstance xs"

lemma normalized_wf: "i \<in> set (normalized xs) \<Longrightarrow> inst_wf i"
  by (auto simp: normalized_def List.map_filter_def dest: normalizeInstance_wf)

lemma normalized_fix: "\<forall>i \<in> set xs. inst_wf i \<Longrightarrow> normalized xs = xs"
  by (induction xs) (simp_all add: normalized_def normalizeInstance_fix)

lemma normalized_mset: "mset xs = mset ys \<Longrightarrow> mset (normalized xs) = mset (normalized ys)"
  by (simp add: normalized_def List.map_filter_def)

lemma Build_instances: "top_Instances (Build ns sv xs) = sort_key topology_key (normalized xs)"
  by (simp add: Build_def Let_def cloneInstances_def topology_sort_key normalized_def map_idI)

lemma cloneInstances_id [simp]: "cloneInstances xs = xs"
  by (simp add: cloneInstances_def map_idI)

lemma Topology_Clone_id [simp]: "Topology_Clone t = t"
  by (simp add: Topology_Clone_def)

lemma Build_order:
  assumes "mset xs = mset ys" and "inj_on topology_key (set (normalized xs))"
  shows "Build ns sv xs = Build ns sv ys"
proof -
  have "topology_sortInstances (normalized xs) = topology_sortInstances (normalized ys)"
    unfolding topology_sort_key by (rule sort_key_unique [OF normalized_mset [OF assms(1)] assms(2)])
  then show ?thesis by (simp add: Build_def normalized_def)
qed

lemma Build_idem: "Build ns sv (top_Instances (Build ns sv xs)) = Build ns sv xs"
proof -
  let ?s = "sort_key topology_key (normalized xs)"
  have "normalized ?s = ?s" by (rule normalized_fix) (auto dest: normalized_wf)
  moreover have "sort_key topology_key ?s = ?s" by (rule sort_key_id_if_sorted) simp
  ultimately show ?thesis
    by (simp add: Build_instances) (simp add: Build_def normalized_def [symmetric] topology_sort_key)
qed

lemma revision_length: "length (revision ns sv xs) = 16"
  by (simp add: revision_def EncodeToString_length Sum256_length)

lemma Build_revision: "length (top_Revision (Build ns sv xs)) = 16"
  by (simp add: Build_def Let_def revision_length)

end
