(* ===== verification/TopologyManager.thy ===== *)
theory TopologyManager
  imports TopologyMetrics TopologyOwners
begin

text \<open>
  The \<open>Manager\<close> of \<open>internal/topology/topology.go\<close>: a cached topology with a time to live,
  refreshed from the provider, and kept when the provider fails. What a call reads from the
  outside, the clock and the outcome of the provider's \<open>List\<close>, is a \<open>reading\<close>; what it
  records on its metrics is appended to the manager.
\<close>

record Manager =
  mgr_Namespace :: string
  mgr_Service :: string
  mgr_SelfInstanceID :: string
  mgr_CacheTTL :: duration
  mgr_metrics :: "Metrics option"
  mgr_current :: Topology
  mgr_expiresAt :: time
  mgr_updatedAt :: time
  mgr_measurements :: "measurement list"

record 'e reading =
  rd_lookup_start :: time
  rd_now :: time
  rd_refresh_start :: time
  rd_listing :: "'e + Instance list"
  rd_refresh_end :: time
  rd_lookup_end :: time

definition defaultCacheTTL :: duration where "defaultCacheTTL = 2 * Second"

definition NewManager :: "string \<Rightarrow> string \<Rightarrow> string \<Rightarrow> duration \<Rightarrow> Metrics option \<Rightarrow> Manager" where
  "NewManager namespace service self cacheTTL metrics =
     \<lparr>mgr_Namespace = namespace, mgr_Service = service, mgr_SelfInstanceID = self,
      mgr_CacheTTL = (if cacheTTL \<le>s 0 then defaultCacheTTL else cacheTTL),
      mgr_metrics = metrics, mgr_current = zero_Topology, mgr_expiresAt = zero_time,
      mgr_updatedAt = zero_time, mgr_measurements = []\<rparr>"

definition ageSince :: "time \<Rightarrow> time \<Rightarrow> duration" where
  "ageSince now updatedAt = (if IsZero updatedAt then 0 else Sub now updatedAt)"

definition mgr_record :: "measurement list \<Rightarrow> Manager \<Rightarrow> Manager" where
  "mgr_record ms m = m\<lparr>mgr_measurements := mgr_measurements m @ ms\<rparr>"

definition SelfInstanceID :: "Manager \<Rightarrow> string" where
  "SelfInstanceID m = TrimSpace (mgr_SelfInstanceID m)"

definition Refresh ::
    "(string fset \<Rightarrow> string list) \<Rightarrow> 'e reading \<Rightarrow> Manager \<Rightarrow> ('e + Topology) \<times> Manager" where
  "Refresh ord rd m =
     (let start = rd_refresh_start rd; now = rd_refresh_end rd in
      case rd_listing rd of
        Inl err \<Rightarrow>
          (if top_Revision (mgr_current m) \<noteq> [] then
             (let current = Topology_Clone (mgr_current m) in
              (Inr current,
               mgr_record (RecordRefresh ord (mgr_metrics m) ''stale_cache'' (Sub now start) current
                 (ageSince now (mgr_updatedAt m)) True) m))
           else
             (Inl err,
              mgr_record (RecordRefresh ord (mgr_metrics m) ''error'' (Sub now start) zero_Topology 0 True) m))
      | Inr instances \<Rightarrow>
          (let topology = Build (mgr_Namespace m) (mgr_Service m) instances in
           (Inr topology,
            mgr_record (RecordRefresh ord (mgr_metrics m) ''success'' (Sub now start) topology 0 False)
              (m\<lparr>mgr_current := Topology_Clone topology, mgr_updatedAt := now,
                 mgr_expiresAt := Add now (mgr_CacheTTL m)\<rparr>))))"

definition Current ::
    "(string fset \<Rightarrow> string list) \<Rightarrow> 'e reading \<Rightarrow> Manager \<Rightarrow> ('e + Topology) \<times> Manager" where
  "Current ord rd m =
     (let now = rd_now rd in
      if top_Revision (mgr_current m) \<noteq> [] \<and> Before now (mgr_expiresAt m) then
        (Inr (Topology_Clone (mgr_current m)),
         mgr_record (RecordCacheAccess (mgr_metrics m) ''hit'' (ageSince now (mgr_updatedAt m)) False) m)
      else
        (let result = (if top_Revision (mgr_current m) \<noteq> [] then ''expired'' else ''empty'') in
         Refresh ord rd
           (mgr_record (RecordCacheAccess (mgr_metrics m) result (ageSince now (mgr_updatedAt m))
              (result = ''expired'')) m)))"

definition Manager_OwnerOf ::
    "(rat \<Rightarrow> rat) \<Rightarrow> (string fset \<Rightarrow> string list) \<Rightarrow> 'e reading \<Rightarrow> string \<Rightarrow> Manager \<Rightarrow>
     ('e + Instance \<times> Topology \<times> bool) \<times> Manager" where
  "Manager_OwnerOf mlog ord rd shardKey m =
     (let elapsed = Sub (rd_lookup_end rd) (rd_lookup_start rd) in
      case Current ord rd m of
        (Inl err, m') \<Rightarrow>
          (Inl err, mgr_record (RecordOwnerLookup (mgr_metrics m) ''error'' elapsed False) m')
      | (Inr current, m') \<Rightarrow>
          (case Topology_OwnerOf mlog current shardKey of
             (owner, False) \<Rightarrow>
               (Inr (owner, current, False),
                mgr_record (RecordOwnerLookup (mgr_metrics m) ''owner_unavailable'' elapsed False) m')
           | (owner, True) \<Rightarrow>
               (Inr (owner, current, True),
                mgr_record (RecordOwnerLookup (mgr_metrics m) ''success'' elapsed
                  (inst_InstanceID owner = SelfInstanceID m)) m')))"

definition Manager_RecordOwnerCheck :: "string \<Rightarrow> string \<Rightarrow> Manager \<Rightarrow> Manager" where
  "Manager_RecordOwnerCheck result reason m =
     mgr_record (metrics_RecordOwnerCheck (mgr_metrics m) result reason) m"

subsection \<open>The cache\<close>

lemma mgr_record_frame [simp]:
  "mgr_current (mgr_record ms m) = mgr_current m" "mgr_expiresAt (mgr_record ms m) = mgr_expiresAt m"
  "mgr_updatedAt (mgr_record ms m) = mgr_updatedAt m" "mgr_Namespace (mgr_record ms m) = mgr_Namespace m"
  "mgr_Service (mgr_record ms m) = mgr_Service m" "mgr_CacheTTL (mgr_record ms m) = mgr_CacheTTL m"
  "mgr_metrics (mgr_record ms m) = mgr_metrics m"
  "mgr_SelfInstanceID (mgr_record ms m) = mgr_SelfInstanceID m"
  by (simp_all add: mgr_record_def)

text \<open>What a call may return and leave: the cached topology, or one built from the listing.\<close>

lemma Current_cases:
  assumes "Current ord rd m = (res, m')"
  obtains (hit) "res = Inr (mgr_current m)" "top_Revision (mgr_current m) \<noteq> []"
      "rd_now rd < mgr_expiresAt m" "mgr_current m' = mgr_current m" "mgr_expiresAt m' = mgr_expiresAt m"
    | (refreshed) instances where "rd_listing rd = Inr instances"
      "res = Inr (Build (mgr_Namespace m) (mgr_Service m) instances)"
      "mgr_current m' = Build (mgr_Namespace m) (mgr_Service m) instances"
      "mgr_expiresAt m' = rd_refresh_end rd + sint (mgr_CacheTTL m)"
    | (stale) err where "rd_listing rd = Inl err" "res = Inr (mgr_current m)"
      "top_Revision (mgr_current m) \<noteq> []" "mgr_current m' = mgr_current m"
      "mgr_expiresAt m' = mgr_expiresAt m"
    | (failed) err where "rd_listing rd = Inl err" "res = Inl err" "top_Revision (mgr_current m) = []"
      "mgr_current m' = mgr_current m" "mgr_expiresAt m' = mgr_expiresAt m"
proof (cases "top_Revision (mgr_current m) \<noteq> [] \<and> Before (rd_now rd) (mgr_expiresAt m)")
  case True
  with assms show ?thesis by (intro hit) (auto simp: Current_def Before_def)
next
  case False
  note eq = assms [unfolded Current_def Let_def if_not_P [OF False]]
  show ?thesis
  proof (cases "rd_listing rd")
    case (Inr instances)
    with eq show ?thesis by (intro refreshed) (auto simp: Refresh_def Let_def Add_def)
  next
    case (Inl err)
    show ?thesis
    proof (cases "top_Revision (mgr_current m) = []")
      case True
      with Inl eq show ?thesis by (intro failed) (auto simp: Refresh_def Let_def)
    next
      case False
      with Inl eq show ?thesis by (intro stale) (auto simp: Refresh_def Let_def)
    qed
  qed
qed

lemma Refresh_config:
  "Refresh ord rd m = (res, m') \<Longrightarrow> mgr_Namespace m' = mgr_Namespace m \<and> mgr_Service m' = mgr_Service m \<and>
    mgr_CacheTTL m' = mgr_CacheTTL m \<and> mgr_SelfInstanceID m' = mgr_SelfInstanceID m \<and>
    mgr_metrics m' = mgr_metrics m"
  by (auto simp: Refresh_def Let_def split: sum.splits if_splits)

lemma Current_config:
  "Current ord rd m = (res, m') \<Longrightarrow> mgr_Namespace m' = mgr_Namespace m \<and> mgr_Service m' = mgr_Service m \<and>
    mgr_CacheTTL m' = mgr_CacheTTL m \<and> mgr_SelfInstanceID m' = mgr_SelfInstanceID m \<and>
    mgr_metrics m' = mgr_metrics m"
  by (auto simp: Current_def Let_def split: if_splits dest!: Refresh_config)

text \<open>
  The invariant of the cache: nothing yet, or the topology of some listing.
\<close>

definition mgr_wf :: "Manager \<Rightarrow> bool" where
  "mgr_wf m \<longleftrightarrow> mgr_current m = zero_Topology \<or>
     (\<exists>instances. mgr_current m = Build (mgr_Namespace m) (mgr_Service m) instances)"

lemma mgr_wf_new: "mgr_wf (NewManager ns sv self ttl metrics)"
  by (simp add: mgr_wf_def NewManager_def)

lemma Current_wf:
  assumes "Current ord rd m = (res, m')" and "mgr_wf m"
  shows "mgr_wf m'"
  using assms(1)
proof (cases rule: Current_cases)
  case (refreshed instances)
  then show ?thesis using Current_config [OF assms(1)] by (auto simp: mgr_wf_def)
qed (use assms Current_config [OF assms(1)] in \<open>simp_all add: mgr_wf_def\<close>)

text \<open>A served topology is always one that was built, never the zero value.\<close>

lemma Current_built:
  assumes "Current ord rd m = (Inr t, m')" and "mgr_wf m"
  shows "\<exists>instances. t = Build (mgr_Namespace m) (mgr_Service m) instances"
  using assms(1)
proof (cases rule: Current_cases)
  case hit
  then show ?thesis using assms(2) by (auto simp: mgr_wf_def zero_Topology_def)
next
  case stale
  then show ?thesis using assms(2) by (auto simp: mgr_wf_def zero_Topology_def)
qed auto

lemma OwnerOf_Current:
  "fst (Manager_OwnerOf mlog ord rd key m) =
     (case fst (Current ord rd m) of
        Inl err \<Rightarrow> Inl err
      | Inr t \<Rightarrow> Inr (fst (Topology_OwnerOf mlog t key), t, snd (Topology_OwnerOf mlog t key)))"
  by (auto simp: Manager_OwnerOf_def Let_def split: prod.split sum.split bool.split)

fun current_all ::
    "(string fset \<Rightarrow> string list) \<Rightarrow> 'e reading list \<Rightarrow> Manager \<Rightarrow> ('e + Topology) list \<times> Manager" where
  "current_all ord [] m = ([], m)"
| "current_all ord (rd # rds) m =
     (case Current ord rd m of
        (res, m') \<Rightarrow> (case current_all ord rds m' of (results, m'') \<Rightarrow> (res # results, m'')))"

lemma current_all_available:
  "top_Revision (mgr_current m) \<noteq> [] \<Longrightarrow> res \<in> set (fst (current_all ord rds m)) \<Longrightarrow> is_ok res"
proof (induction rds arbitrary: m)
  case (Cons rd rds)
  obtain res1 m1 where c: "Current ord rd m = (res1, m1)" by fastforce
  have "is_ok res1 \<and> top_Revision (mgr_current m1) \<noteq> []"
    using c
  proof (cases rule: Current_cases)
    case (refreshed instances)
    then show ?thesis using Build_revision [of "mgr_Namespace m" "mgr_Service m" instances] by auto
  qed (use Cons.prems(1) in simp_all)
  then show ?case using Cons c by (auto split: prod.splits)
qed simp

end
