(* ===== verification/GoTimeText.thy ===== *)
theory GoTimeText
  imports GoTime GoFloat
begin

text \<open>
  Reading times and durations from text: \<open>time.ParseDuration\<close>, by which the configuration
  names durations, and \<open>time.Parse\<close> with the layout \<open>RFC3339\<close>, to which the JSON decoding of
  a \<open>time.Time\<close> comes down (a text that its stricter fast path takes has the same value).
\<close>

subsection \<open>Durations\<close>

text \<open>\<open>leadingInt\<close>: the digits at the start, \<open>None\<close> when they exceed \<open>1 << 63\<close>.\<close>

fun leadingInt :: "int \<Rightarrow> string \<Rightarrow> (int \<times> string) option" where
  "leadingInt x [] = Some (x, [])"
| "leadingInt x (c # s) =
     (if \<not> is_digit c then Some (x, c # s)
      else if 2 ^ 63 div 10 < x then None
      else if 2 ^ 63 < x * 10 + int (digit_val c) then None
      else leadingInt (x * 10 + int (digit_val c)) s)"

text \<open>\<open>leadingFraction\<close>: digits beyond the range of the result are skipped.\<close>

fun leadingFraction :: "int \<Rightarrow> rat \<Rightarrow> bool \<Rightarrow> string \<Rightarrow> int \<times> rat \<times> string" where
  "leadingFraction x scale overflow [] = (x, scale, [])"
| "leadingFraction x scale overflow (c # s) =
     (if \<not> is_digit c then (x, scale, c # s)
      else if overflow then leadingFraction x scale True s
      else if (2 ^ 63 - 1) div 10 < x then leadingFraction x scale True s
      else if 2 ^ 63 < x * 10 + int (digit_val c) then leadingFraction x scale True s
      else leadingFraction (x * 10 + int (digit_val c)) (fl (scale * 10)) False s)"

definition unit_nanoseconds :: "string \<Rightarrow> int option" where
  "unit_nanoseconds u =
     (if u = ''ns'' then Some 1
      else if u \<in> {''us'', [CHR 0xC2, CHR 0xB5, CHR ''s''], [CHR 0xCE, CHR 0xBC, CHR ''s'']} then Some 1000
      else if u = ''ms'' then Some 1000000
      else if u = ''s'' then Some 1000000000
      else if u = ''m'' then Some 60000000000
      else if u = ''h'' then Some 3600000000000
      else None)"

definition unit_char :: "char \<Rightarrow> bool" where
  "unit_char c \<longleftrightarrow> c \<noteq> CHR ''.'' \<and> \<not> is_digit c"

text \<open>What follows a period: the fraction, its scale, and whether it has digits.\<close>

definition fraction_part :: "string \<Rightarrow> int \<times> rat \<times> string \<times> bool" where
  "fraction_part s =
     (if s \<noteq> [] \<and> hd s = CHR ''.'' then
        (case leadingFraction 0 1 False (tl s) of
           (f, scale, t) \<Rightarrow> (f, scale, t, length t \<noteq> length (tl s)))
      else (0, 1, s, False))"

text \<open>The nanoseconds of \<open>v\<close> units and \<open>f / scale\<close> of one, unless they overflow.\<close>

definition in_nanoseconds :: "int \<Rightarrow> int \<Rightarrow> rat \<Rightarrow> int \<Rightarrow> int option" where
  "in_nanoseconds v f scale ns =
     (if 2 ^ 63 div ns < v then None
      else if f = 0 then Some (v * ns)
      else
        (let w = v * ns + \<lfloor>fl (fl (of_int f) * fl (of_int ns / scale))\<rfloor> in
         if 2 ^ 63 < w then None else Some w))"

text \<open>One number with its unit, in nanoseconds, and what follows it.\<close>

definition duration_item :: "string \<Rightarrow> (int \<times> string) option" where
  "duration_item s =
     (if s = [] \<or> unit_char (hd s) then None
      else Option.bind (leadingInt 0 s) (\<lambda>(v, s1).
        case fraction_part s1 of
          (f, scale, s2, post) \<Rightarrow>
            (if length s1 = length s \<and> \<not> post then None
             else if takeWhile unit_char s2 = [] then None
             else Option.bind (unit_nanoseconds (takeWhile unit_char s2)) (\<lambda>ns.
               map_option (\<lambda>w. (w, dropWhile unit_char s2)) (in_nanoseconds v f scale ns)))))"

lemma leadingInt_le: "leadingInt x s = Some (v, t) \<Longrightarrow> length t \<le> length s"
  by (induction x s rule: leadingInt.induct) (auto split: if_splits)

lemma leadingFraction_le: "leadingFraction x scale overflow s = (f, sc, t) \<Longrightarrow> length t \<le> length s"
  by (induction x scale overflow s rule: leadingFraction.induct) (auto split: if_splits)

lemma fraction_part_le: "fraction_part s = (f, scale, t, post) \<Longrightarrow> length t \<le> length s"
  by (cases s) (auto simp: fraction_part_def le_SucI split: if_splits prod.splits dest!: leadingFraction_le)

lemma dropWhile_shorter: "takeWhile P s \<noteq> [] \<Longrightarrow> length (dropWhile P s) < length s"
  by (cases s) (auto simp: less_Suc_eq_le length_dropWhile_le split: if_splits)

lemma duration_item_shorter:
  assumes "duration_item s = Some (w, t)"
  shows "length t < length s"
proof -
  from assms obtain v s1 where v: "leadingInt 0 s = Some (v, s1)"
    by (auto simp: duration_item_def bind_eq_Some_conv split: if_splits)
  obtain f scale s2 post where f: "fraction_part s1 = (f, scale, s2, post)" by (cases "fraction_part s1")
  have *: "takeWhile unit_char s2 \<noteq> []" "t = dropWhile unit_char s2"
    using assms by (auto simp: duration_item_def v f bind_eq_Some_conv split: if_splits)
  then have "length t < length s2" by (simp add: dropWhile_shorter)
  also have "\<dots> \<le> length s" using fraction_part_le [OF f] leadingInt_le [OF v] by simp
  finally show ?thesis .
qed

text \<open>The sum wraps around, but is checked after each addition.\<close>

function duration_items :: "int \<Rightarrow> string \<Rightarrow> int option" where
  "duration_items d s =
     (if s = [] then Some d
      else case duration_item s of
        None \<Rightarrow> None
      | Some (w, t) \<Rightarrow>
          (let d' = (d + w) mod 2 ^ 64 in if 2 ^ 63 < d' then None else duration_items d' t))"
  by pat_completeness auto
termination
  by (relation "measure (\<lambda>(d, s). length s)") (auto dest: duration_item_shorter)

declare duration_items.simps [simp del]

definition ParseDuration :: "string \<Rightarrow> duration option" where
  "ParseDuration s0 =
     (let neg = (s0 \<noteq> [] \<and> hd s0 = CHR ''-'');
          s = (if s0 \<noteq> [] \<and> hd s0 \<in> {CHR ''-'', CHR ''+''} then tl s0 else s0) in
      if s = ''0'' then Some 0
      else if s = [] then None
      else case duration_items 0 s of
        None \<Rightarrow> None
      | Some d \<Rightarrow>
          (if neg then Some (- word_of_int d)
           else if 2 ^ 63 - 1 < d then None else Some (word_of_int d)))"

subsection \<open>Instants\<close>

text \<open>The days from the Unix epoch to a date of the Gregorian calendar.\<close>

definition days_from_civil :: "int \<Rightarrow> int \<Rightarrow> int \<Rightarrow> int" where
  "days_from_civil y m d =
     (let y' = (if m \<le> 2 then y - 1 else y); era = y' div 400; yoe = y' mod 400;
          doy = (153 * (if 2 < m then m - 3 else m + 9) + 2) div 5 + d - 1;
          doe = yoe * 365 + yoe div 4 - yoe div 100 + doy in
      era * 146097 + doe - 719468)"

definition leap_year :: "int \<Rightarrow> bool" where
  "leap_year y \<longleftrightarrow> y mod 4 = 0 \<and> (y mod 100 \<noteq> 0 \<or> y mod 400 = 0)"

definition daysIn :: "int \<Rightarrow> int \<Rightarrow> int" where
  "daysIn m y =
     (if m = 2 then (if leap_year y then 29 else 28)
      else if m \<in> {4, 6, 9, 11} then 30 else 31)"

definition two_digits :: "string \<Rightarrow> (int \<times> string) option" where
  "two_digits s =
     (case s of
        a # b # t \<Rightarrow>
          (if is_digit a \<and> is_digit b then Some (int (digit_val a * 10 + digit_val b), t) else None)
      | _ \<Rightarrow> None)"

definition one_or_two_digits :: "string \<Rightarrow> (int \<times> string) option" where
  "one_or_two_digits s =
     (case two_digits s of
        Some r \<Rightarrow> Some r
      | None \<Rightarrow> (case s of a # t \<Rightarrow> if is_digit a then Some (int (digit_val a), t) else None | [] \<Rightarrow> None))"

definition four_digits :: "string \<Rightarrow> (int \<times> string) option" where
  "four_digits s =
     (case two_digits s of
        None \<Rightarrow> None
      | Some (a, t) \<Rightarrow> (case two_digits t of None \<Rightarrow> None | Some (b, u) \<Rightarrow> Some (a * 100 + b, u)))"

definition expect_char :: "char \<Rightarrow> string \<Rightarrow> string option" where
  "expect_char c s = (case s of d # t \<Rightarrow> if d = c then Some t else None | [] \<Rightarrow> None)"

definition in_range :: "int \<Rightarrow> int \<Rightarrow> (int \<times> string) option \<Rightarrow> (int \<times> string) option" where
  "in_range lo hi r = (case r of Some (x, t) \<Rightarrow> if lo \<le> x \<and> x \<le> hi then r else None | None \<Rightarrow> None)"

text \<open>An optional fraction after the seconds, cut to nine digits.\<close>

definition nanoseconds :: "string \<Rightarrow> int \<times> string" where
  "nanoseconds s =
     (case s of
        c # d # t \<Rightarrow>
          (if c \<in> {CHR ''.'', CHR '',''} \<and> is_digit d
           then (let ds = take 9 (takeWhile is_digit (d # t)) in
             (int (digits_value ds) * 10 ^ (9 - length ds), dropWhile is_digit (d # t)))
           else (0, s))
      | _ \<Rightarrow> (0, s))"

text \<open>The zone: \<open>Z\<close>, or a sign, hours, a colon and minutes; the offset in seconds.\<close>

definition zone_offset :: "string \<Rightarrow> (int \<times> string) option" where
  "zone_offset s =
     (case s of
        [] \<Rightarrow> None
      | c # t \<Rightarrow>
          (if c = CHR ''Z'' then Some (0, t)
           else Option.bind (in_range 0 24 (two_digits t)) (\<lambda>(hh, t1).
             Option.bind (expect_char CHR '':'' t1) (\<lambda>t2.
             Option.bind (in_range 0 60 (two_digits t2)) (\<lambda>(mm, t3).
               if c = CHR ''+'' then Some ((hh * 60 + mm) * 60, t3)
               else if c = CHR ''-'' then Some (- ((hh * 60 + mm) * 60), t3) else None)))))"

definition ParseRFC3339 :: "string \<Rightarrow> time option" where
  "ParseRFC3339 s =
     Option.bind (four_digits s) (\<lambda>(year, s1).
     Option.bind (expect_char CHR ''-'' s1) (\<lambda>s2.
     Option.bind (in_range 1 12 (two_digits s2)) (\<lambda>(month, s3).
     Option.bind (expect_char CHR ''-'' s3) (\<lambda>s4.
     Option.bind (in_range 1 (daysIn month year) (two_digits s4)) (\<lambda>(day, s5).
     Option.bind (expect_char CHR ''T'' s5) (\<lambda>s6.
     Option.bind (in_range 0 23 (one_or_two_digits s6)) (\<lambda>(hour, s7).
     Option.bind (expect_char CHR '':'' s7) (\<lambda>s8.
     Option.bind (in_range 0 59 (two_digits s8)) (\<lambda>(minute, s9).
     Option.bind (expect_char CHR '':'' s9) (\<lambda>s10.
     Option.bind (in_range 0 59 (two_digits s10)) (\<lambda>(second, s11).
       (case nanoseconds s11 of
          (ns, s12) \<Rightarrow>
            Option.bind (zone_offset s12) (\<lambda>(offset, s13).
              if s13 \<noteq> [] then None
              else Some ((((days_from_civil year month day * 24 + hour) * 60 + minute) * 60 + second - offset)
                * 1000000000 + ns))))))))))))))"

lemma days_epoch: "days_from_civil 1970 1 1 = 0" "days_from_civil 1 1 1 * 86400 * 1000000000 = zero_time"
  by (simp_all add: days_from_civil_def Let_def zero_time_def)

lemma days_next_day: "days_from_civil y m (d + 1) = days_from_civil y m d + 1"
  by (simp add: days_from_civil_def Let_def)

end
