(* ===== verification/JsonStruct.thy ===== *)
theory JsonStruct
  imports JsonGo GoTimeText
begin

text \<open>
  Decoding into Go structs. As in \<open>encoding/json\<close>, where a struct's fields are found while
  scanning the text, the members of an object are pairs of a decoded name and the raw text of
  the value, so that \<open>json.RawMessage\<close> and \<open>time.Time\<close> see the bytes they are given. A decoder
  takes the raw text of a value and the value the target holds already: \<open>null\<close> leaves most
  targets as they are, and a name that occurs twice is decoded into the same target again.
  The text as a whole has been checked before a decoder sees a part of it. A mismatch of
  types makes the whole decoding fail: where Go goes on and reports the error at the end,
  the callers drop what was decoded.
\<close>

subsection \<open>Raw values\<close>

definition raw_value :: "string \<Rightarrow> (string \<times> string) option" where
  "raw_value s =
     map_option (\<lambda>(v, r). (take (length s - length r) s, r)) (json_value (2 * length s + 1) 0 s)"

text \<open>One member of an object: its name, its value, and the text after them.\<close>

definition raw_member :: "string \<Rightarrow> ((string \<times> string) \<times> string) option" where
  "raw_member s =
     Option.bind (expect_char CHR 0x22 s) (\<lambda>r.
     Option.bind (json_chars r) (\<lambda>(k, r1).
     Option.bind (expect_char CHR '':'' (skip_ws r1)) (\<lambda>r2.
     map_option (\<lambda>(raw, r3). ((k, raw), skip_ws r3)) (raw_value (skip_ws r2)))))"

lemma expect_char_shorter: "expect_char c s = Some t \<Longrightarrow> length t < length s"
  by (auto simp: expect_char_def split: list.splits if_splits)

lemma raw_value_shorter: "raw_value s = Some (raw, r) \<Longrightarrow> length r < length s"
  by (auto simp: raw_value_def simp del: json_value.simps dest: json_value_shorter)

lemma raw_member_shorter:
  assumes "raw_member s = Some (m, t)"
  shows "length t < length s"
proof -
  from assms obtain r k r1 r2 raw r3 where *: "expect_char CHR 0x22 s = Some r" "json_chars r = Some (k, r1)"
      "expect_char CHR '':'' (skip_ws r1) = Some r2" "raw_value (skip_ws r2) = Some (raw, r3)" "t = skip_ws r3"
    by (auto simp: raw_member_def bind_eq_Some_conv)
  show ?thesis
    using expect_char_shorter [OF *(1)] json_chars_shorter [OF *(2)] expect_char_shorter [OF *(3)]
      raw_value_shorter [OF *(4)] skip_ws_le [of r1] skip_ws_le [of r2] skip_ws_le [of r3]
    unfolding *(5) by linarith
qed

lemma fold_upd_lookup:
  "fmlookup (fold (\<lambda>(k, v) m. fmupd k v m) ms m0) k = Some j \<Longrightarrow>
   (k, j) \<in> set ms \<or> fmlookup m0 k = Some j"
  by (induction ms arbitrary: m0) (force split: if_splits)+

function raw_members :: "string \<Rightarrow> (string \<times> string) list option" where
  "raw_members s =
     (case raw_member s of
        None \<Rightarrow> None
      | Some (m, t) \<Rightarrow>
          (case t of
             [] \<Rightarrow> None
           | c # t' \<Rightarrow>
               (if c = CHR ''}'' then Some [m]
                else if c = CHR '','' then map_option ((#) m) (raw_members (skip_ws t')) else None)))"
  by pat_completeness auto
termination
  by (relation "measure length")
    (auto dest!: raw_member_shorter intro: le_less_trans [OF skip_ws_le])

function raw_elements :: "string \<Rightarrow> string list option" where
  "raw_elements s =
     (case raw_value s of
        None \<Rightarrow> None
      | Some (raw, r) \<Rightarrow>
          (case skip_ws r of
             [] \<Rightarrow> None
           | c # t \<Rightarrow>
               (if c = CHR '']'' then Some [raw]
                else if c = CHR '','' then map_option ((#) raw) (raw_elements (skip_ws t)) else None)))"
  by pat_completeness auto
termination
proof (relation "measure length", simp, clarsimp)
  fix s raw r t assume "raw_value s = Some (raw, r)" "skip_ws r = CHR '','' # t"
  then show "length (skip_ws t) < length s"
    using raw_value_shorter [of s raw r] skip_ws_shorter [of r] skip_ws_le [of t] by fastforce
qed

declare raw_members.simps [simp del] raw_elements.simps [simp del]

definition raw_object :: "string \<Rightarrow> (string \<times> string) list option" where
  "raw_object raw =
     Option.bind (expect_char CHR ''{'' raw) (\<lambda>r.
       if expect_char CHR ''}'' (skip_ws r) \<noteq> None then Some [] else raw_members (skip_ws r))"

definition raw_array :: "string \<Rightarrow> string list option" where
  "raw_array raw =
     Option.bind (expect_char CHR ''['' raw) (\<lambda>r.
       if expect_char CHR '']'' (skip_ws r) \<noteq> None then Some [] else raw_elements (skip_ws r))"

subsection \<open>Documents\<close>

text \<open>\<open>json.Unmarshal\<close> wants one value and nothing else.\<close>

definition whole_value :: "string \<Rightarrow> string option" where
  "whole_value s = (if json_decode s = None then None else map_option fst (raw_value (skip_ws s)))"

text \<open>
  \<open>json.Decoder.Decode\<close> reads the first value of a stream; one that does not close itself
  needs the end of the stream or whitespace after it. The reader may fail at its end.
\<close>

definition first_value :: "string \<Rightarrow> bool \<Rightarrow> string option" where
  "first_value body failed =
     Option.bind (raw_value (skip_ws body)) (\<lambda>(raw, r).
       if raw \<noteq> [] \<and> hd raw \<in> {CHR ''{'', CHR ''[''} then Some raw
       else if r = [] then (if failed then None else Some raw)
       else if json_ws (hd r) then Some raw else None)"

definition null :: string where "null = ''null''"

text \<open>
  \<open>json.Unmarshal\<close> of a text into a type whose elements are decoded, and into maps and slices of
  raw messages: \<open>null\<close> leaves those empty, and the last member with a name wins.
\<close>

definition decode_into :: "(json \<Rightarrow> 'a option) \<Rightarrow> string \<Rightarrow> 'a option" where
  "decode_into f raw = Option.bind (json_decode raw) f"

definition raw_map :: "string \<Rightarrow> (string, string) fmap option" where
  "raw_map raw =
     Option.bind (whole_value raw) (\<lambda>v.
       if v = null then Some fmempty
       else map_option (\<lambda>ms. fold (\<lambda>(k, r) m. fmupd k r m) ms fmempty) (raw_object v))"

definition raw_list :: "string \<Rightarrow> string list option" where
  "raw_list raw = Option.bind (whole_value raw) (\<lambda>v. if v = null then Some [] else raw_array v)"

text \<open>One run of the scanner over a text decides both.\<close>

lemma scan_whole:
  assumes "json_value (2 * length s + 1) 0 s = Some (v, [])" and "\<not> json_ws (hd s)"
  shows "whole_value s = Some s" and "json_decode s = Some v"
proof -
  have "s \<noteq> []" using assms(1) by auto
  then have "skip_ws s = s" using assms(2) by (cases s) (simp_all add: skip_ws_def)
  then show "json_decode s = Some v" using assms(1) by (simp add: json_decode_def skip_ws_def [of "[]"] del: json_value.simps)
  then show "whole_value s = Some s"
    using assms(1) \<open>skip_ws s = s\<close> by (simp add: whole_value_def raw_value_def del: json_value.simps)
qed

text \<open>A member of an object is shorter than the object.\<close>

lemma raw_value_le: "raw_value s = Some (raw, r) \<Longrightarrow> length raw \<le> length s"
  by (auto simp: raw_value_def simp del: json_value.simps)

lemma raw_member_value_shorter:
  assumes "raw_member s = Some ((k, raw), t)"
  shows "length raw < length s"
proof -
  from assms obtain r r1 r2 r3 where *: "expect_char CHR 0x22 s = Some r" "json_chars r = Some (k, r1)"
      "expect_char CHR '':'' (skip_ws r1) = Some r2" "raw_value (skip_ws r2) = Some (raw, r3)"
    by (auto simp: raw_member_def bind_eq_Some_conv)
  show ?thesis
    using expect_char_shorter [OF *(1)] json_chars_shorter [OF *(2)] expect_char_shorter [OF *(3)]
      raw_value_le [OF *(4)] skip_ws_le [of r1] skip_ws_le [of r2] by linarith
qed

lemma raw_members_shorter:
  "raw_members s = Some ms \<Longrightarrow> (k, raw) \<in> set ms \<Longrightarrow> length raw < length s"
proof (induction s arbitrary: ms rule: raw_members.induct)
  case (1 s)
  from "1.prems"(1) obtain m c t where m: "raw_member s = Some (m, c # t)"
    by (subst (asm) raw_members.simps) (auto split: option.splits prod.splits list.splits)
  have rest: "length raw < length s" if "raw_members (skip_ws t) = Some ms'" "(k, raw) \<in> set ms'" "c = CHR '',''" for ms'
    using "1.IH" [OF m refl refl _ _ that(1,2)] that(3) raw_member_shorter [OF m] skip_ws_le [of t]
    by simp
  from "1.prems" m show ?case
    by (subst (asm) raw_members.simps)
      (auto split: if_splits dest: raw_member_value_shorter rest)
qed

lemma raw_map_shorter:
  assumes "raw_map raw = Some obj" and "fmlookup obj k = Some r"
  shows "length r < length raw"
proof -
  from assms(1) obtain v where v: "whole_value raw = Some v" and
    obj: "(if v = null then Some fmempty
       else map_option (\<lambda>ms. fold (\<lambda>(k, r) m. fmupd k r m) ms fmempty) (raw_object v)) = Some obj"
    by (auto simp: raw_map_def bind_eq_Some_conv)
  obtain ms where ms: "raw_object v = Some ms" "(k, r) \<in> set ms"
    using obj assms(2) by (auto split: if_splits dest: fold_upd_lookup)
  then obtain s where s: "expect_char CHR ''{'' v = Some s" "raw_members (skip_ws s) = Some ms"
    by (auto simp: raw_object_def bind_eq_Some_conv split: if_splits)
  have "length v \<le> length raw"
    using v raw_value_le [of "skip_ws raw"] skip_ws_le [of raw]
    by (fastforce simp: whole_value_def split: if_splits)
  then show ?thesis
    using raw_members_shorter [OF s(2) ms(2)] expect_char_shorter [OF s(1)] skip_ws_le [of s] by simp
qed

lemma json_decode_nonempty: "json_decode raw = Some v \<Longrightarrow> raw \<noteq> []"
  by (auto simp: json_decode_def skip_ws_def)

lemma raw_map_nonempty: "raw_map raw = Some obj \<Longrightarrow> raw \<noteq> []"
  using json_decode_nonempty by (auto simp: raw_map_def whole_value_def bind_eq_Some_conv split: if_splits)

subsection \<open>Decoders\<close>

type_synonym 'a decoder = "string \<Rightarrow> 'a \<Rightarrow> 'a option"

definition dec_string :: "string decoder" where
  "dec_string raw old =
     (if raw = null then Some old else Option.bind (json_decode raw) unmarshal_string)"

definition dec_int64 :: "int64 decoder" where
  "dec_int64 raw old =
     (if raw = null then Some old else Option.bind (json_decode raw) unmarshal_int64)"

text \<open>\<open>json.RawMessage\<close> keeps the text, that of \<open>null\<close> too.\<close>

definition dec_raw :: "string decoder" where "dec_raw raw old = Some raw"

text \<open>\<open>time.Time\<close> reads the bytes between the quotes, escapes and all.\<close>

definition dec_time :: "time decoder" where
  "dec_time raw old =
     (if raw = null then Some old
      else if length raw < 2 \<or> hd raw \<noteq> CHR 0x22 \<or> last raw \<noteq> CHR 0x22 then None
      else ParseRFC3339 (butlast (tl raw)))"

definition dec_pointer :: "'a decoder \<Rightarrow> 'a \<Rightarrow> 'a option decoder" where
  "dec_pointer dec zero raw old =
     (if raw = null then Some None
      else map_option Some (dec raw (case old of None \<Rightarrow> zero | Some v \<Rightarrow> v)))"

text \<open>The elements of an array go into the elements the slice has already, then into new ones.\<close>

fun dec_elements :: "'a decoder \<Rightarrow> 'a \<Rightarrow> string list \<Rightarrow> 'a list \<Rightarrow> 'a list option" where
  "dec_elements dec zero [] olds = Some []"
| "dec_elements dec zero (raw # raws) olds =
     Option.bind (dec raw (case olds of [] \<Rightarrow> zero | v # _ \<Rightarrow> v)) (\<lambda>v.
       map_option ((#) v) (dec_elements dec zero raws (tl olds)))"

definition dec_slice :: "'a decoder \<Rightarrow> 'a \<Rightarrow> 'a list decoder" where
  "dec_slice dec zero raw old =
     (if raw = null then Some []
      else Option.bind (raw_array raw) (\<lambda>raws. dec_elements dec zero raws old))"

text \<open>
  A member goes to the field whose name it folds to: letters without their case, with the
  two letters outside ASCII that fold into it, the long s and the Kelvin sign.
\<close>

fun fold_name :: "string \<Rightarrow> string" where
  "fold_name [] = []"
| "fold_name (c # s) =
     (if c = CHR 0xC5 \<and> HasPrefix s [CHR 0xBF] then CHR ''S'' # fold_name (drop 1 s)
      else if c = CHR 0xE2 \<and> HasPrefix s [CHR 0x84, CHR 0xAA] then CHR ''K'' # fold_name (drop 2 s)
      else upper_char c # fold_name s)"

type_synonym 'r field = "string \<times> 'r decoder"

definition dec_field :: "('r \<Rightarrow> 'a) \<Rightarrow> (('a \<Rightarrow> 'a) \<Rightarrow> 'r \<Rightarrow> 'r) \<Rightarrow> 'a decoder \<Rightarrow> 'r decoder" where
  "dec_field get update dec raw r = map_option (\<lambda>v. update (\<lambda>_. v) r) (dec raw (get r))"

fun dec_members :: "'r field list \<Rightarrow> (string \<times> string) list \<Rightarrow> 'r \<Rightarrow> 'r option" where
  "dec_members fields [] r = Some r"
| "dec_members fields ((k, raw) # ms) r =
     (case map_of (map (\<lambda>(name, dec). (fold_name name, dec)) fields) (fold_name k) of
        None \<Rightarrow> dec_members fields ms r
      | Some dec \<Rightarrow> Option.bind (dec raw r) (dec_members fields ms))"

definition dec_struct :: "'r field list \<Rightarrow> 'r decoder" where
  "dec_struct fields raw r =
     (if raw = null then Some r
      else Option.bind (raw_object raw) (\<lambda>ms. dec_members fields ms r))"

text \<open>A member no field has a name for is skipped.\<close>

lemma dec_members_unknown:
  assumes "fold_name k \<notin> set (map (fold_name \<circ> fst) fields)"
  shows "dec_members fields ((k, raw) # ms) r = dec_members fields ms r"
proof -
  have "map_of (map (\<lambda>(name, dec). (fold_name name, dec)) fields) (fold_name k) = None"
    using assms by (force simp: map_of_eq_None_iff)
  then show ?thesis by simp
qed

lemma dec_members_append:
  "dec_members fields (ms @ ms') r = Option.bind (dec_members fields ms r) (dec_members fields ms')"
  by (induction fields ms r rule: dec_members.induct) (auto split: option.split bind_split)

end
