(* ===== verification/RuleBuilder.thy ===== *)
theory RuleBuilder
  imports RuleModel JsonStruct
begin

text \<open>
  \<open>internal/rulestore/builder.go\<close>: building a snapshot from published configurations,
  applying a delta of published changes to one, and parsing the rules of a configuration.
  Every error of the code is a constructor of \<open>build_error\<close>, with the values its message
  shows; an in-place update of a Go map is the updated \<open>fmap\<close>.
\<close>

record PublishedConfig =
  pc_ApplicationCode :: string
  pc_ConfigID :: string
  pc_RuleName :: string
  pc_RuleType :: string
  pc_Content :: string
  pc_ContentChecksum :: string
  pc_AggregateChecksum :: string
  pc_RuleCount :: int64

record PublishedChange =
  ch_Operation :: string
  ch_FromSnapshotVersion :: int64
  ch_ToSnapshotVersion :: int64
  ch_ApplicationCode :: string
  ch_ConfigID :: string
  ch_PreviousChecksum :: string
  ch_CurrentChecksum :: string
  ch_Config :: "PublishedConfig option"

datatype build_error =
    ErrApplicationCodeRequired
  | ErrConfigIDRequired
  | ErrParseContent string
  | ErrDeclaredRulesMissing string int64
  | ErrNoRules string
  | ErrParseRule string nat
  | ErrRuleIDRequired string nat
  | ErrQuotaNotPositive string string
  | ErrWindowNotPositive string string
  | ErrDuplicateRuleID string string string string
  | ErrVersionMustAdvance int64 int64
  | ErrTargetChecksumRequired
  | ErrUnexpectedFromVersion string string int64 int64
  | ErrUnexpectedToVersion string string int64 int64
  | ErrChangeHasNoConfig string string
  | ErrUnsupportedOperation string
  | ErrChecksumApplicationMissing string string string
  | ErrChecksumConfigMissing string string string
  | ErrChecksumMismatch string string string string

subsection \<open>Reading the members of an object\<close>

fun rawString :: "(string, string) fmap \<Rightarrow> string list \<Rightarrow> string" where
  "rawString obj [] = []"
| "rawString obj (name # names) =
     (case fmlookup obj name of
        None \<Rightarrow> rawString obj names
      | Some raw \<Rightarrow>
          (case decode_into unmarshal_string raw of
             Some value \<Rightarrow> TrimSpace value
           | None \<Rightarrow>
               (case decode_into unmarshal_number raw of
                  Some number \<Rightarrow> number
                | None \<Rightarrow> rawString obj names)))"

text \<open>
  \<open>rawInt64\<close> calls itself on a nested object, whose members are shorter texts; the fuel counts
  the calls, and \<open>rawInt64\<close> gives more than the longest member can use
  (\<open>rawInt64_fuel_enough\<close> in RuleContents).
\<close>

fun rawInt64_fuel :: "nat \<Rightarrow> (string, string) fmap \<Rightarrow> string list \<Rightarrow> int64" where
  "rawInt64_fuel n obj [] = 0"
| "rawInt64_fuel 0 obj (name # names) = 0"
| "rawInt64_fuel (Suc n) obj (name # names) =
     (case fmlookup obj name of
        None \<Rightarrow> rawInt64_fuel (Suc n) obj names
      | Some raw \<Rightarrow>
          (case decode_into unmarshal_int64 raw of
             Some integer \<Rightarrow> integer
           | None \<Rightarrow>
               (case decode_into unmarshal_float64 raw of
                  Some float \<Rightarrow> int64_of_float float
                | None \<Rightarrow>
                    (case decode_into unmarshal_string raw of
                       Some text \<Rightarrow> fst (ParseInt (TrimSpace text))
                     | None \<Rightarrow>
                         (case raw_map raw of
                            Some object \<Rightarrow> rawInt64_fuel n object [''seconds'', ''value'', ''size'']
                          | None \<Rightarrow> rawInt64_fuel (Suc n) obj names)))))"

definition members_length :: "(string, string) fmap \<Rightarrow> string list \<Rightarrow> nat" where
  "members_length obj names =
     fold max (map (\<lambda>n. case fmlookup obj n of None \<Rightarrow> 0 | Some raw \<Rightarrow> length raw) names) 0"

definition rawInt64 :: "(string, string) fmap \<Rightarrow> string list \<Rightarrow> int64" where
  "rawInt64 obj names = rawInt64_fuel (Suc (members_length obj names)) obj names"

fun rawArray :: "(string, string) fmap \<Rightarrow> string list \<Rightarrow> string list" where
  "rawArray obj [] = []"
| "rawArray obj (name # names) =
     (case fmlookup obj name of
        None \<Rightarrow> rawArray obj names
      | Some raw \<Rightarrow>
          (case raw_list raw of
             Some values \<Rightarrow> values
           | None \<Rightarrow> rawArray obj names))"

fun rawStringArray :: "(string, string) fmap \<Rightarrow> string list \<Rightarrow> string list option" where
  "rawStringArray obj [] = None"
| "rawStringArray obj (name # names) =
     (case fmlookup obj name of
        None \<Rightarrow> rawStringArray obj names
      | Some raw \<Rightarrow>
          (case decode_into unmarshal_strings raw of
             Some values \<Rightarrow> values
           | None \<Rightarrow>
               (case raw_list raw of
                  None \<Rightarrow> rawStringArray obj names
                | Some rawValues \<Rightarrow>
                    Some (concat (map (\<lambda>rawValue.
                       case decode_into unmarshal_string rawValue of Some value \<Rightarrow> [value] | None \<Rightarrow> [])
                       rawValues)))))"

fun rawStringMap :: "(string, string) fmap \<Rightarrow> string list \<Rightarrow> (string, string) fmap option" where
  "rawStringMap obj [] = None"
| "rawStringMap obj (name # names) =
     (case fmlookup obj name of
        None \<Rightarrow> rawStringMap obj names
      | Some raw \<Rightarrow>
          (case decode_into unmarshal_string_map raw of
             Some values \<Rightarrow> values
           | None \<Rightarrow>
               (case decode_into unmarshal_any_map raw of
                  None \<Rightarrow> rawStringMap obj names
                | Some generic \<Rightarrow> Some generic)))"

subsection \<open>parseRules\<close>

definition parseRule ::
    "PublishedConfig \<Rightarrow> int64 \<Rightarrow> string \<Rightarrow> nat \<Rightarrow> string \<Rightarrow> build_error + Rule" where
  "parseRule cfg snapshotVersion schemaVersion index raw =
     (case raw_map raw of
        None \<Rightarrow> Inl (ErrParseRule (pc_ConfigID cfg) index)
      | Some item \<Rightarrow>
          (let ruleID = rawString item [''ruleId'', ''rule_id'', ''id'', ''configId'', ''config_id''];
               name0 = rawString item [''name'', ''ruleName'', ''rule_name''];
               name = (if name0 = [] then pc_RuleName cfg else name0);
               schema0 = rawString item [''schemaVersion'', ''schema_version''];
               ruleSchema = (if schema0 = [] then schemaVersion else schema0);
               quota = rawInt64 item [''quota'', ''limit'', ''permits''];
               windowSeconds = rawInt64 item [''windowSeconds'', ''window_seconds'', ''window''] in
           if ruleID = [] then Inl (ErrRuleIDRequired (pc_ConfigID cfg) index)
           else if quota \<le>s 0 then Inl (ErrQuotaNotPositive (pc_ConfigID cfg) ruleID)
           else if windowSeconds \<le>s 0 then Inl (ErrWindowNotPositive (pc_ConfigID cfg) ruleID)
           else Inr
             \<lparr>rule_ApplicationCode = pc_ApplicationCode cfg,
              rule_ConfigID = pc_ConfigID cfg,
              rule_RuleID = ruleID,
              rule_Name = name,
              rule_SnapshotVersion = snapshotVersion,
              rule_Checksum = chooseString [pc_ContentChecksum cfg, pc_AggregateChecksum cfg],
              rule_SchemaVersion = ruleSchema,
              rule_Algorithm = chooseString [rawString item [''algorithm''], ''fixed_window''],
              rule_Quota = quota,
              rule_WindowSeconds = windowSeconds,
              rule_Burst = rawInt64 item [''burst'', ''burstCapacity'', ''burst_capacity''],
              rule_Dimensions = rawStringArray item [''dimensions''],
              rule_FailPolicy =
                chooseString [rawString item [''failPolicy'', ''fail_policy''], ''fail_closed''],
              rule_Attributes = rawStringMap item [''attributes'', ''metadata''],
              rule_Raw = Some raw\<rparr>))"

text \<open>The loop over the rule array, with the index of the element it is at.\<close>

fun parseRules_loop ::
    "PublishedConfig \<Rightarrow> int64 \<Rightarrow> string \<Rightarrow> nat \<Rightarrow> string list \<Rightarrow> build_error + Rule list" where
  "parseRules_loop cfg v schema i [] = Inr []"
| "parseRules_loop cfg v schema i (raw # raws) =
     (case parseRule cfg v schema i raw of
        Inl e \<Rightarrow> Inl e
      | Inr r \<Rightarrow>
          (case parseRules_loop cfg v schema (Suc i) raws of
             Inl e \<Rightarrow> Inl e
           | Inr rs \<Rightarrow> Inr (r # rs)))"

definition rawRules_of :: "(string, string) fmap \<Rightarrow> string list" where
  "rawRules_of obj =
     (let rawRules = rawArray obj [''rules''] in
      if rawRules = []
      then rawArray obj [''limit'', ''limits'', ''rateLimits'', ''rate_limits'', ''distributedRateLimits'']
      else rawRules)"

definition parseRules :: "PublishedConfig \<Rightarrow> int64 \<Rightarrow> string \<Rightarrow> build_error + Rule list" where
  "parseRules cfg snapshotVersion content =
     (case raw_map content of
        None \<Rightarrow> Inl (ErrParseContent (pc_ConfigID cfg))
      | Some obj \<Rightarrow>
          (let schemaVersion = rawString obj [''schemaVersion'', ''schema_version''];
               rawRules = rawRules_of obj in
           if rawRules = [] then
             (if 0 <s pc_RuleCount cfg
              then Inl (ErrDeclaredRulesMissing (pc_ConfigID cfg) (pc_RuleCount cfg))
              else Inl (ErrNoRules (pc_ConfigID cfg)))
           else parseRules_loop cfg snapshotVersion schemaVersion 0 rawRules))"

subsection \<open>Configurations\<close>

definition deleteRulesForConfig :: "string \<Rightarrow> (string, Rule) fmap \<Rightarrow> (string, Rule) fmap" where
  "deleteRulesForConfig configID rules =
     delete_where (\<lambda>id rule. rule_ConfigID rule = configID) rules"

definition deleteConfig :: "string \<Rightarrow> string \<Rightarrow> Snapshot \<Rightarrow> Snapshot" where
  "deleteConfig applicationCode configID snapshot =
     (case fmlookup (snap_Apps snapshot) applicationCode of
        None \<Rightarrow> snapshot
      | Some app \<Rightarrow>
          (let configs = fmdrop configID (app_Configs app);
               rules = deleteRulesForConfig configID (app_Rules app) in
           if go_len configs = 0 \<and> go_len rules = 0
           then snapshot\<lparr>snap_Apps := fmdrop applicationCode (snap_Apps snapshot)\<rparr>
           else snapshot\<lparr>snap_Apps := fmupd applicationCode
                  (app\<lparr>app_Configs := configs, app_Rules := rules,
                       app_Version := snap_Version snapshot,
                       app_Checksum := snap_Checksum snapshot\<rparr>) (snap_Apps snapshot)\<rparr>))"

definition new_Application :: "string \<Rightarrow> Application" where
  "new_Application code =
     \<lparr>app_Code = code, app_Version = 0, app_Checksum = [], app_Configs = fmempty,
      app_Rules = fmempty\<rparr>"

definition config_content :: "PublishedConfig \<Rightarrow> string" where
  "config_content cfg =
     (let content = TrimSpace (pc_Content cfg) in if content = [] then ''{}'' else content)"

definition published_config :: "PublishedConfig \<Rightarrow> Config" where
  "published_config cfg =
     \<lparr>cfg_ApplicationCode = pc_ApplicationCode cfg,
      cfg_ConfigID = pc_ConfigID cfg,
      cfg_RuleName = pc_RuleName cfg,
      cfg_RuleType = pc_RuleType cfg,
      cfg_Content = Some (config_content cfg),
      cfg_ContentChecksum = chooseString [pc_ContentChecksum cfg, pc_AggregateChecksum cfg],
      cfg_AggregateChecksum = pc_AggregateChecksum cfg,
      cfg_RuleCount = pc_RuleCount cfg\<rparr>"

text \<open>Adding one parsed rule: an id that another configuration already uses is an error.\<close>

definition insertRule ::
    "PublishedConfig \<Rightarrow> Rule \<Rightarrow> (string, Rule) fmap \<Rightarrow> build_error + (string, Rule) fmap" where
  "insertRule cfg rule rules =
     (case fmlookup rules (rule_RuleID rule) of
        Some existing \<Rightarrow>
          (if rule_ConfigID existing \<noteq> pc_ConfigID cfg
           then Inl (ErrDuplicateRuleID (rule_RuleID rule) (pc_ApplicationCode cfg)
                  (rule_ConfigID existing) (pc_ConfigID cfg))
           else Inr (fmupd (rule_RuleID rule) rule rules))
      | None \<Rightarrow> Inr (fmupd (rule_RuleID rule) rule rules))"

definition trimmed_config :: "PublishedConfig \<Rightarrow> PublishedConfig" where
  "trimmed_config cfg =
     cfg\<lparr>pc_ApplicationCode := TrimSpace (pc_ApplicationCode cfg),
         pc_ConfigID := TrimSpace (pc_ConfigID cfg)\<rparr>"

definition existing_app :: "Snapshot \<Rightarrow> string \<Rightarrow> Application" where
  "existing_app snapshot code =
     (case fmlookup (snap_Apps snapshot) code of
        None \<Rightarrow> new_Application code
      | Some app \<Rightarrow> (if app_Code app = [] then new_Application code else app))"

definition applyConfig :: "PublishedConfig \<Rightarrow> Snapshot \<Rightarrow> build_error + Snapshot" where
  "applyConfig cfg0 snapshot =
     (let cfg = trimmed_config cfg0; code = pc_ApplicationCode cfg; cid = pc_ConfigID cfg in
      if code = [] then Inl ErrApplicationCodeRequired
      else if cid = [] then Inl ErrConfigIDRequired
      else
        (let app = existing_app snapshot code;
             rules = deleteRulesForConfig cid (app_Rules app) in
         case parseRules cfg (snap_Version snapshot) (config_content cfg) of
           Inl e \<Rightarrow> Inl e
         | Inr parsed \<Rightarrow>
             (case fold_result (insertRule cfg) parsed rules of
                Inl e \<Rightarrow> Inl e
              | Inr rules' \<Rightarrow>
                  Inr (snapshot\<lparr>snap_Apps := fmupd code
                    (app\<lparr>app_Version := snap_Version snapshot,
                         app_Checksum := snap_Checksum snapshot,
                         app_Configs := fmupd cid (published_config cfg) (app_Configs app),
                         app_Rules := rules'\<rparr>) (snap_Apps snapshot)\<rparr>))))"

definition BuildSnapshot ::
    "int64 \<Rightarrow> string \<Rightarrow> time \<Rightarrow> PublishedConfig list \<Rightarrow> build_error + Snapshot" where
  "BuildSnapshot version checksum generatedAt configs =
     fold_result applyConfig configs
       \<lparr>snap_Version = version, snap_Checksum = checksum, snap_GeneratedAt = generatedAt,
        snap_Apps = fmempty\<rparr>"

subsection \<open>Deltas\<close>

definition validatePreviousChecksum :: "Snapshot \<Rightarrow> PublishedChange \<Rightarrow> build_error option" where
  "validatePreviousChecksum snapshot change =
     (let expected = TrimSpace (ch_PreviousChecksum change) in
      if expected = [] then None
      else case fmlookup (snap_Apps snapshot) (TrimSpace (ch_ApplicationCode change)) of
        None \<Rightarrow> Some (ErrChecksumApplicationMissing (ch_ApplicationCode change) (ch_ConfigID change) expected)
      | Some app \<Rightarrow>
          (case fmlookup (app_Configs app) (TrimSpace (ch_ConfigID change)) of
             None \<Rightarrow> Some (ErrChecksumConfigMissing (ch_ApplicationCode change) (ch_ConfigID change) expected)
           | Some cfg \<Rightarrow>
               (let actual = chooseString [cfg_ContentChecksum cfg, cfg_AggregateChecksum cfg] in
                if actual \<noteq> expected
                then Some (ErrChecksumMismatch (ch_ApplicationCode change) (ch_ConfigID change) actual expected)
                else None)))"

definition validateCurrentChecksum :: "Snapshot \<Rightarrow> PublishedChange \<Rightarrow> build_error option" where
  "validateCurrentChecksum snapshot change =
     (let expected0 = TrimSpace (ch_CurrentChecksum change);
          expected = (case ch_Config change of
             Some cfg \<Rightarrow>
               (if expected0 = []
                then chooseString [pc_ContentChecksum cfg, pc_AggregateChecksum cfg] else expected0)
           | None \<Rightarrow> expected0) in
      if expected = [] then None
      else case fmlookup (snap_Apps snapshot) (TrimSpace (ch_ApplicationCode change)) of
        None \<Rightarrow> Some (ErrChecksumApplicationMissing (ch_ApplicationCode change) (ch_ConfigID change) expected)
      | Some app \<Rightarrow>
          (case fmlookup (app_Configs app) (TrimSpace (ch_ConfigID change)) of
             None \<Rightarrow> Some (ErrChecksumConfigMissing (ch_ApplicationCode change) (ch_ConfigID change) expected)
           | Some cfg \<Rightarrow>
               (let actual = chooseString [cfg_ContentChecksum cfg, cfg_AggregateChecksum cfg] in
                if actual \<noteq> expected
                then Some (ErrChecksumMismatch (ch_ApplicationCode change) (ch_ConfigID change) actual expected)
                else None)))"

definition delete_operations :: "string list" where
  "delete_operations = [''DELETE'', ''REMOVE'', ''DELETED'']"

definition upsert_operations :: "string list" where
  "upsert_operations = [''UPSERT'', ''UPDATE'', ''CREATE'', ''CREATED'', ''UPDATED'']"

definition applyChange ::
    "int64 \<Rightarrow> int64 \<Rightarrow> PublishedChange \<Rightarrow> Snapshot \<Rightarrow> build_error + Snapshot" where
  "applyChange currentVersion toVersion change s =
     (let operation = ToUpper (TrimSpace (ch_Operation change)) in
      if ch_FromSnapshotVersion change \<noteq> 0 \<and> ch_FromSnapshotVersion change \<noteq> currentVersion
      then Inl (ErrUnexpectedFromVersion (ch_ApplicationCode change) (ch_ConfigID change)
             (ch_FromSnapshotVersion change) currentVersion)
      else if ch_ToSnapshotVersion change \<noteq> 0 \<and> ch_ToSnapshotVersion change \<noteq> toVersion
      then Inl (ErrUnexpectedToVersion (ch_ApplicationCode change) (ch_ConfigID change)
             (ch_ToSnapshotVersion change) toVersion)
      else if operation \<in> set delete_operations then
        (case validatePreviousChecksum s change of
           Some e \<Rightarrow> Inl e
         | None \<Rightarrow> Inr (deleteConfig (ch_ApplicationCode change) (ch_ConfigID change) s))
      else if operation \<in> set upsert_operations then
        (case ch_Config change of
           None \<Rightarrow> Inl (ErrChangeHasNoConfig (ch_ApplicationCode change) (ch_ConfigID change))
         | Some cfg \<Rightarrow>
             (case applyConfig cfg s of
                Inl e \<Rightarrow> Inl e
              | Inr s' \<Rightarrow>
                  (case validateCurrentChecksum s' change of
                     Some e \<Rightarrow> Inl e
                   | None \<Rightarrow> Inr s')))
      else Inl (ErrUnsupportedOperation (ch_Operation change)))"

definition ApplyChanges ::
    "Snapshot \<Rightarrow> int64 \<Rightarrow> string \<Rightarrow> time \<Rightarrow> PublishedChange list \<Rightarrow> build_error + Snapshot" where
  "ApplyChanges current toVersion toChecksum generatedAt changes =
     (if toVersion \<le>s snap_Version current
      then Inl (ErrVersionMustAdvance (snap_Version current) toVersion)
      else if TrimSpace toChecksum = [] then Inl ErrTargetChecksumRequired
      else fold_result (applyChange (snap_Version current) toVersion) changes
             ((Snapshot_Clone current)\<lparr>snap_Version := toVersion, snap_Checksum := toChecksum,
                snap_GeneratedAt := generatedAt\<rparr>))"

end
