(* ===== verification/RuleContents.thy ===== *)
theory RuleContents
  imports RuleBuilder
begin

text \<open>
  What the builder's loops compute: the facts about \<open>parseRules\<close>, \<open>insertRule\<close>,
  \<open>applyConfig\<close> and \<open>deleteConfig\<close> that the invariant and the refinement rest on.
\<close>

subsection \<open>Nested integers: the fuel is enough\<close>

lemma fold_max_ge: "x \<in> set xs \<or> x \<le> a \<Longrightarrow> x \<le> fold max xs (a :: nat)"
proof (induction xs arbitrary: a)
  case (Cons y ys)
  from Cons.prems have "x \<in> set ys \<or> x \<le> max y a" by auto
  then show ?case by (simp add: Cons.IH)
qed simp

lemma fold_max_le: "fold max xs (a :: nat) \<le> b \<longleftrightarrow> a \<le> b \<and> (\<forall>x \<in> set xs. x \<le> b)"
  by (induction xs arbitrary: a) auto

lemma raw_map_members_length:
  assumes "raw_map raw = Some object"
  shows "members_length object names < length raw"
proof -
  have "(case fmlookup object n of None \<Rightarrow> 0 | Some r \<Rightarrow> length r) \<le> length raw - 1" for n
    using raw_map_shorter [OF assms, of n] by (cases "fmlookup object n") auto
  then have "members_length object names \<le> length raw - 1"
    by (auto simp: members_length_def fold_max_le)
  then show ?thesis using raw_map_nonempty [OF assms] by (cases raw) auto
qed

lemma rawInt64_fuel_step:
  "members_length obj names < n \<Longrightarrow> rawInt64_fuel (Suc n) obj names = rawInt64_fuel n obj names"
proof (induction n obj names rule: rawInt64_fuel.induct)
  case (3 n obj name names)
  have tl: "members_length obj names < Suc n"
    using "3.prems" by (auto simp: members_length_def fold_max_le less_Suc_eq_le)
  show ?case
  proof (cases "fmlookup obj name")
    case None
    then show ?thesis using "3.IH"(1) tl by simp
  next
    case (Some raw)
    have "length raw \<le> n"
      using "3.prems" Some by (auto simp: members_length_def fold_max_le less_Suc_eq_le)
    then have "members_length object ns < n" if "raw_map raw = Some object" for object ns
      using raw_map_members_length [OF that] less_le_trans by blast
    then show ?thesis using Some "3.IH"(2,3) tl
      by (auto split: option.splits)
  qed
qed simp_all

lemma rawInt64_fuel_enough:
  assumes "members_length obj names < n"
  shows "rawInt64_fuel n obj names = rawInt64 obj names"
  using assms
proof (induction n)
  case (Suc n)
  show ?case
  proof (cases "members_length obj names = n")
    case True
    then show ?thesis by (simp only: rawInt64_def)
  next
    case False
    with Suc.prems have "members_length obj names < n" by simp
    then show ?thesis using Suc.IH rawInt64_fuel_step by simp
  qed
qed simp

subsection \<open>parseRules\<close>

lemma not_sle_0: "\<not> w \<le>s 0 \<longleftrightarrow> 0 <s (w :: int64)"
  by (simp add: word_sle_eq word_sless_alt not_le)

lemma parseRule_Inr:
  assumes "parseRule cfg v schema i raw = Inr r"
  shows "rule_ApplicationCode r = pc_ApplicationCode cfg" "rule_ConfigID r = pc_ConfigID cfg"
    "rule_RuleID r \<noteq> []" "rule_SnapshotVersion r = v" "0 <s rule_Quota r" "0 <s rule_WindowSeconds r"
    "rule_Checksum r = chooseString [pc_ContentChecksum cfg, pc_AggregateChecksum cfg]"
proof -
  obtain item where item: "raw_map raw = Some item"
    using assms by (cases "raw_map raw") (simp_all add: parseRule_def)
  note r = assms [unfolded parseRule_def item option.case Let_def]
  from r show "rule_RuleID r \<noteq> []" "rule_SnapshotVersion r = v"
    "rule_ApplicationCode r = pc_ApplicationCode cfg" "rule_ConfigID r = pc_ConfigID cfg"
    "rule_Checksum r = chooseString [pc_ContentChecksum cfg, pc_AggregateChecksum cfg]"
    by (auto split: if_splits simp del: chooseString.simps)
  from r show "0 <s rule_Quota r" "0 <s rule_WindowSeconds r"
    by (auto simp flip: not_sle_0 split: if_splits simp del: chooseString.simps)
qed

lemma parseRules_loop_set:
  "parseRules_loop cfg v schema i raws = Inr rs \<Longrightarrow> r \<in> set rs \<Longrightarrow>
   \<exists>j raw. parseRule cfg v schema j raw = Inr r"
  by (induction cfg v schema i raws arbitrary: rs rule: parseRules_loop.induct)
    (auto split: sum.splits, blast)

lemma parseRules_loop_length:
  "parseRules_loop cfg v schema i raws = Inr rs \<Longrightarrow> length rs = length raws"
  by (induction cfg v schema i raws arbitrary: rs rule: parseRules_loop.induct)
    (auto split: sum.splits)

lemma parseRules_Inr:
  assumes "parseRules cfg v content = Inr rs"
  shows "rs \<noteq> []" and "\<And>r. r \<in> set rs \<Longrightarrow> \<exists>schema j raw. parseRule cfg v schema j raw = Inr r"
proof -
  obtain obj where obj: "rawRules_of obj \<noteq> []"
    "parseRules_loop cfg v (rawString obj [''schemaVersion'', ''schema_version'']) 0 (rawRules_of obj)
       = Inr rs"
    using assms by (auto simp: parseRules_def Let_def split: option.splits if_splits)
  from parseRules_loop_length [OF obj(2)] obj(1) show "rs \<noteq> []" by auto
  show "\<And>r. r \<in> set rs \<Longrightarrow> \<exists>schema j raw. parseRule cfg v schema j raw = Inr r"
    using parseRules_loop_set [OF obj(2)] by blast
qed

text \<open>What the checks of the parser establish about a rule of a configuration.\<close>

definition rule_ok :: "PublishedConfig \<Rightarrow> Rule \<Rightarrow> bool" where
  "rule_ok cfg r \<longleftrightarrow>
     rule_ApplicationCode r = pc_ApplicationCode cfg \<and> rule_ConfigID r = pc_ConfigID cfg \<and>
     rule_RuleID r \<noteq> [] \<and> 0 <s rule_Quota r \<and> 0 <s rule_WindowSeconds r \<and>
     rule_Checksum r = chooseString [pc_ContentChecksum cfg, pc_AggregateChecksum cfg]"

lemma parseRules_ok:
  "parseRules cfg v content = Inr rs \<Longrightarrow> r \<in> set rs \<Longrightarrow> rule_ok cfg r \<and> rule_SnapshotVersion r = v"
  using parseRules_Inr(2) parseRule_Inr unfolding rule_ok_def by metis

text \<open>The snapshot version only stamps the parsed rules.\<close>

definition stamp :: "int64 \<Rightarrow> Rule \<Rightarrow> Rule" where
  "stamp v r = r\<lparr>rule_SnapshotVersion := v\<rparr>"

lemma stamp_simps [simp]:
  "stamp v (stamp w r) = stamp v r" "rule_RuleID (stamp v r) = rule_RuleID r"
  "rule_ConfigID (stamp v r) = rule_ConfigID r" "stamp (rule_SnapshotVersion r) r = r"
  by (simp_all add: stamp_def)

lemma parseRule_stamp:
  "parseRule cfg v schema i raw = map_sum id (stamp v) (parseRule cfg w schema i raw)"
  by (simp add: parseRule_def Let_def stamp_def split: option.split)

lemma parseRules_loop_stamp:
  "parseRules_loop cfg v schema i raws =
     map_sum id (map (stamp v)) (parseRules_loop cfg w schema i raws)"
proof (induction raws arbitrary: i)
  case (Cons raw raws)
  show ?case
    by (simp add: parseRule_stamp [of cfg v schema i raw w] Cons.IH [of "Suc i"] split: sum.split)
qed simp

lemma parseRules_stamp:
  "parseRules cfg v content = map_sum id (map (stamp v)) (parseRules cfg w content)"
  unfolding parseRules_def Let_def
  by (simp split: option.split) (use parseRules_loop_stamp in blast)

subsection \<open>insertRule\<close>

text \<open>The rules of a parsed list by id: of two with one id, the later.\<close>

definition rule_table :: "Rule list \<Rightarrow> (string, Rule) fmap" where
  "rule_table rs = fold (\<lambda>r m. fmupd (rule_RuleID r) r m) rs fmempty"

lemma fold_rules_lookup:
  "fmlookup (fold (\<lambda>r m. fmupd (rule_RuleID r) r m) rs m) k =
     (case fmlookup (rule_table rs) k of Some r \<Rightarrow> Some r | None \<Rightarrow> fmlookup m k)"
proof (induction rs rule: rev_induct)
  case (snoc r rs)
  then show ?case by (simp add: rule_table_def)
qed (simp add: rule_table_def)

lemma rule_table_set:
  "fmlookup (rule_table rs) k = Some r \<Longrightarrow> r \<in> set rs \<and> rule_RuleID r = k"
  by (induction rs rule: rev_induct) (auto simp: rule_table_def split: if_splits)

lemma rule_table_dom: "r \<in> set rs \<Longrightarrow> fmlookup (rule_table rs) (rule_RuleID r) \<noteq> None"
  by (induction rs rule: rev_induct) (auto simp: rule_table_def)

lemma rule_table_stamp: "rule_table (map (stamp v) rs) = fmmap (stamp v) (rule_table rs)"
  by (induction rs rule: rev_induct) (auto simp: rule_table_def intro!: fmap_ext)

text \<open>
  Over rules of one configuration the loop fails exactly when one of the ids is taken by
  another configuration, and otherwise writes the table of the rules over the map.
\<close>

definition id_conflict :: "string \<Rightarrow> (string, Rule) fmap \<Rightarrow> Rule list \<Rightarrow> bool" where
  "id_conflict cid m rs \<longleftrightarrow>
     (\<exists>r \<in> set rs. \<exists>e. fmlookup m (rule_RuleID r) = Some e \<and> rule_ConfigID e \<noteq> cid)"

lemma insertRule_fold:
  assumes "\<And>r. r \<in> set rs \<Longrightarrow> rule_ConfigID r = pc_ConfigID cfg"
  shows "(if id_conflict (pc_ConfigID cfg) m rs
          then \<exists>e. fold_result (insertRule cfg) rs m = Inl e
          else fold_result (insertRule cfg) rs m =
            Inr (fold (\<lambda>r m. fmupd (rule_RuleID r) r m) rs m))"
  using assms
proof (induction rs arbitrary: m)
  case (Cons r rs)
  let ?cid = "pc_ConfigID cfg"
  show ?case
  proof (cases "\<exists>e. fmlookup m (rule_RuleID r) = Some e \<and> rule_ConfigID e \<noteq> ?cid")
    case True
    then show ?thesis by (auto simp: id_conflict_def insertRule_def)
  next
    case False
    then have ins: "insertRule cfg r m = Inr (fmupd (rule_RuleID r) r m)"
      by (auto simp: insertRule_def split: option.split)
    have "id_conflict ?cid m (r # rs) \<longleftrightarrow> id_conflict ?cid (fmupd (rule_RuleID r) r m) rs"
      using False Cons.prems [of r] unfolding id_conflict_def by (auto split: if_splits) metis+
    then show ?thesis using Cons.IH [of "fmupd (rule_RuleID r) r m"] Cons.prems ins by simp
  qed
qed (simp add: id_conflict_def)

subsection \<open>applyConfig\<close>

text \<open>The application that \<open>applyConfig\<close> stores, from the one it found and the parsed rules.\<close>

definition upserted_app :: "Snapshot \<Rightarrow> PublishedConfig \<Rightarrow> Application \<Rightarrow> Rule list \<Rightarrow> Application" where
  "upserted_app s cfg app rs =
     app\<lparr>app_Version := snap_Version s, app_Checksum := snap_Checksum s,
         app_Configs := fmupd (pc_ConfigID cfg) (published_config cfg) (app_Configs app),
         app_Rules := fold (\<lambda>r m. fmupd (rule_RuleID r) r m) rs
           (deleteRulesForConfig (pc_ConfigID cfg) (app_Rules app))\<rparr>"

lemma applyConfig_cases:
  "applyConfig cfg0 s =
     (let cfg = trimmed_config cfg0; code = pc_ApplicationCode cfg;
          app = existing_app s code in
      if code = [] then Inl ErrApplicationCodeRequired
      else if pc_ConfigID cfg = [] then Inl ErrConfigIDRequired
      else case parseRules cfg (snap_Version s) (config_content cfg) of
        Inl e \<Rightarrow> Inl e
      | Inr rs \<Rightarrow>
          (case fold_result (insertRule cfg) rs
              (deleteRulesForConfig (pc_ConfigID cfg) (app_Rules app)) of
            Inl e \<Rightarrow> Inl e
          | Inr rules \<Rightarrow> Inr (s\<lparr>snap_Apps := fmupd code (upserted_app s cfg app rs) (snap_Apps s)\<rparr>)))"
proof -
  let ?cfg = "trimmed_config cfg0"
  let ?m = "deleteRulesForConfig (pc_ConfigID ?cfg) (app_Rules (existing_app s (pc_ApplicationCode ?cfg)))"
  have "rules = fold (\<lambda>r m. fmupd (rule_RuleID r) r m) rs ?m"
    if p: "parseRules ?cfg (snap_Version s) (config_content ?cfg) = Inr rs"
      and f: "fold_result (insertRule ?cfg) rs ?m = Inr rules" for rs rules
  proof -
    have c: "rule_ConfigID r = pc_ConfigID ?cfg" if "r \<in> set rs" for r
      using parseRules_ok [OF p that] by (simp add: rule_ok_def)
    show ?thesis using insertRule_fold [of rs ?cfg ?m] c f by (auto split: if_splits)
  qed
  then show ?thesis
    unfolding applyConfig_def Let_def upserted_app_def by (auto split: sum.split)
qed

lemma applyConfig_Inr:
  assumes "applyConfig cfg0 s = Inr s'"
  obtains cfg rs where
    "cfg = trimmed_config cfg0" "pc_ApplicationCode cfg \<noteq> []" "pc_ConfigID cfg \<noteq> []"
    "parseRules cfg (snap_Version s) (config_content cfg) = Inr rs"
    "\<not> id_conflict (pc_ConfigID cfg)
       (deleteRulesForConfig (pc_ConfigID cfg) (app_Rules (existing_app s (pc_ApplicationCode cfg)))) rs"
    "s' = s\<lparr>snap_Apps := fmupd (pc_ApplicationCode cfg)
       (upserted_app s cfg (existing_app s (pc_ApplicationCode cfg)) rs) (snap_Apps s)\<rparr>"
proof -
  let ?cfg = "trimmed_config cfg0"
  let ?m = "deleteRulesForConfig (pc_ConfigID ?cfg) (app_Rules (existing_app s (pc_ApplicationCode ?cfg)))"
  from assms obtain rs rules where
    a: "pc_ApplicationCode ?cfg \<noteq> []" "pc_ConfigID ?cfg \<noteq> []" and
    p: "parseRules ?cfg (snap_Version s) (config_content ?cfg) = Inr rs" and
    f: "fold_result (insertRule ?cfg) rs ?m = Inr rules" and
    s: "s' = s\<lparr>snap_Apps := fmupd (pc_ApplicationCode ?cfg)
       (upserted_app s ?cfg (existing_app s (pc_ApplicationCode ?cfg)) rs) (snap_Apps s)\<rparr>"
    unfolding applyConfig_cases Let_def by (auto split: if_splits sum.splits)
  have "rule_ConfigID r = pc_ConfigID ?cfg" if "r \<in> set rs" for r
    using parseRules_ok [OF p that] by (simp add: rule_ok_def)
  then have "\<not> id_conflict (pc_ConfigID ?cfg) ?m rs"
    using insertRule_fold [of rs ?cfg ?m] f by (auto split: if_splits)
  with a p s show ?thesis by (intro that) auto
qed

lemma trimmed_config_trimmed:
  "TrimSpace (pc_ApplicationCode (trimmed_config c)) = pc_ApplicationCode (trimmed_config c)"
  "TrimSpace (pc_ConfigID (trimmed_config c)) = pc_ConfigID (trimmed_config c)"
  by (simp_all add: trimmed_config_def)

lemma applyConfig_frame [frame_simps]:
  assumes "applyConfig cfg s = Inr s'"
  shows "snap_Version s' = snap_Version s" "snap_Checksum s' = snap_Checksum s"
    "snap_GeneratedAt s' = snap_GeneratedAt s"
  using assms by (auto elim!: applyConfig_Inr)

lemma deleteConfig_frame [simp]:
  "snap_Version (deleteConfig code cid s) = snap_Version s"
  "snap_Checksum (deleteConfig code cid s) = snap_Checksum s"
  "snap_GeneratedAt (deleteConfig code cid s) = snap_GeneratedAt s"
  by (simp_all add: deleteConfig_def Let_def split: option.split)

subsection \<open>Well-formed snapshots\<close>

text \<open>
  What the builder guarantees of an application: it is stored under its own trimmed code,
  its configurations and rules under their own ids, every rule belongs to one of its
  configurations and carries that configuration's checksum, and has a positive quota and
  window; no configuration is without rules, no application without configurations.
\<close>

definition config_wf :: "string \<Rightarrow> string \<Rightarrow> Config \<Rightarrow> bool" where
  "config_wf code cid c \<longleftrightarrow>
     cfg_ApplicationCode c = code \<and> cfg_ConfigID c = cid \<and> cid \<noteq> [] \<and> TrimSpace cid = cid"

definition rule_wf :: "string \<Rightarrow> (string, Config) fmap \<Rightarrow> string \<Rightarrow> Rule \<Rightarrow> bool" where
  "rule_wf code configs k r \<longleftrightarrow>
     rule_ApplicationCode r = code \<and> rule_RuleID r = k \<and> k \<noteq> [] \<and>
     0 <s rule_Quota r \<and> 0 <s rule_WindowSeconds r \<and>
     (case fmlookup configs (rule_ConfigID r) of
        None \<Rightarrow> False
      | Some c \<Rightarrow> rule_Checksum r = cfg_ContentChecksum c)"

definition app_wf :: "string \<Rightarrow> Application \<Rightarrow> bool" where
  "app_wf code a \<longleftrightarrow>
     app_Code a = code \<and> code \<noteq> [] \<and> TrimSpace code = code \<and> app_Configs a \<noteq> fmempty \<and>
     (\<forall>cid c. fmlookup (app_Configs a) cid = Some c \<longrightarrow> config_wf code cid c \<and>
        (\<exists>k r. fmlookup (app_Rules a) k = Some r \<and> rule_ConfigID r = cid)) \<and>
     (\<forall>k r. fmlookup (app_Rules a) k = Some r \<longrightarrow> rule_wf code (app_Configs a) k r)"

definition snapshot_wf :: "Snapshot \<Rightarrow> bool" where
  "snapshot_wf s \<longleftrightarrow> (\<forall>code a. fmlookup (snap_Apps s) code = Some a \<longrightarrow> app_wf code a)"

lemma snapshot_wf_app: "snapshot_wf s \<Longrightarrow> fmlookup (snap_Apps s) code = Some a \<Longrightarrow> app_wf code a"
  by (simp add: snapshot_wf_def)

lemma app_wf_rule: "app_wf code a \<Longrightarrow> fmlookup (app_Rules a) k = Some r \<Longrightarrow> rule_wf code (app_Configs a) k r"
  by (simp add: app_wf_def)

lemma app_wf_config: "app_wf code a \<Longrightarrow> fmlookup (app_Configs a) cid = Some c \<Longrightarrow> config_wf code cid c"
  by (simp add: app_wf_def)

lemma app_wf_config_rule:
  "app_wf code a \<Longrightarrow> fmlookup (app_Configs a) cid = Some c \<Longrightarrow>
   \<exists>k r. fmlookup (app_Rules a) k = Some r \<and> rule_ConfigID r = cid"
  by (simp add: app_wf_def)

lemma app_wf_rule_config:
  "app_wf code a \<Longrightarrow> fmlookup (app_Rules a) k = Some r \<Longrightarrow>
   \<exists>c. fmlookup (app_Configs a) (rule_ConfigID r) = Some c \<and> rule_Checksum r = cfg_ContentChecksum c"
  by (auto simp: rule_wf_def dest!: app_wf_rule split: option.splits)

lemma snapshot_wf_fmupd:
  "snapshot_wf s \<Longrightarrow> app_wf code a \<Longrightarrow> snapshot_wf (s\<lparr>snap_Apps := fmupd code a (snap_Apps s)\<rparr>)"
  by (auto simp: snapshot_wf_def)

lemma snapshot_wf_fmdrop:
  "snapshot_wf s \<Longrightarrow> snapshot_wf (s\<lparr>snap_Apps := fmdrop code (snap_Apps s)\<rparr>)"
  by (auto simp: snapshot_wf_def split: if_splits)

lemma deleteRules_lookup:
  "fmlookup (deleteRulesForConfig cid m) k =
     (case fmlookup m k of None \<Rightarrow> None | Some r \<Rightarrow> if rule_ConfigID r = cid then None else Some r)"
  by (simp add: deleteRulesForConfig_def split: option.split)

lemma upserted_configs:
  "fmlookup (app_Configs (upserted_app s cfg app rs)) c =
     (if c = pc_ConfigID cfg then Some (published_config cfg) else fmlookup (app_Configs app) c)"
  by (auto simp: upserted_app_def)

lemma upserted_rules:
  "fmlookup (app_Rules (upserted_app s cfg app rs)) k =
     (case fmlookup (rule_table rs) k of
        Some r \<Rightarrow> Some r
      | None \<Rightarrow>
          (case fmlookup (app_Rules app) k of
             None \<Rightarrow> None
           | Some r \<Rightarrow> if rule_ConfigID r = pc_ConfigID cfg then None else Some r))"
  by (simp add: upserted_app_def fold_rules_lookup deleteRules_lookup split: option.split)

text \<open>Without a conflict, the rules of the other configurations survive an upsert.\<close>

lemma upserted_keeps_rule:
  assumes "\<not> id_conflict (pc_ConfigID cfg) (deleteRulesForConfig (pc_ConfigID cfg) (app_Rules app)) rs"
    and "fmlookup (app_Rules app) k = Some r" and "rule_ConfigID r \<noteq> pc_ConfigID cfg"
  shows "fmlookup (app_Rules (upserted_app s cfg app rs)) k = Some r"
proof (cases "fmlookup (rule_table rs) k")
  case (Some r')
  then have r': "r' \<in> set rs" "rule_RuleID r' = k" by (auto dest: rule_table_set)
  have "fmlookup (deleteRulesForConfig (pc_ConfigID cfg) (app_Rules app)) (rule_RuleID r') = Some r"
    using assms(2,3) r'(2) by (simp add: deleteRules_lookup)
  with assms(1,3) r'(1) have False unfolding id_conflict_def by blast
  then show ?thesis ..
qed (use assms in \<open>simp add: upserted_rules\<close>)

lemma upserted_app_wf:
  assumes wf: "app = new_Application code \<or> app_wf code app"
    and code: "code = pc_ApplicationCode cfg" "code \<noteq> []" "TrimSpace code = code"
    and cid: "pc_ConfigID cfg \<noteq> []" "TrimSpace (pc_ConfigID cfg) = pc_ConfigID cfg"
    and rs: "parseRules cfg v content = Inr rs"
    and nc: "\<not> id_conflict (pc_ConfigID cfg) (deleteRulesForConfig (pc_ConfigID cfg) (app_Rules app)) rs"
  shows "app_wf code (upserted_app s cfg app rs)"
proof -
  let ?a = "upserted_app s cfg app rs" and ?cid = "pc_ConfigID cfg"
  have old: "rule_wf code (app_Configs app) k r" if "fmlookup (app_Rules app) k = Some r" for k r
    using wf that by (auto simp: new_Application_def app_wf_rule)
  have config: "config_wf code c cc" if "fmlookup (app_Configs ?a) c = Some cc" for c cc
    using wf that code cid
    by (auto simp: upserted_configs config_wf_def published_config_def new_Application_def app_wf_def
        split: if_splits)
  have has_rule: "\<exists>k r. fmlookup (app_Rules ?a) k = Some r \<and> rule_ConfigID r = c"
    if c: "fmlookup (app_Configs ?a) c = Some cc" for c cc
  proof (cases "c = ?cid")
    case True
    obtain r where r: "r \<in> set rs" using parseRules_Inr(1) [OF rs] by (cases rs) auto
    then obtain r' where r': "fmlookup (rule_table rs) (rule_RuleID r) = Some r'"
      using rule_table_dom by blast
    then have "rule_ConfigID r' = ?cid"
      using parseRules_ok [OF rs] rule_table_set [OF r'] by (auto simp: rule_ok_def)
    with r' True show ?thesis by (auto simp: upserted_rules intro!: exI [of _ "rule_RuleID r"])
  next
    case False
    with c have c': "fmlookup (app_Configs app) c = Some cc" by (simp add: upserted_configs)
    with wf have "app_wf code app" by (auto simp: new_Application_def)
    then obtain k r where "fmlookup (app_Rules app) k = Some r" "rule_ConfigID r = c"
      using app_wf_config_rule c' by blast
    with False show ?thesis using upserted_keeps_rule [OF nc] by blast
  qed
  have rule: "rule_wf code (app_Configs ?a) k r" if k: "fmlookup (app_Rules ?a) k = Some r" for k r
  proof (cases "fmlookup (rule_table rs) k")
    case (Some r')
    with k have "r \<in> set rs" "rule_RuleID r = k" by (auto simp: upserted_rules dest: rule_table_set)
    with parseRules_ok [OF rs, of r] code show ?thesis
      by (auto simp: rule_wf_def rule_ok_def upserted_configs published_config_def)
  next
    case None
    with k have "fmlookup (app_Rules app) k = Some r" "rule_ConfigID r \<noteq> ?cid"
      by (auto simp: upserted_rules split: option.splits if_splits)
    with old show ?thesis by (auto simp: rule_wf_def upserted_configs)
  qed
  have "app_Code ?a = code"
    using wf by (auto simp: upserted_app_def new_Application_def app_wf_def)
  moreover have "app_Configs ?a \<noteq> fmempty"
    using upserted_configs [of s cfg app rs ?cid] by auto
  ultimately show ?thesis using code config has_rule rule by (simp add: app_wf_def)
qed

lemma existing_app_wf:
  assumes "snapshot_wf s" and "code \<noteq> []"
  shows "existing_app s code = new_Application code \<and> fmlookup (snap_Apps s) code = None \<or>
    fmlookup (snap_Apps s) code = Some (existing_app s code) \<and> app_wf code (existing_app s code)"
  using assms by (auto simp: existing_app_def snapshot_wf_def app_wf_def split: option.split)

lemma applyConfig_wf:
  assumes "snapshot_wf s" and "applyConfig cfg0 s = Inr s'"
  shows "snapshot_wf s'"
  using assms(2)
proof (rule applyConfig_Inr)
  fix cfg rs
  assume c: "cfg = trimmed_config cfg0" "pc_ApplicationCode cfg \<noteq> []" "pc_ConfigID cfg \<noteq> []"
    and p: "parseRules cfg (snap_Version s) (config_content cfg) = Inr rs"
    and nc: "\<not> id_conflict (pc_ConfigID cfg)
      (deleteRulesForConfig (pc_ConfigID cfg) (app_Rules (existing_app s (pc_ApplicationCode cfg)))) rs"
    and s': "s' = s\<lparr>snap_Apps := fmupd (pc_ApplicationCode cfg)
      (upserted_app s cfg (existing_app s (pc_ApplicationCode cfg)) rs) (snap_Apps s)\<rparr>"
  have "app_wf (pc_ApplicationCode cfg) (upserted_app s cfg (existing_app s (pc_ApplicationCode cfg)) rs)"
    using existing_app_wf [OF assms(1) c(2)] c trimmed_config_trimmed [of cfg0]
    by (intro upserted_app_wf [OF _ _ _ _ _ _ p nc]) auto
  with assms(1) s' show ?thesis by (simp add: snapshot_wf_fmupd)
qed

lemma deleteConfig_wf:
  assumes "snapshot_wf s"
  shows "snapshot_wf (deleteConfig code cid s)"
proof (cases "fmlookup (snap_Apps s) code")
  case (Some app)
  let ?configs = "fmdrop cid (app_Configs app)" and ?rules = "deleteRulesForConfig cid (app_Rules app)"
  have wf: "app_wf code app" using assms Some by (rule snapshot_wf_app)
  show ?thesis
  proof (cases "go_len ?configs = 0 \<and> go_len ?rules = 0")
    case True
    with Some assms show ?thesis by (simp add: deleteConfig_def Let_def snapshot_wf_fmdrop)
  next
    case False
    let ?a = "app\<lparr>app_Configs := ?configs, app_Rules := ?rules,
      app_Version := snap_Version s, app_Checksum := snap_Checksum s\<rparr>"
    have "?configs \<noteq> fmempty"
    proof
      assume e: "?configs = fmempty"
      have "fmlookup ?rules k = None" for k
      proof (cases "fmlookup (app_Rules app) k")
        case (Some r)
        with wf have "fmlookup (app_Configs app) (rule_ConfigID r) \<noteq> None"
          by (auto dest: app_wf_rule_config)
        moreover have "fmlookup (app_Configs app) c = None" if "c \<noteq> cid" for c
          using e that by (metis fmempty_lookup fmlookup_drop)
        ultimately have "rule_ConfigID r = cid" by fastforce
        then show ?thesis using Some by (simp add: deleteRules_lookup)
      qed (simp add: deleteRules_lookup)
      then have "?rules = fmempty" by (intro fmap_ext) simp
      with e False show False by simp
    qed
    moreover have "\<exists>k r. fmlookup ?rules k = Some r \<and> rule_ConfigID r = c"
      if "fmlookup ?configs c = Some cc" for c cc
    proof -
      have c: "fmlookup (app_Configs app) c = Some cc" "c \<noteq> cid" using that by (auto split: if_splits)
      then obtain k r where "fmlookup (app_Rules app) k = Some r" "rule_ConfigID r = c"
        using app_wf_config_rule [OF wf] by blast
      with c show ?thesis by (intro exI [of _ k] exI [of _ r]) (simp add: deleteRules_lookup)
    qed
    moreover have "rule_wf code ?configs k r" if "fmlookup ?rules k = Some r" for k r
      using app_wf_rule [OF wf, of k r] that
      by (auto simp: rule_wf_def deleteRules_lookup split: option.splits if_splits)
    moreover have "config_wf code c cc" if "fmlookup ?configs c = Some cc" for c cc
      using app_wf_config [OF wf, of c cc] that by (simp split: if_splits)
    ultimately have "app_wf code ?a"
      using wf unfolding app_wf_def by simp
    moreover have "deleteConfig code cid s = s\<lparr>snap_Apps := fmupd code ?a (snap_Apps s)\<rparr>"
      unfolding deleteConfig_def Some option.case Let_def using False by (rule if_not_P)
    ultimately show ?thesis using assms by (simp add: snapshot_wf_fmupd)
  qed
qed (simp add: deleteConfig_def assms)

lemma applyChange_cases:
  assumes "applyChange cur to ch s = Inr s'"
  obtains (delete) "s' = deleteConfig (ch_ApplicationCode ch) (ch_ConfigID ch) s"
      "ToUpper (TrimSpace (ch_Operation ch)) \<in> set delete_operations"
      "validatePreviousChecksum s ch = None"
    | (upsert) cfg where "ch_Config ch = Some cfg" "applyConfig cfg s = Inr s'"
      "ToUpper (TrimSpace (ch_Operation ch)) \<in> set upsert_operations"
      "validateCurrentChecksum s' ch = None"
  using assms unfolding applyChange_def Let_def
  by (auto split: if_splits option.splits sum.splits)

lemma applyChange_wf: "applyChange cur to ch s = Inr s' \<Longrightarrow> snapshot_wf s \<Longrightarrow> snapshot_wf s'"
  by (erule applyChange_cases) (auto intro: deleteConfig_wf applyConfig_wf)

lemma applyChange_frame [frame_simps]:
  assumes "applyChange cur to ch s = Inr s'"
  shows "snap_Version s' = snap_Version s" "snap_Checksum s' = snap_Checksum s"
    "snap_GeneratedAt s' = snap_GeneratedAt s"
  using assms by (auto elim!: applyChange_cases simp: frame_simps)

lemma snapshot_wf_empty: "snap_Apps s = fmempty \<Longrightarrow> snapshot_wf s"
  by (simp add: snapshot_wf_def)

lemma snapshot_wf_apps: "snap_Apps s = snap_Apps s' \<Longrightarrow> snapshot_wf s = snapshot_wf s'"
  by (simp add: snapshot_wf_def)

lemma BuildSnapshot_wf_aux: "BuildSnapshot v c t cfgs = Inr s \<Longrightarrow> snapshot_wf s"
  unfolding BuildSnapshot_def
  by (erule fold_result_invariant) (auto intro: snapshot_wf_empty applyConfig_wf)

lemma ApplyChanges_Inr:
  assumes "ApplyChanges cur v c t chs = Inr s"
  shows "\<not> v \<le>s snap_Version cur" "TrimSpace c \<noteq> []"
    "fold_result (applyChange (snap_Version cur) v) chs
       (cur\<lparr>snap_Version := v, snap_Checksum := c, snap_GeneratedAt := t\<rparr>) = Inr s"
  using assms by (auto simp: ApplyChanges_def split: if_splits)

lemma ApplyChanges_wf_aux:
  assumes "ApplyChanges cur v c t chs = Inr s" and "snapshot_wf cur"
  shows "snapshot_wf s"
proof (rule fold_result_invariant [OF ApplyChanges_Inr(3) [OF assms(1)]])
  show "snapshot_wf (cur\<lparr>snap_Version := v, snap_Checksum := c, snap_GeneratedAt := t\<rparr>)"
    using assms(2) by (simp add: snapshot_wf_def)
qed (rule applyChange_wf)

end
