(* ===== verification/RuleRefinement.thy ===== *)
theory RuleRefinement
  imports RuleContents
begin

text \<open>
  The abstract specification of the rule builder: a published state says which
  configuration is in force under an application code and a configuration id, an upsert
  sets one entry and a delete clears one. A snapshot represents a published state when its
  configurations are the entries and its rules are exactly the rules of the entries, up to
  the snapshot version each rule is stamped with. The builder's operations refine the
  abstract ones, so a snapshot built by deltas and one built by a full synchronisation of
  the same published state hold the same configurations and rules.
\<close>

type_synonym published_state = "string \<Rightarrow> string \<Rightarrow> PublishedConfig option"

definition no_published :: published_state where "no_published = (\<lambda>_ _. None)"

definition upsert_published :: "PublishedConfig \<Rightarrow> published_state \<Rightarrow> published_state" where
  "upsert_published cfg0 E =
     (let cfg = trimmed_config cfg0 in
      E(pc_ApplicationCode cfg := (E (pc_ApplicationCode cfg))(pc_ConfigID cfg := Some cfg)))"

definition delete_published :: "string \<Rightarrow> string \<Rightarrow> published_state \<Rightarrow> published_state" where
  "delete_published code cid E = E(code := (E code)(cid := None))"

definition change_published :: "PublishedChange \<Rightarrow> published_state \<Rightarrow> published_state" where
  "change_published ch E =
     (if ToUpper (TrimSpace (ch_Operation ch)) \<in> set delete_operations
      then delete_published (ch_ApplicationCode ch) (ch_ConfigID ch) E
      else case ch_Config ch of None \<Rightarrow> E | Some cfg \<Rightarrow> upsert_published cfg E)"

definition config_at :: "Snapshot \<Rightarrow> string \<Rightarrow> string \<Rightarrow> Config option" where
  "config_at s code cid =
     (case fmlookup (snap_Apps s) code of None \<Rightarrow> None | Some a \<Rightarrow> fmlookup (app_Configs a) cid)"

definition rule_at :: "Snapshot \<Rightarrow> string \<Rightarrow> string \<Rightarrow> Rule option" where
  "rule_at s code k =
     (case fmlookup (snap_Apps s) code of None \<Rightarrow> None | Some a \<Rightarrow> fmlookup (app_Rules a) k)"

text \<open>The rules of a configuration by id, stamped with version 0; \<open>None\<close> if they do not parse.\<close>

definition config_rules :: "PublishedConfig \<Rightarrow> (string, Rule) fmap option" where
  "config_rules cfg =
     (case parseRules cfg 0 (config_content cfg) of Inl _ \<Rightarrow> None | Inr rs \<Rightarrow> Some (rule_table rs))"

definition in_force :: "published_state \<Rightarrow> string \<Rightarrow> string \<Rightarrow> string \<Rightarrow> Rule \<Rightarrow> bool" where
  "in_force E code cid k r \<longleftrightarrow>
     (\<exists>cfg tbl. E code cid = Some cfg \<and> config_rules cfg = Some tbl \<and> fmlookup tbl k = Some r)"

definition represents :: "published_state \<Rightarrow> Snapshot \<Rightarrow> bool" where
  "represents E s \<longleftrightarrow>
     (\<forall>code cid. config_at s code cid = map_option published_config (E code cid)) \<and>
     (\<forall>code k r. map_option (stamp 0) (rule_at s code k) = Some r \<longleftrightarrow> (\<exists>cid. in_force E code cid k r)) \<and>
     (\<forall>code cid cfg. E code cid = Some cfg \<longrightarrow>
        config_rules cfg \<noteq> None \<and> pc_ApplicationCode cfg = code \<and> pc_ConfigID cfg = cid)"

lemma representsD:
  assumes "represents E s"
  shows "config_at s code cid = map_option published_config (E code cid)"
    and "map_option (stamp 0) (rule_at s code k) = Some r \<longleftrightarrow> (\<exists>cid. in_force E code cid k r)"
    and "E code cid = Some cfg \<Longrightarrow>
      config_rules cfg \<noteq> None \<and> pc_ApplicationCode cfg = code \<and> pc_ConfigID cfg = cid"
  using assms by (simp_all add: represents_def)

lemma represents_apps: "snap_Apps s = snap_Apps s' \<Longrightarrow> represents E s = represents E s'"
  by (simp add: represents_def config_at_def rule_at_def)

lemma represents_empty: "snap_Apps s = fmempty \<Longrightarrow> represents no_published s"
  by (simp add: represents_def config_at_def rule_at_def no_published_def in_force_def)

text \<open>The published state determines everything but the version stamps.\<close>

lemma represents_unique:
  assumes "represents E s" and "represents E s'"
  shows "config_at s code cid = config_at s' code cid"
    and "map_option (stamp 0) (rule_at s code k) = map_option (stamp 0) (rule_at s' code k)"
proof -
  show "config_at s code cid = config_at s' code cid"
    by (simp add: representsD(1) [OF assms(1)] representsD(1) [OF assms(2)])
  have "map_option (stamp 0) (rule_at s code k) = Some r \<longleftrightarrow>
      map_option (stamp 0) (rule_at s' code k) = Some r" for r
    by (simp only: representsD(2) [OF assms(1)] representsD(2) [OF assms(2)])
  then show "map_option (stamp 0) (rule_at s code k) = map_option (stamp 0) (rule_at s' code k)"
    by (metis option.exhaust)
qed

lemma config_rules_stamp:
  assumes "parseRules cfg v (config_content cfg) = Inr rs"
  shows "config_rules cfg = Some (fmmap (stamp 0) (rule_table rs))"
  using parseRules_stamp [of cfg 0 "config_content cfg" v] assms
  by (simp add: config_rules_def rule_table_stamp)

lemma config_rules_ok:
  assumes "config_rules cfg = Some tbl" and "fmlookup tbl k = Some r"
  shows "rule_ok cfg r" and "rule_RuleID r = k"
proof -
  obtain rs where rs: "parseRules cfg 0 (config_content cfg) = Inr rs" "tbl = rule_table rs"
    using assms(1) by (auto simp: config_rules_def split: sum.splits)
  with assms(2) show "rule_ok cfg r" and "rule_RuleID r = k"
    by (auto dest: rule_table_set parseRules_ok)
qed

lemma in_force_ok:
  assumes "represents E s" and "in_force E code cid k r"
  shows "rule_ConfigID r = cid" and "rule_RuleID r = k" and "rule_ApplicationCode r = code"
  using assms(2) representsD(3) [OF assms(1)] config_rules_ok
  by (auto simp: in_force_def rule_ok_def)

lemma in_force_upsert:
  assumes "cfg = trimmed_config cfg0" and "config_rules cfg = Some tbl"
  shows "in_force (upsert_published cfg0 E) code cid k r \<longleftrightarrow>
    (if code = pc_ApplicationCode cfg \<and> cid = pc_ConfigID cfg then fmlookup tbl k = Some r
     else in_force E code cid k r)"
  using assms by (auto simp: in_force_def upsert_published_def Let_def)

text \<open>A snapshot that represents a published state has its rules from the state's entries.\<close>

lemma represents_rule:
  assumes "represents E s" and "rule_at s code k = Some r"
  shows "in_force E code (rule_ConfigID r) k (stamp 0 r)"
proof -
  obtain cid where "in_force E code cid k (stamp 0 r)"
    using representsD(2) [OF assms(1), of code k "stamp 0 r"] assms(2) by auto
  with in_force_ok(1) [OF assms(1) this] show ?thesis by simp
qed

lemma represents_in_force:
  assumes "represents E s" and "in_force E code cid k x"
  shows "\<exists>r. rule_at s code k = Some r \<and> stamp 0 r = x \<and> rule_ConfigID r = cid"
proof -
  obtain r where r: "rule_at s code k = Some r" "stamp 0 r = x"
    using representsD(2) [OF assms(1), of code k x] assms(2) by auto
  moreover have "rule_ConfigID r = cid"
    using in_force_ok(1) [OF assms] r(2) by (metis stamp_simps(3))
  ultimately show ?thesis by blast
qed

subsection \<open>The operations refine the specification\<close>

lemma existing_app_at:
  assumes "snapshot_wf s" and "code \<noteq> []"
  shows "fmlookup (app_Configs (existing_app s code)) cid = config_at s code cid"
    and "fmlookup (app_Rules (existing_app s code)) k = rule_at s code k"
  using existing_app_wf [OF assms]
  by (auto simp: config_at_def rule_at_def new_Application_def)

lemma upsert_config_at:
  assumes "snapshot_wf s" and "pc_ApplicationCode cfg \<noteq> []"
    and "s' = s\<lparr>snap_Apps := fmupd (pc_ApplicationCode cfg)
       (upserted_app s cfg (existing_app s (pc_ApplicationCode cfg)) rs) (snap_Apps s)\<rparr>"
  shows "config_at s' c i =
     (if c = pc_ApplicationCode cfg \<and> i = pc_ConfigID cfg then Some (published_config cfg)
      else config_at s c i)"
proof (cases "c = pc_ApplicationCode cfg")
  case True
  let ?a = "upserted_app s cfg (existing_app s (pc_ApplicationCode cfg)) rs"
  have "config_at s' c i = fmlookup (app_Configs ?a) i" by (simp add: config_at_def assms(3) True)
  then show ?thesis using True by (simp add: upserted_configs existing_app_at(1) [OF assms(1,2)])
qed (simp add: config_at_def assms(3))

lemma upsert_rule_at:
  assumes "snapshot_wf s" and "pc_ApplicationCode cfg \<noteq> []"
    and "s' = s\<lparr>snap_Apps := fmupd (pc_ApplicationCode cfg)
       (upserted_app s cfg (existing_app s (pc_ApplicationCode cfg)) rs) (snap_Apps s)\<rparr>"
  shows "rule_at s' c k =
     (if c = pc_ApplicationCode cfg then
        (case fmlookup (rule_table rs) k of
           Some r \<Rightarrow> Some r
         | None \<Rightarrow>
             (case rule_at s c k of
                None \<Rightarrow> None
              | Some r \<Rightarrow> if rule_ConfigID r = pc_ConfigID cfg then None else Some r))
      else rule_at s c k)"
proof (cases "c = pc_ApplicationCode cfg")
  case True
  let ?a = "upserted_app s cfg (existing_app s (pc_ApplicationCode cfg)) rs"
  have "rule_at s' c k = fmlookup (app_Rules ?a) k" by (simp add: rule_at_def assms(3) True)
  then show ?thesis using True by (simp add: upserted_rules existing_app_at(2) [OF assms(1,2)] cong: option.case_cong)
qed (simp add: rule_at_def assms(3))

lemma stamp_0_config: "stamp 0 r = x \<Longrightarrow> rule_ConfigID r = rule_ConfigID x"
  by (auto simp: stamp_def)

lemma applyConfig_represents:
  assumes R: "represents E s" and wf: "snapshot_wf s" and ok: "applyConfig cfg0 s = Inr s'"
  shows "represents (upsert_published cfg0 E) s'"
  using ok
proof (rule applyConfig_Inr)
  fix cfg rs
  assume cfg: "cfg = trimmed_config cfg0" and code: "pc_ApplicationCode cfg \<noteq> []"
    and p: "parseRules cfg (snap_Version s) (config_content cfg) = Inr rs"
    and nc: "\<not> id_conflict (pc_ConfigID cfg)
      (deleteRulesForConfig (pc_ConfigID cfg) (app_Rules (existing_app s (pc_ApplicationCode cfg)))) rs"
    and s': "s' = s\<lparr>snap_Apps := fmupd (pc_ApplicationCode cfg)
      (upserted_app s cfg (existing_app s (pc_ApplicationCode cfg)) rs) (snap_Apps s)\<rparr>"
  let ?E = "upsert_published cfg0 E" and ?code = "pc_ApplicationCode cfg" and ?cid = "pc_ConfigID cfg"
  note tbl = config_rules_stamp [OF p]
  note inf = in_force_upsert [OF cfg tbl]
  have taken: False
    if "fmlookup (rule_table rs) k = Some r0" "rule_at s ?code k = Some r1" "rule_ConfigID r1 \<noteq> ?cid"
    for k r0 r1
  proof -
    have "r0 \<in> set rs" "rule_RuleID r0 = k" using that(1) by (auto dest: rule_table_set)
    moreover have "fmlookup (deleteRulesForConfig ?cid (app_Rules (existing_app s ?code))) k = Some r1"
      using that(2,3) by (simp add: deleteRules_lookup existing_app_at(2) [OF wf code])
    ultimately show False using nc that(3) unfolding id_conflict_def by blast
  qed
  have rules: "map_option (stamp 0) (rule_at s' c k) = Some r \<longleftrightarrow> (\<exists>cid. in_force ?E c cid k r)"
    for c k r
  proof (cases "c = ?code")
    case False
    then show ?thesis
      using representsD(2) [OF R] by (simp add: upsert_rule_at [OF wf code s'] inf)
  next
    case True
    show ?thesis
    proof (cases "fmlookup (rule_table rs) k")
      case (Some r0)
      have "\<not> in_force E c cid k r" if "cid \<noteq> ?cid" for cid
        using represents_in_force [OF R, of c cid k r] taken [OF Some] that True by auto
      then show ?thesis using True Some by (auto simp: upsert_rule_at [OF wf code s'] inf)
    next
      case None
      have "map_option (stamp 0) (rule_at s' c k) = Some r \<longleftrightarrow>
          (\<exists>r1. rule_at s c k = Some r1 \<and> rule_ConfigID r1 \<noteq> ?cid \<and> stamp 0 r1 = r)"
        using True None by (auto simp: upsert_rule_at [OF wf code s'] split: option.splits)
      also have "\<dots> \<longleftrightarrow> (\<exists>cid. cid \<noteq> ?cid \<and> in_force E c cid k r)"
        using represents_rule [OF R, of c k] represents_in_force [OF R, of c _ k r] by blast
      also have "\<dots> \<longleftrightarrow> (\<exists>cid. in_force ?E c cid k r)"
        using True None by (simp add: inf) metis
      finally show ?thesis .
    qed
  qed
  have entries: "?E c i = (if c = ?code \<and> i = ?cid then Some cfg else E c i)" for c i
    by (simp add: upsert_published_def Let_def cfg)
  show ?thesis
    unfolding represents_def
    using rules representsD(1,3) [OF R] tbl
    by (auto simp: entries upsert_config_at [OF wf code s'])
qed

lemma delete_config_at:
  "config_at (deleteConfig code cid s) c i = (if c = code \<and> i = cid then None else config_at s c i)"
proof (cases "fmlookup (snap_Apps s) code")
  case None
  then show ?thesis by (simp add: deleteConfig_def config_at_def)
next
  case (Some app)
  have "fmlookup (app_Configs app) i = None" if "fmdrop cid (app_Configs app) = fmempty" "i \<noteq> cid"
    using that by (metis fmempty_lookup fmlookup_drop)
  with Some show ?thesis
    by (auto simp: deleteConfig_def Let_def config_at_def go_len_0_iff)
qed

lemma delete_rule_at:
  "rule_at (deleteConfig code cid s) c k =
     (if c = code then (case rule_at s c k of None \<Rightarrow> None
        | Some r \<Rightarrow> if rule_ConfigID r = cid then None else Some r)
      else rule_at s c k)"
proof (cases "fmlookup (snap_Apps s) code")
  case None
  then show ?thesis by (simp add: deleteConfig_def rule_at_def)
next
  case (Some app)
  have "rule_ConfigID r = cid"
    if "deleteRulesForConfig cid (app_Rules app) = fmempty" "fmlookup (app_Rules app) k = Some r" for r
    using that deleteRules_lookup [of cid "app_Rules app" k] by (auto split: if_splits)
  with Some show ?thesis
    by (auto simp: deleteConfig_def Let_def rule_at_def go_len_0_iff deleteRules_lookup
        split: option.split)
qed

lemma deleteConfig_represents:
  assumes R: "represents E s"
  shows "represents (delete_published code cid E) (deleteConfig code cid s)"
proof -
  let ?E = "delete_published code cid E"
  have entries: "?E c i = (if c = code \<and> i = cid then None else E c i)" for c i
    by (simp add: delete_published_def)
  have inf: "in_force ?E c i k r \<longleftrightarrow> in_force E c i k r \<and> \<not> (c = code \<and> i = cid)" for c i k r
    by (auto simp: in_force_def entries)
  have "map_option (stamp 0) (rule_at (deleteConfig code cid s) c k) = Some r \<longleftrightarrow>
      (\<exists>i. in_force ?E c i k r)" for c k r
  proof (cases "c = code")
    case True
    have "map_option (stamp 0) (rule_at (deleteConfig code cid s) c k) = Some r \<longleftrightarrow>
        (\<exists>r1. rule_at s c k = Some r1 \<and> rule_ConfigID r1 \<noteq> cid \<and> stamp 0 r1 = r)"
      using True by (auto simp: delete_rule_at split: option.splits)
    also have "\<dots> \<longleftrightarrow> (\<exists>i. i \<noteq> cid \<and> in_force E c i k r)"
      using represents_rule [OF R, of c k] represents_in_force [OF R, of c _ k r] by blast
    finally show ?thesis using True by (simp add: inf) metis
  qed (use representsD(2) [OF R, of c k r] in \<open>simp add: delete_rule_at inf\<close>)
  then show ?thesis
    unfolding represents_def using representsD(1,3) [OF R]
    by (auto simp: entries delete_config_at)
qed

lemma applyChange_represents:
  assumes "represents E s" and "snapshot_wf s" and "applyChange cur to ch s = Inr s'"
  shows "represents (change_published ch E) s'"
  using assms(3)
proof (cases rule: applyChange_cases)
  case delete
  then show ?thesis using deleteConfig_represents [OF assms(1)] by (simp add: change_published_def)
next
  case (upsert cfg)
  have "ToUpper (TrimSpace (ch_Operation ch)) \<notin> set delete_operations"
    using upsert(3) by (auto simp: delete_operations_def upsert_operations_def)
  then show ?thesis
    using applyConfig_represents [OF assms(1,2) upsert(2)] upsert(1) by (simp add: change_published_def)
qed

text \<open>A loop of steps that each refine an abstract step refines the loop of abstract steps.\<close>

lemma fold_refines:
  assumes "fold_result f xs s = Inr s'" and "I s" and "rel E s"
    and "\<And>x s s'. f x s = Inr s' \<Longrightarrow> I s \<Longrightarrow> I s'"
    and "\<And>x E s s'. f x s = Inr s' \<Longrightarrow> I s \<Longrightarrow> rel E s \<Longrightarrow> rel (g x E) s'"
  shows "rel (fold g xs E) s'"
  using assms(1-3)
proof (induction xs arbitrary: s E)
  case (Cons x xs)
  from Cons.prems(1) obtain t where t: "f x s = Inr t" "fold_result f xs t = Inr s'"
    by (auto split: sum.splits)
  from Cons.IH [OF t(2) assms(4) [OF t(1) Cons.prems(2)] assms(5) [OF t(1) Cons.prems(2,3)]]
  show ?case by simp
qed simp

lemma BuildSnapshot_represents:
  assumes "BuildSnapshot v c t cfgs = Inr s"
  shows "represents (fold upsert_published cfgs no_published) s"
  using assms unfolding BuildSnapshot_def
proof (rule fold_refines [where I = snapshot_wf and rel = represents and g = upsert_published])
  show "\<And>cfg E s s'. applyConfig cfg s = Inr s' \<Longrightarrow> snapshot_wf s \<Longrightarrow> represents E s \<Longrightarrow>
      represents (upsert_published cfg E) s'"
    by (rule applyConfig_represents)
qed (auto intro: represents_empty snapshot_wf_empty applyConfig_wf)

lemma ApplyChanges_represents:
  assumes "ApplyChanges cur v c t chs = Inr s" and "snapshot_wf cur" and "represents E cur"
  shows "represents (fold change_published chs E) s"
  using ApplyChanges_Inr(3) [OF assms(1)]
proof (rule fold_refines [where I = snapshot_wf and rel = represents and g = change_published])
  show "\<And>ch E s s'. applyChange (snap_Version cur) v ch s = Inr s' \<Longrightarrow> snapshot_wf s \<Longrightarrow>
      represents E s \<Longrightarrow> represents (change_published ch E) s'"
    by (rule applyChange_represents)
  show "snapshot_wf (cur\<lparr>snap_Version := v, snap_Checksum := c, snap_GeneratedAt := t\<rparr>)"
    using assms(2) by (simp add: snapshot_wf_def)
  show "represents E (cur\<lparr>snap_Version := v, snap_Checksum := c, snap_GeneratedAt := t\<rparr>)"
    using assms(3) by (simp add: represents_def config_at_def rule_at_def)
qed (rule applyChange_wf)

subsection \<open>A full synchronisation of a represented state succeeds\<close>

lemma represents_one_config:
  assumes "represents E s" and "in_force E code cid k r" and "in_force E code cid' k r'"
  shows "cid = cid'"
  using represents_in_force [OF assms(1,2)] represents_in_force [OF assms(1,3)] by auto

lemma represents_entry_trimmed:
  assumes "represents E s" and "snapshot_wf s" and "E code cid = Some cfg"
  shows "trimmed_config cfg = cfg" and "pc_ApplicationCode cfg \<noteq> []" and "pc_ConfigID cfg \<noteq> []"
proof -
  obtain a where a: "fmlookup (snap_Apps s) code = Some a"
    "fmlookup (app_Configs a) cid = Some (published_config cfg)"
    using representsD(1) [OF assms(1), of code cid] assms(3)
    by (auto simp: config_at_def split: option.splits)
  note wf = snapshot_wf_app [OF assms(2) a(1)]
  have keys: "pc_ApplicationCode cfg = code" "pc_ConfigID cfg = cid"
    using representsD(3) [OF assms(1,3)] by simp_all
  have "code \<noteq> []" "TrimSpace code = code" using wf by (simp_all add: app_wf_def)
  moreover have "cid \<noteq> []" "TrimSpace cid = cid"
    using app_wf_config [OF wf a(2)] by (simp_all add: config_wf_def)
  ultimately show "trimmed_config cfg = cfg" "pc_ApplicationCode cfg \<noteq> []" "pc_ConfigID cfg \<noteq> []"
    using keys by (simp_all add: trimmed_config_def)
qed

lemma applyConfig_succeeds:
  assumes R: "represents E s" and wf: "snapshot_wf s" and cfg: "trimmed_config cfg = cfg"
    and code: "pc_ApplicationCode cfg \<noteq> []" and cid: "pc_ConfigID cfg \<noteq> []"
    and tbl: "config_rules cfg = Some tbl"
    and free: "\<And>k r i. in_force E (pc_ApplicationCode cfg) i k r \<Longrightarrow> k |\<in>| fmdom tbl \<Longrightarrow>
      i = pc_ConfigID cfg"
  shows "\<exists>s'. applyConfig cfg s = Inr s'"
proof -
  let ?m = "deleteRulesForConfig (pc_ConfigID cfg) (app_Rules (existing_app s (pc_ApplicationCode cfg)))"
  obtain rs0 where "parseRules cfg 0 (config_content cfg) = Inr rs0"
    using tbl by (auto simp: config_rules_def split: sum.splits)
  then obtain rs where rs: "parseRules cfg (snap_Version s) (config_content cfg) = Inr rs"
    using parseRules_stamp [of cfg "snap_Version s" "config_content cfg" 0] by auto
  have dom: "rule_RuleID r |\<in>| fmdom tbl" if "r \<in> set rs" for r
    using rule_table_dom [OF that] config_rules_stamp [OF rs] tbl by (auto simp: fmlookup_dom_iff)
  have "\<not> id_conflict (pc_ConfigID cfg) ?m rs"
  proof
    assume "id_conflict (pc_ConfigID cfg) ?m rs"
    then obtain r e where re: "r \<in> set rs" "fmlookup ?m (rule_RuleID r) = Some e"
      "rule_ConfigID e \<noteq> pc_ConfigID cfg"
      by (auto simp: id_conflict_def)
    from re(2) have "rule_at s (pc_ApplicationCode cfg) (rule_RuleID r) = Some e"
      by (auto simp: deleteRules_lookup existing_app_at(2) [OF wf code] split: option.splits if_splits)
    from free [OF represents_rule [OF R this] dom [OF re(1)]] re(3) show False by simp
  qed
  moreover have "rule_ConfigID r = pc_ConfigID cfg" if "r \<in> set rs" for r
    using parseRules_ok [OF rs that] by (simp add: rule_ok_def)
  ultimately have "fold_result (insertRule cfg) rs ?m =
      Inr (fold (\<lambda>r m. fmupd (rule_RuleID r) r m) rs ?m)"
    using insertRule_fold [of rs cfg ?m] by auto
  then show ?thesis using rs code cid by (simp add: applyConfig_cases cfg Let_def)
qed

lemma rebuild_succeeds:
  assumes R: "represents E s" and wf: "snapshot_wf s"
    and "\<And>cfg. cfg \<in> set cfgs \<Longrightarrow> E (pc_ApplicationCode cfg) (pc_ConfigID cfg) = Some cfg"
    and "represents F s1" and "snapshot_wf s1"
    and "\<And>c i cfg. F c i = Some cfg \<Longrightarrow> E c i = Some cfg"
  shows "\<exists>s2. fold_result applyConfig cfgs s1 = Inr s2"
  using assms(3-)
proof (induction cfgs arbitrary: F s1)
  case (Cons cfg cfgs)
  have e: "E (pc_ApplicationCode cfg) (pc_ConfigID cfg) = Some cfg" by (simp add: Cons.prems(1))
  note tr = represents_entry_trimmed [OF R wf e]
  obtain tbl where tbl: "config_rules cfg = Some tbl" using representsD(3) [OF R e] by auto
  have "i = pc_ConfigID cfg" if a: "in_force F (pc_ApplicationCode cfg) i k r" and k: "k |\<in>| fmdom tbl" for k r i
  proof -
    have 1: "in_force E (pc_ApplicationCode cfg) i k r"
      using a Cons.prems(4) by (auto simp: in_force_def)
    obtain r' where 2: "in_force E (pc_ApplicationCode cfg) (pc_ConfigID cfg) k r'"
      using k e tbl by (auto simp: in_force_def fmlookup_dom_iff)
    show ?thesis by (rule represents_one_config [OF R 1 2])
  qed
  then obtain t where t: "applyConfig cfg s1 = Inr t"
    using applyConfig_succeeds [OF Cons.prems(2,3) tr tbl] by blast
  have "\<exists>s2. fold_result applyConfig cfgs t = Inr s2"
  proof (rule Cons.IH)
    show "represents (upsert_published cfg F) t"
      by (rule applyConfig_represents [OF Cons.prems(2,3) t])
    show "snapshot_wf t" by (rule applyConfig_wf [OF Cons.prems(3) t])
    show "E c i = Some cfg'" if "upsert_published cfg F c i = Some cfg'" for c i cfg'
      using that e Cons.prems(4) tr(1) by (auto simp: upsert_published_def Let_def split: if_splits)
  qed (simp add: Cons.prems(1))
  with t show ?case by simp
qed simp

lemma fold_upsert_entries:
  assumes "\<And>cfg. cfg \<in> set cfgs \<Longrightarrow> E (pc_ApplicationCode cfg) (pc_ConfigID cfg) = Some cfg \<and>
      trimmed_config cfg = cfg"
  shows "fold upsert_published cfgs F c i =
     (if \<exists>cfg \<in> set cfgs. pc_ApplicationCode cfg = c \<and> pc_ConfigID cfg = i then E c i else F c i)"
  using assms
proof (induction cfgs arbitrary: F)
  case (Cons cfg cfgs)
  have "fold upsert_published (cfg # cfgs) F c i = fold upsert_published cfgs (upsert_published cfg F) c i"
    by simp
  also have "\<dots> = (if \<exists>cfg \<in> set cfgs. pc_ApplicationCode cfg = c \<and> pc_ConfigID cfg = i then E c i
      else upsert_published cfg F c i)"
    by (rule Cons.IH) (simp add: Cons.prems)
  also have "upsert_published cfg F c i =
      (if pc_ApplicationCode cfg = c \<and> pc_ConfigID cfg = i then E c i else F c i)"
    using Cons.prems [of cfg] by (auto simp: upsert_published_def Let_def)
  finally show ?case by auto
qed simp

lemma rebuild_represents:
  assumes R: "represents E s" and wf: "snapshot_wf s"
    and cfgs: "set cfgs = {cfg. \<exists>code cid. E code cid = Some cfg}"
  shows "\<exists>s2. BuildSnapshot v c t cfgs = Inr s2 \<and> represents E s2"
proof -
  have entry: "E (pc_ApplicationCode cfg) (pc_ConfigID cfg) = Some cfg" if "cfg \<in> set cfgs" for cfg
    using that cfgs representsD(3) [OF R] by auto
  have "\<exists>s2. BuildSnapshot v c t cfgs = Inr s2"
    unfolding BuildSnapshot_def
  proof (rule rebuild_succeeds [OF R wf entry])
    show "represents no_published \<lparr>snap_Version = v, snap_Checksum = c, snap_GeneratedAt = t,
        snap_Apps = fmempty\<rparr>"
      by (simp add: represents_empty)
  qed (simp_all add: snapshot_wf_empty no_published_def)
  moreover have "fold upsert_published cfgs no_published = E"
  proof (intro ext)
    fix code cid
    have "fold upsert_published cfgs no_published code cid =
      (if \<exists>cfg \<in> set cfgs. pc_ApplicationCode cfg = code \<and> pc_ConfigID cfg = cid then E code cid
       else no_published code cid)"
      using entry represents_entry_trimmed(1) [OF R wf] by (intro fold_upsert_entries) blast
    also have "\<dots> = E code cid"
    proof (cases "E code cid")
      case (Some cfg)
      then have "cfg \<in> set cfgs" "pc_ApplicationCode cfg = code" "pc_ConfigID cfg = cid"
        using cfgs representsD(3) [OF R Some] by auto
      then show ?thesis by auto
    qed (use entry in \<open>auto simp: no_published_def\<close>)
    finally show "fold upsert_published cfgs no_published code cid = E code cid" .
  qed
  ultimately show ?thesis using BuildSnapshot_represents by fastforce
qed

end
