(* ===== verification/RuleStore.thy ===== *)
theory RuleStore
  imports RuleRefinement
begin

text \<open>
  \<open>internal/rulestore/store.go\<close>, run one call at a time: the current snapshot, the cache
  attached to the store and the subscribers' channels, each with what its buffer holds.
  The cache is a service behind an interface: its state is a type parameter and its two
  methods, and the JSON codec of whole snapshots, are arguments of the functions that call
  them. What happens when the calls of several goroutines interleave is in Notifier.
\<close>

record Channel =
  chan_buffer :: "Snapshot list"
  chan_capacity :: int64

record 'c Store =
  store_current :: "Snapshot option"
  store_cache :: "'c option"
  store_nextSubscriber :: int64
  store_subscribers :: "(int64, Channel) fmap"

definition SnapshotCacheKey :: string where
  "SnapshotCacheKey = ''stellpulsar:rules:snapshot''"

subsection \<open>Replacing the snapshot\<close>

definition cacheSnapshot ::
    "(Snapshot \<Rightarrow> 'e + string) \<Rightarrow> ('c \<Rightarrow> string \<Rightarrow> string \<Rightarrow> 'c \<times> 'e option) \<Rightarrow>
     Snapshot \<Rightarrow> 'c Store \<Rightarrow> 'c Store \<times> 'e option" where
  "cacheSnapshot marshal set_cache snapshot s =
     (case store_cache s of
        None \<Rightarrow> (s, None)
      | Some cache \<Rightarrow>
          (case marshal snapshot of
             Inl e \<Rightarrow> (s, Some e)
           | Inr payload \<Rightarrow>
               (case set_cache cache SnapshotCacheKey payload of
                  (cache', err) \<Rightarrow> (s\<lparr>store_cache := Some cache'\<rparr>, err))))"

text \<open>
  A non-blocking send to a buffered channel, and the store's use of it: when the buffer is
  full it discards the oldest element and tries once more.
\<close>

definition try_send :: "Snapshot \<Rightarrow> Channel \<Rightarrow> Channel option" where
  "try_send snapshot ch =
     (if int (length (chan_buffer ch)) < sint (chan_capacity ch)
      then Some (ch\<lparr>chan_buffer := chan_buffer ch @ [snapshot]\<rparr>) else None)"

definition send_latest :: "Snapshot \<Rightarrow> Channel \<Rightarrow> Channel" where
  "send_latest snapshot ch =
     (case try_send snapshot ch of
        Some ch' \<Rightarrow> ch'
      | None \<Rightarrow>
          (let drained = ch\<lparr>chan_buffer := tl (chan_buffer ch)\<rparr> in
           case try_send snapshot drained of Some ch' \<Rightarrow> ch' | None \<Rightarrow> drained))"

definition notify :: "Snapshot \<Rightarrow> 'c Store \<Rightarrow> 'c Store" where
  "notify snapshot s =
     s\<lparr>store_subscribers := fmmap (send_latest (Snapshot_Clone snapshot)) (store_subscribers s)\<rparr>"

definition ReplaceWithContext ::
    "(Snapshot \<Rightarrow> 'e + string) \<Rightarrow> ('c \<Rightarrow> string \<Rightarrow> string \<Rightarrow> 'c \<times> 'e option) \<Rightarrow>
     Snapshot \<Rightarrow> 'c Store \<Rightarrow> 'c Store \<times> 'e option" where
  "ReplaceWithContext marshal set_cache snapshot s =
     (let cloned = Snapshot_Clone snapshot in
      case cacheSnapshot marshal set_cache cloned (s\<lparr>store_current := Some cloned\<rparr>) of
        (s', err) \<Rightarrow> (notify cloned s', err))"

definition Replace ::
    "(Snapshot \<Rightarrow> 'e + string) \<Rightarrow> ('c \<Rightarrow> string \<Rightarrow> string \<Rightarrow> 'c \<times> 'e option) \<Rightarrow>
     Snapshot \<Rightarrow> 'c Store \<Rightarrow> 'c Store" where
  "Replace marshal set_cache snapshot s = fst (ReplaceWithContext marshal set_cache snapshot s)"

text \<open>A new store has no cache, so that its codec and cache arguments do not matter.\<close>

definition NewStore :: "Snapshot \<Rightarrow> 'c Store" where
  "NewStore initial =
     Replace (\<lambda>_. Inr []) (\<lambda>c _ _. (c, None :: unit option)) initial
       \<lparr>store_current = None, store_cache = None, store_nextSubscriber = 0,
        store_subscribers = fmempty\<rparr>"

definition NewEmptyStore :: "time \<Rightarrow> 'c Store" where
  "NewEmptyStore now = NewStore (EmptySnapshot now)"

definition Store_Snapshot :: "time \<Rightarrow> 'c Store \<Rightarrow> Snapshot" where
  "Store_Snapshot now s =
     (case store_current s of None \<Rightarrow> EmptySnapshot now | Some current \<Rightarrow> Snapshot_Clone current)"

definition AttachCache ::
    "(Snapshot \<Rightarrow> 'e + string) \<Rightarrow> (string \<Rightarrow> 'e + Snapshot) \<Rightarrow> ('c \<Rightarrow> string \<Rightarrow> 'e + string option) \<Rightarrow>
     ('c \<Rightarrow> string \<Rightarrow> string \<Rightarrow> 'c \<times> 'e option) \<Rightarrow> time \<Rightarrow> 'c option \<Rightarrow> 'c Store \<Rightarrow>
     'c Store \<times> 'e option" where
  "AttachCache marshal unmarshal get_cache set_cache now cache s =
     (case cache of
        None \<Rightarrow> (s, None)
      | Some c \<Rightarrow>
          (let s' = s\<lparr>store_cache := Some c\<rparr> in
           case get_cache c SnapshotCacheKey of
             Inl e \<Rightarrow> (s', Some e)
           | Inr (Some payload) \<Rightarrow>
               (case unmarshal payload of
                  Inl e \<Rightarrow> (s', Some e)
                | Inr cached \<Rightarrow> (s'\<lparr>store_current := Some cached\<rparr>, None))
           | Inr None \<Rightarrow> cacheSnapshot marshal set_cache (Store_Snapshot now s') s'))"

subsection \<open>Subscribers\<close>

definition Subscribe :: "int64 \<Rightarrow> 'c Store \<Rightarrow> int64 \<times> 'c Store" where
  "Subscribe buffer s =
     (let capacity = (if buffer \<le>s 0 then 1 else buffer);
          sub = store_nextSubscriber s + 1 in
      (sub, s\<lparr>store_nextSubscriber := sub,
             store_subscribers :=
               fmupd sub \<lparr>chan_buffer = [], chan_capacity = capacity\<rparr> (store_subscribers s)\<rparr>))"

text \<open>The function that \<open>Subscribe\<close> returns acts once; afterwards its id is gone.\<close>

definition unsubscribe :: "int64 \<Rightarrow> 'c Store \<Rightarrow> 'c Store" where
  "unsubscribe sub s = s\<lparr>store_subscribers := fmdrop sub (store_subscribers s)\<rparr>"

subsection \<open>Lookups\<close>

definition FindRule :: "'c Store \<Rightarrow> string \<Rightarrow> string \<Rightarrow> Rule \<times> bool" where
  "FindRule s applicationCode ruleID =
     (case store_current s of
        None \<Rightarrow> (zero_Rule, False)
      | Some current \<Rightarrow>
          (case fmlookup (snap_Apps current) applicationCode of
             None \<Rightarrow> (zero_Rule, False)
           | Some app \<Rightarrow>
               (case fmlookup (app_Rules app) ruleID of
                  None \<Rightarrow> (zero_Rule, False)
                | Some rule \<Rightarrow> (Rule_Clone rule, True))))"

definition Rules ::
    "(string fset \<Rightarrow> string list) \<Rightarrow> 'c Store \<Rightarrow> string \<Rightarrow> string list \<Rightarrow> Rule list" where
  "Rules ord s applicationCode ruleIDs =
     (case store_current s of
        None \<Rightarrow> []
      | Some current \<Rightarrow>
          (case fmlookup (snap_Apps current) applicationCode of
             None \<Rightarrow> []
           | Some app \<Rightarrow>
               (if ruleIDs = [] then map Rule_Clone (range_values ord (app_Rules app))
                else concat (map (\<lambda>k. case fmlookup (app_Rules app) k of
                       Some rule \<Rightarrow> [Rule_Clone rule] | None \<Rightarrow> []) ruleIDs))))"

subsection \<open>Facts\<close>

definition store_wf :: "'c Store \<Rightarrow> bool" where
  "store_wf s \<longleftrightarrow>
     (case store_current s of None \<Rightarrow> True | Some snapshot \<Rightarrow> snapshot_wf snapshot) \<and>
     (\<forall>i ch. fmlookup (store_subscribers s) i = Some ch \<longrightarrow>
        0 < sint (chan_capacity ch) \<and> int (length (chan_buffer ch)) \<le> sint (chan_capacity ch))"

lemma cacheSnapshot_frame [frame_simps]:
  assumes "cacheSnapshot m c snapshot s = (s', err)"
  shows "store_current s' = store_current s" "store_subscribers s' = store_subscribers s"
    "store_nextSubscriber s' = store_nextSubscriber s"
  using assms by (auto simp: cacheSnapshot_def split: option.splits sum.splits prod.splits)

lemma send_latest_last:
  assumes "0 < sint (chan_capacity ch)" and "int (length (chan_buffer ch)) \<le> sint (chan_capacity ch)"
  shows "\<exists>dropped. chan_buffer (send_latest snapshot ch) = drop dropped (chan_buffer ch) @ [snapshot] \<and>
      dropped \<le> 1"
    and "chan_capacity (send_latest snapshot ch) = chan_capacity ch"
    and "int (length (chan_buffer (send_latest snapshot ch))) \<le> sint (chan_capacity ch)"
proof -
  have room: "int (length (tl (chan_buffer ch))) < sint (chan_capacity ch)"
    using assms by (cases "chan_buffer ch") auto
  show "\<exists>dropped. chan_buffer (send_latest snapshot ch) = drop dropped (chan_buffer ch) @ [snapshot] \<and>
      dropped \<le> 1"
    using room assms(2)
    by (auto simp: send_latest_def try_send_def drop_Suc intro: exI [of _ "0 :: nat"] exI [of _ "1 :: nat"])
  show "chan_capacity (send_latest snapshot ch) = chan_capacity ch"
    "int (length (chan_buffer (send_latest snapshot ch))) \<le> sint (chan_capacity ch)"
    using room by (auto simp: send_latest_def try_send_def Let_def)
qed

lemma ReplaceWithContext_current:
  assumes "ReplaceWithContext m c snapshot s = (s', err)"
  shows "store_current s' = Some snapshot"
    "store_subscribers s' = fmmap (send_latest snapshot) (store_subscribers s)"
  using assms
  by (auto simp: ReplaceWithContext_def Let_def notify_def frame_simps split: prod.splits)

lemma FindRule_iff:
  "FindRule s code k = (r, True) \<longleftrightarrow>
     (\<exists>snapshot. store_current s = Some snapshot \<and> rule_at snapshot code k = Some r)"
  by (auto simp: FindRule_def rule_at_def split: option.splits)

lemma FindRule_cases:
  "FindRule s code k = (zero_Rule, False) \<or> (\<exists>r. FindRule s code k = (r, True))"
  by (auto simp: FindRule_def split: option.splits)

text \<open>Both lookups read the rules of the application in the current snapshot.\<close>

definition store_rules :: "'c Store \<Rightarrow> string \<Rightarrow> (string, Rule) fmap" where
  "store_rules s code =
     (case store_current s of
        None \<Rightarrow> fmempty
      | Some current \<Rightarrow>
          (case fmlookup (snap_Apps current) code of None \<Rightarrow> fmempty | Some app \<Rightarrow> app_Rules app))"

lemma FindRule_store_rules:
  "FindRule s code k =
     (case fmlookup (store_rules s code) k of None \<Rightarrow> (zero_Rule, False) | Some r \<Rightarrow> (r, True))"
  by (auto simp: FindRule_def store_rules_def split: option.split)

lemma Rules_store_rules:
  assumes "range_order ord"
  shows "Rules ord s code ks =
    (if ks = [] then range_values ord (store_rules s code)
     else concat (map (\<lambda>k. case fmlookup (store_rules s code) k of None \<Rightarrow> [] | Some r \<Rightarrow> [r]) ks))"
  using assms by (auto simp: Rules_def store_rules_def map_idI split: option.split cong: option.case_cong)

lemma Rules_set_all:
  assumes "range_order ord"
  shows "set (Rules ord s code []) = {r. \<exists>k. FindRule s code k = (r, True)}"
  by (auto simp: Rules_store_rules [OF assms] range_values_set [OF assms] FindRule_store_rules
      split: option.splits)

lemma Rules_set_some:
  assumes "range_order ord" and "ks \<noteq> []"
  shows "set (Rules ord s code ks) = {r. \<exists>k \<in> set ks. FindRule s code k = (r, True)}"
proof -
  have found: "FindRule s code k = (r, True) \<longleftrightarrow> fmlookup (store_rules s code) k = Some r" for k r
    by (auto simp: FindRule_store_rules split: option.split)
  have one: "set (case x of None \<Rightarrow> [] | Some r \<Rightarrow> [r]) = {r. x = Some r}" for x :: "Rule option"
    by (cases x) auto
  show ?thesis using assms(2) by (auto simp: Rules_store_rules [OF assms(1)] found one)
qed

lemma FindRule_id:
  assumes "store_wf s" and "FindRule s code k = (r, True)"
  shows "rule_RuleID r = k" "k \<noteq> []" "rule_ApplicationCode r = code" "0 <s rule_Quota r"
    "0 <s rule_WindowSeconds r"
proof -
  obtain snapshot a where "store_current s = Some snapshot" "fmlookup (snap_Apps snapshot) code = Some a"
    "fmlookup (app_Rules a) k = Some r"
    using assms(2) by (auto simp: FindRule_iff rule_at_def split: option.splits)
  with assms(1) have "rule_wf code (app_Configs a) k r"
    by (auto simp: store_wf_def intro: app_wf_rule snapshot_wf_app)
  then show "rule_RuleID r = k" "k \<noteq> []" "rule_ApplicationCode r = code" "0 <s rule_Quota r"
    "0 <s rule_WindowSeconds r"
    by (simp_all add: rule_wf_def)
qed

subsection \<open>The store as a source of rules\<close>

text \<open>
  What the quota engine and the gRPC server rely on: a lookup by id and a listing that
  agree, and rules that the builder has checked.
\<close>

locale rule_source =
  fixes inv :: "'s \<Rightarrow> bool"
    and find :: "'s \<Rightarrow> string \<Rightarrow> string \<Rightarrow> Rule \<times> bool"
    and rules :: "(string fset \<Rightarrow> string list) \<Rightarrow> 's \<Rightarrow> string \<Rightarrow> string list \<Rightarrow> Rule list"
  assumes find_some_or_zero: "find s code k = (zero_Rule, False) \<or> (\<exists>r. find s code k = (r, True))"
    and find_id: "inv s \<Longrightarrow> find s code k = (r, True) \<Longrightarrow>
      rule_RuleID r = k \<and> k \<noteq> [] \<and> 0 <s rule_Quota r \<and> 0 <s rule_WindowSeconds r"
    and rules_all: "range_order ord \<Longrightarrow> set (rules ord s code []) = {r. \<exists>k. find s code k = (r, True)}"
    and rules_some: "range_order ord \<Longrightarrow> ks \<noteq> [] \<Longrightarrow>
      set (rules ord s code ks) = {r. \<exists>k \<in> set ks. find s code k = (r, True)}"
begin

lemma listed_iff:
  assumes "inv s" and "range_order ord"
  shows "r \<in> set (rules ord s code ks) \<longleftrightarrow>
    find s code (rule_RuleID r) = (r, True) \<and> (ks = [] \<or> rule_RuleID r \<in> set ks)"
  using find_id [OF assms(1)] rules_all [OF assms(2)] rules_some [OF assms(2)]
  by (cases "ks = []") auto

lemma listed_unique:
  assumes "inv s" and "range_order ord"
    and "r \<in> set (rules ord s code ks)" and "r' \<in> set (rules ord s code ks)"
    and "rule_RuleID r = rule_RuleID r'"
  shows "r = r'"
  using assms listed_iff [OF assms(1,2)] by simp

lemma not_found_zero: "snd (find s code k) = False \<Longrightarrow> fst (find s code k) = zero_Rule"
  using find_some_or_zero [of s code k] by auto

end

text \<open>What the syncer relies on beyond that: a snapshot once stored is the one served.\<close>

locale rule_store = rule_source inv find rules
  for inv :: "'s \<Rightarrow> bool" and find and rules +
  fixes current :: "'s \<Rightarrow> Snapshot option"
    and replace :: "Snapshot \<Rightarrow> 's \<Rightarrow> 's"
  assumes current_replace: "current (replace snapshot s) = Some snapshot"
    and inv_replace: "inv s \<Longrightarrow> snapshot_wf snapshot \<Longrightarrow> inv (replace snapshot s)"
    and find_current: "current s = Some snapshot \<Longrightarrow>
      find s code k = (r, True) \<longleftrightarrow> rule_at snapshot code k = Some r"
begin

lemma find_replace:
  "find (replace snapshot s) code k =
     (case rule_at snapshot code k of None \<Rightarrow> (zero_Rule, False) | Some r \<Rightarrow> (r, True))"
  using find_some_or_zero [of "replace snapshot s" code k]
  by (auto simp: find_current [OF current_replace] split: option.split)

lemma replace_serves_checked_rules:
  assumes "inv s" and "snapshot_wf snapshot" and "rule_at snapshot code k = Some r"
  shows "rule_RuleID r = k" and "0 <s rule_Quota r" and "0 <s rule_WindowSeconds r"
  using find_id [OF inv_replace [OF assms(1,2)], of code k r] assms(3)
  by (simp_all add: find_replace)

end

lemma send_latest_wf:
  "0 < sint (chan_capacity ch) \<Longrightarrow> int (length (chan_buffer ch)) \<le> sint (chan_capacity ch) \<Longrightarrow>
   0 < sint (chan_capacity (send_latest x ch)) \<and>
   int (length (chan_buffer (send_latest x ch))) \<le> sint (chan_capacity (send_latest x ch))"
  using send_latest_last(2,3) [of ch x] by simp

lemma ReplaceWithContext_wf:
  assumes "ReplaceWithContext m c snapshot s = (s', err)" and "store_wf s" and "snapshot_wf snapshot"
  shows "store_wf s'"
proof -
  have "0 < sint (chan_capacity ch) \<and> int (length (chan_buffer ch)) \<le> sint (chan_capacity ch)"
    if "fmlookup (store_subscribers s') i = Some ch" for i ch
    using that assms(2) by (auto simp: ReplaceWithContext_current [OF assms(1)] store_wf_def send_latest_wf)
  then show ?thesis using assms(3) by (simp add: store_wf_def ReplaceWithContext_current [OF assms(1)])
qed

lemma Replace_current: "store_current (Replace m c snapshot s) = Some snapshot"
  using ReplaceWithContext_current(1) unfolding Replace_def by (metis prod.collapse)

interpretation store: rule_store store_wf FindRule Rules store_current "Replace m c"
proof unfold_locales
  fix s :: "'a Store" and code k
  show "FindRule s code k = (zero_Rule, False) \<or> (\<exists>r. FindRule s code k = (r, True))"
    by (rule FindRule_cases)
next
  fix s :: "'a Store" and code k r
  assume "store_wf s" "FindRule s code k = (r, True)"
  from FindRule_id [OF this]
  show "rule_RuleID r = k \<and> k \<noteq> [] \<and> 0 <s rule_Quota r \<and> 0 <s rule_WindowSeconds r" by simp
next
  fix s :: "'a Store" and snapshot
  assume "store_wf s" "snapshot_wf snapshot"
  then show "store_wf (Replace m c snapshot s)"
    unfolding Replace_def by (metis ReplaceWithContext_wf prod.collapse)
qed (simp_all add: Rules_set_all Rules_set_some Replace_current FindRule_iff)

lemma NewStore_wf: "snapshot_wf snapshot \<Longrightarrow> store_wf (NewStore snapshot)"
  unfolding NewStore_def by (rule store.inv_replace) (simp_all add: store_wf_def)

lemma Subscribe_wf:
  "store_wf s \<Longrightarrow> store_wf (snd (Subscribe buffer s))"
  by (auto simp: store_wf_def Subscribe_def Let_def word_sle_eq not_le split: if_splits)

lemma unsubscribe_wf: "store_wf s \<Longrightarrow> store_wf (unsubscribe sub s)"
  by (auto simp: store_wf_def unsubscribe_def split: if_splits)

subsection \<open>Properties\<close>

text \<open>C17: replacing the snapshot makes it the one every lookup reads and puts it last in the
  buffer of every subscriber, losing at most the oldest element of a full buffer, whether or
  not the write to the cache fails.\<close>

theorem ReplaceWithContext_publishes:
  assumes "store_wf s" and "ReplaceWithContext m c snapshot s = (s', err)"
  shows "Store_Snapshot now s' = snapshot \<and>
    (\<forall>code k. FindRule s' code k =
       (case rule_at snapshot code k of None \<Rightarrow> (zero_Rule, False) | Some r \<Rightarrow> (r, True))) \<and>
    (\<forall>i. rel_option (\<lambda>ch ch'. (\<exists>n \<le> 1. chan_buffer ch' = drop n (chan_buffer ch) @ [snapshot]) \<and>
        chan_capacity ch' = chan_capacity ch \<and>
        int (length (chan_buffer ch')) \<le> sint (chan_capacity ch))
      (fmlookup (store_subscribers s) i) (fmlookup (store_subscribers s') i))"
proof (intro conjI allI)
  note current = ReplaceWithContext_current [OF assms(2)]
  show "Store_Snapshot now s' = snapshot" by (simp add: Store_Snapshot_def current)
  show "FindRule s' code k =
      (case rule_at snapshot code k of None \<Rightarrow> (zero_Rule, False) | Some r \<Rightarrow> (r, True))" for code k
    using store.find_replace [of m c snapshot s code k] assms(2) by (simp add: Replace_def)
  fix i
  show "rel_option (\<lambda>ch ch'. (\<exists>n \<le> 1. chan_buffer ch' = drop n (chan_buffer ch) @ [snapshot]) \<and>
        chan_capacity ch' = chan_capacity ch \<and>
        int (length (chan_buffer ch')) \<le> sint (chan_capacity ch))
      (fmlookup (store_subscribers s) i) (fmlookup (store_subscribers s') i)"
  proof (cases "fmlookup (store_subscribers s) i")
    case (Some ch)
    then have "0 < sint (chan_capacity ch)" "int (length (chan_buffer ch)) \<le> sint (chan_capacity ch)"
      using assms(1) by (auto simp: store_wf_def)
    from send_latest_last [OF this, of snapshot] Some show ?thesis by (auto simp: current)
  qed (simp add: current)
qed

definition example_store :: "unit Store" where
  "example_store =
     (snd (Subscribe 1 (NewStore (EmptySnapshot 0))))\<lparr>store_cache := Some ()\<rparr>"

lemma ReplaceWithContext_publishes_witness:
  "\<exists>s'. ReplaceWithContext (\<lambda>_. Inr ''x'') (\<lambda>u _ _. (u, Some ''down'')) (EmptySnapshot 5) example_store
      = (s', Some ''down'') \<and>
    Store_Snapshot 9 s' = EmptySnapshot 5"
proof -
  let ?r = "ReplaceWithContext (\<lambda>_. Inr ''x'') (\<lambda>u _ _. (u, Some ''down'')) (EmptySnapshot 5) example_store"
  have "snapshot_wf (EmptySnapshot 0)" by (rule snapshot_wf_empty) (simp add: EmptySnapshot_def)
  then have "store_wf example_store"
    using Subscribe_wf [OF NewStore_wf, of "EmptySnapshot 0" 1]
    by (simp add: example_store_def store_wf_def)
  moreover have "?r = (fst ?r, Some ''down'')"
    by (simp add: ReplaceWithContext_def cacheSnapshot_def Let_def example_store_def)
  ultimately show ?thesis using ReplaceWithContext_publishes by blast
qed

end
