(* ===== verification/Proto.thy ===== *)
theory Proto
  imports Prelude
begin

text \<open>
  The messages of \<open>api/stellpulsar/v1\<close>, as the generated Go types have them. A pointer that
  may be nil is an option; the elements of repeated fields and the bodies of a \<open>oneof\<close>, which
  decoding never leaves nil, are plain; map fields are finite maps, nil and empty alike.
\<close>

datatype QuotaDecision =
    QUOTA_DECISION_UNSPECIFIED
  | QUOTA_DECISION_ALLOWED
  | QUOTA_DECISION_DENIED
  | QUOTA_DECISION_RULE_STALE
  | QUOTA_DECISION_SERVER_RULE_LAG
  | QUOTA_DECISION_RULE_CONFLICT
  | QUOTA_DECISION_RULE_NOT_FOUND
  | QUOTA_DECISION_INVALID_REQUEST
  | QUOTA_DECISION_NOT_OWNER
  | QUOTA_DECISION_SHARD_MIGRATING

datatype RuleValidationStatus =
    RULE_VALIDATION_STATUS_UNSPECIFIED
  | RULE_VALIDATION_STATUS_MATCHED
  | RULE_VALIDATION_STATUS_CLIENT_STALE
  | RULE_VALIDATION_STATUS_SERVER_STALE
  | RULE_VALIDATION_STATUS_CONFLICT
  | RULE_VALIDATION_STATUS_NOT_FOUND

record PulsarInstance =
  PI_InstanceId :: string
  PI_Host :: string
  PI_Port :: int32
  PI_Priority :: int32
  PI_Weight :: int32
  PI_Zone :: string
  PI_Version :: string
  PI_RuleRevision :: string
  PI_State :: string
  PI_Metadata :: "(string, string) fmap"

record RuleDigest =
  Dig_ApplicationCode :: string
  Dig_RuleId :: string
  Dig_Revision :: string
  Dig_Checksum :: string
  Dig_SchemaVersion :: string

record RateLimitRule =
  RLRule_ApplicationCode :: string
  RLRule_RuleId :: string
  RLRule_Name :: string
  RLRule_Revision :: string
  RLRule_Checksum :: string
  RLRule_SchemaVersion :: string
  RLRule_Algorithm :: string
  RLRule_Quota :: int64
  RLRule_WindowSeconds :: int64
  RLRule_Burst :: int64
  RLRule_Dimensions :: "string list"
  RLRule_FailPolicy :: string
  RLRule_Attributes :: "(string, string) fmap"

record ListInstancesRequest =
  ListReq_Namespace :: string
  ListReq_ApplicationCode :: string
  ListReq_ClientId :: string
  ListReq_SupportedProtocolVersions :: "string list"
  ListReq_Labels :: "(string, string) fmap"

record ListInstancesResponse =
  ListRes_ProtocolVersion :: string
  ListRes_InstanceRevision :: string
  ListRes_ExpiresAtUnixMs :: int64
  ListRes_Instances :: "PulsarInstance list"
  ListRes_HashAlgorithm :: string

record AcquireQuotaRequest =
  Req_RequestId :: string
  Req_ApplicationCode :: string
  Req_ClientId :: string
  Req_RuleId :: string
  Req_QuotaKey :: string
  Req_Cost :: int64
  Req_RuleRevision :: string
  Req_RuleChecksum :: string
  Req_Attributes :: "(string, string) fmap"
  Req_TopologyRevision :: string
  Req_TargetInstanceId :: string
  Req_ShardHash :: string

record AcquireQuotaResponse =
  Res_RequestId :: string
  Res_Decision :: QuotaDecision
  Res_RuleId :: string
  Res_RuleRevision :: string
  Res_RuleChecksum :: string
  Res_Remaining :: int64
  Res_ResetAtUnixMs :: int64
  Res_RetryAfterMs :: int64
  Res_Reason :: string
  Res_TopologyRevision :: string
  Res_OwnerInstance :: "PulsarInstance option"
  Res_HashAlgorithm :: string

record GetRuleSnapshotRequest =
  SnapReq_ApplicationCode :: string
  SnapReq_RuleIds :: "string list"
  SnapReq_KnownRevision :: string

record GetRuleSnapshotResponse =
  SnapRes_ApplicationCode :: string
  SnapRes_Revision :: string
  SnapRes_Checksum :: string
  SnapRes_Rules :: "RateLimitRule list"

record ValidateRuleSnapshotRequest =
  ValReq_ApplicationCode :: string
  ValReq_RuleDigests :: "RuleDigest list"

record RuleValidationResult =
  ValResult_ClientDigest :: "RuleDigest option"
  ValResult_ServerDigest :: "RuleDigest option"
  ValResult_Status :: RuleValidationStatus
  ValResult_Message :: string

record ValidateRuleSnapshotResponse =
  ValRes_ApplicationCode :: string
  ValRes_Status :: RuleValidationStatus
  ValRes_Results :: "RuleValidationResult list"

record ClientHello =
  CHello_ProtocolVersion :: string
  CHello_SdkVersion :: string
  CHello_ApplicationCode :: string
  CHello_ClientId :: string
  CHello_SelectedInstanceId :: string
  CHello_RuleDigests :: "RuleDigest list"

record ClientHeartbeat =
  CHeart_SentAtUnixMs :: int64
  CHeart_LastSeenServerRuleRevision :: string

record ClientRuleDigest =
  CDigest_RuleDigests :: "RuleDigest list"

record ClientAck =
  CAck_AckId :: string
  CAck_AckType :: string
  CAck_Revision :: string
  CAck_Message :: string

datatype ClientFrame_Payload =
    ClientFrame_Hello ClientHello
  | ClientFrame_Heartbeat ClientHeartbeat
  | ClientFrame_RuleDigest ClientRuleDigest
  | ClientFrame_Ack ClientAck

record ClientFrame =
  CFrame_SessionId :: string
  CFrame_ClientId :: string
  CFrame_ApplicationCode :: string
  CFrame_Payload :: "ClientFrame_Payload option"

record ServerHello =
  SHello_ProtocolVersion :: string
  SHello_ServerInstanceId :: string
  SHello_GlobalRuleRevision :: string
  SHello_RuleDigests :: "RuleDigest list"
  SHello_HeartbeatIntervalMs :: int64

record ServerHeartbeat =
  SHeart_SentAtUnixMs :: int64
  SHeart_GlobalRuleRevision :: string

record ServerRuleChanged =
  SChanged_GlobalRuleRevision :: string
  SChanged_ChangedRules :: "RuleDigest list"
  SChanged_RequiresClientResync :: bool

record ServerDrain =
  SDrain_Reason :: string
  SDrain_DeadlineUnixMs :: int64
  SDrain_PreferredInstances :: "PulsarInstance list"

record ServerError =
  SError_Code :: string
  SError_Message :: string
  SError_RetryAfterMs :: int64

datatype ServerFrame_Payload =
    ServerFrame_Hello ServerHello
  | ServerFrame_Heartbeat ServerHeartbeat
  | ServerFrame_RuleChanged ServerRuleChanged
  | ServerFrame_Drain ServerDrain
  | ServerFrame_Error ServerError

record ServerFrame =
  SFrame_SessionId :: string
  SFrame_ServerInstanceId :: string
  SFrame_Payload :: "ServerFrame_Payload option"

subsection \<open>Getters of request pointers\<close>

text \<open>A getter of a nil message returns the zero value of the field.\<close>

definition Req_GetRequestId :: "AcquireQuotaRequest option \<Rightarrow> string" where
  "Req_GetRequestId x = (case x of None \<Rightarrow> [] | Some m \<Rightarrow> Req_RequestId m)"

definition Req_GetApplicationCode :: "AcquireQuotaRequest option \<Rightarrow> string" where
  "Req_GetApplicationCode x = (case x of None \<Rightarrow> [] | Some m \<Rightarrow> Req_ApplicationCode m)"

definition Req_GetRuleId :: "AcquireQuotaRequest option \<Rightarrow> string" where
  "Req_GetRuleId x = (case x of None \<Rightarrow> [] | Some m \<Rightarrow> Req_RuleId m)"

definition Req_GetQuotaKey :: "AcquireQuotaRequest option \<Rightarrow> string" where
  "Req_GetQuotaKey x = (case x of None \<Rightarrow> [] | Some m \<Rightarrow> Req_QuotaKey m)"

definition Req_GetCost :: "AcquireQuotaRequest option \<Rightarrow> int64" where
  "Req_GetCost x = (case x of None \<Rightarrow> 0 | Some m \<Rightarrow> Req_Cost m)"

definition Req_GetRuleRevision :: "AcquireQuotaRequest option \<Rightarrow> string" where
  "Req_GetRuleRevision x = (case x of None \<Rightarrow> [] | Some m \<Rightarrow> Req_RuleRevision m)"

definition Req_GetRuleChecksum :: "AcquireQuotaRequest option \<Rightarrow> string" where
  "Req_GetRuleChecksum x = (case x of None \<Rightarrow> [] | Some m \<Rightarrow> Req_RuleChecksum m)"

definition Req_GetTopologyRevision :: "AcquireQuotaRequest option \<Rightarrow> string" where
  "Req_GetTopologyRevision x = (case x of None \<Rightarrow> [] | Some m \<Rightarrow> Req_TopologyRevision m)"

definition Req_GetTargetInstanceId :: "AcquireQuotaRequest option \<Rightarrow> string" where
  "Req_GetTargetInstanceId x = (case x of None \<Rightarrow> [] | Some m \<Rightarrow> Req_TargetInstanceId m)"

definition SnapReq_GetApplicationCode :: "GetRuleSnapshotRequest option \<Rightarrow> string" where
  "SnapReq_GetApplicationCode x = (case x of None \<Rightarrow> [] | Some m \<Rightarrow> SnapReq_ApplicationCode m)"

definition SnapReq_GetRuleIds :: "GetRuleSnapshotRequest option \<Rightarrow> string list" where
  "SnapReq_GetRuleIds x = (case x of None \<Rightarrow> [] | Some m \<Rightarrow> SnapReq_RuleIds m)"

definition ValReq_GetApplicationCode :: "ValidateRuleSnapshotRequest option \<Rightarrow> string" where
  "ValReq_GetApplicationCode x = (case x of None \<Rightarrow> [] | Some m \<Rightarrow> ValReq_ApplicationCode m)"

definition ValReq_GetRuleDigests :: "ValidateRuleSnapshotRequest option \<Rightarrow> RuleDigest list" where
  "ValReq_GetRuleDigests x = (case x of None \<Rightarrow> [] | Some m \<Rightarrow> ValReq_RuleDigests m)"

subsection \<open>Composite literals\<close>

text \<open>The fields a composite literal leaves out have their zero values.\<close>

definition new_AcquireQuotaResponse :: AcquireQuotaResponse where
  "new_AcquireQuotaResponse =
     \<lparr>Res_RequestId = [],
      Res_Decision = QUOTA_DECISION_UNSPECIFIED,
      Res_RuleId = [],
      Res_RuleRevision = [],
      Res_RuleChecksum = [],
      Res_Remaining = 0,
      Res_ResetAtUnixMs = 0,
      Res_RetryAfterMs = 0,
      Res_Reason = [],
      Res_TopologyRevision = [],
      Res_OwnerInstance = None,
      Res_HashAlgorithm = []\<rparr>"

definition new_ServerError :: ServerError where
  "new_ServerError =
     \<lparr>SError_Code = [],
      SError_Message = [],
      SError_RetryAfterMs = 0\<rparr>"

definition new_RuleDigest :: RuleDigest where
  "new_RuleDigest =
     \<lparr>Dig_ApplicationCode = [],
      Dig_RuleId = [],
      Dig_Revision = [],
      Dig_Checksum = [],
      Dig_SchemaVersion = []\<rparr>"

end
