(* ===== verification/QuotaEngine.thy ===== *)
theory QuotaEngine
  imports RuleStore Proto
begin

text \<open>
  \<open>internal/quota/engine.go\<close>: fixed-window buckets, one per application, rule and quota key.
  The methods read the rule store, which may be replaced between two reads: \<open>Acquire\<close> takes
  the store as its validation sees it and the store as its second lookup sees it. The clock
  is an argument. \<open>Acquire\<close> holds the engine's mutex from the cleanup to its return, so one
  call is one step; it also writes the default cost into the request, which is returned.
\<close>

record bucket =
  bucket_remaining :: int64
  bucket_resetAt :: time

record Engine =
  engine_serverLagRetryAfter :: duration
  engine_bucketGCInterval :: duration
  engine_expiredBucketGrace :: duration
  engine_maxBuckets :: int64
  engine_nextCleanupAt :: time
  engine_buckets :: "(string, bucket) fmap"

record EngineConfig =
  ec_ServerLagRetryAfter :: duration
  ec_BucketGCInterval :: duration
  ec_ExpiredBucketGrace :: duration
  ec_MaxBuckets :: int64

definition NewEngine :: "EngineConfig \<Rightarrow> Engine" where
  "NewEngine config =
     \<lparr>engine_serverLagRetryAfter =
        (if ec_ServerLagRetryAfter config \<le>s 0 then 50 * Millisecond else ec_ServerLagRetryAfter config),
      engine_bucketGCInterval =
        (if ec_BucketGCInterval config \<le>s 0 then 30 * Second else ec_BucketGCInterval config),
      engine_expiredBucketGrace =
        (if ec_ExpiredBucketGrace config \<le>s 0 then 2 * Minute else ec_ExpiredBucketGrace config),
      engine_maxBuckets = (if ec_MaxBuckets config \<le>s 0 then 1000000 else ec_MaxBuckets config),
      engine_nextCleanupAt = zero_time,
      engine_buckets = fmempty\<rparr>"

subsection \<open>Validation\<close>

definition validateRequest :: "AcquireQuotaRequest option \<Rightarrow> string" where
  "validateRequest request =
     (if request = None then ''request_required''
      else if TrimSpace (Req_GetApplicationCode request) = [] then ''application_code_required''
      else if TrimSpace (Req_GetRuleId request) = [] then ''rule_id_required''
      else if TrimSpace (Req_GetQuotaKey request) = [] then ''quota_key_required''
      else if TrimSpace (Req_GetRuleRevision request) = [] then ''rule_revision_required''
      else if TrimSpace (Req_GetRuleChecksum request) = [] then ''rule_checksum_required''
      else [])"

definition compareRuleVersion :: "Rule \<Rightarrow> string \<Rightarrow> string \<Rightarrow> QuotaDecision \<times> string" where
  "compareRuleVersion rule clientRevision clientChecksum =
     (let checksum_result =
            (if clientChecksum \<noteq> [] \<and> clientChecksum \<noteq> rule_Checksum rule
             then (QUOTA_DECISION_RULE_CONFLICT, ''rule_checksum_conflict'')
             else (QUOTA_DECISION_UNSPECIFIED, [])) in
      if clientRevision = [] \<and> clientChecksum = [] then (QUOTA_DECISION_UNSPECIFIED, [])
      else if clientRevision \<noteq> [] then
        (case ParseInt clientRevision of
           (clientVersion, None) \<Rightarrow>
             (if rule_SnapshotVersion rule <s clientVersion
              then (QUOTA_DECISION_SERVER_RULE_LAG, ''server_rule_lag'')
              else if clientVersion <s rule_SnapshotVersion rule
              then (QUOTA_DECISION_RULE_STALE, ''client_rule_stale'')
              else checksum_result)
         | (_, Some _) \<Rightarrow>
             (if clientRevision \<noteq> Revision rule
              then (QUOTA_DECISION_RULE_CONFLICT, ''rule_revision_conflict'')
              else checksum_result))
      else checksum_result)"

definition Validate :: "Engine \<Rightarrow> 'c Store \<Rightarrow> AcquireQuotaRequest option \<Rightarrow> AcquireQuotaResponse" where
  "Validate e st request =
     (let response = new_AcquireQuotaResponse
            \<lparr>Res_RequestId := Req_GetRequestId request, Res_RuleId := Req_GetRuleId request\<rparr>;
          reason = validateRequest request in
      if reason \<noteq> [] then
        response\<lparr>Res_Decision := QUOTA_DECISION_INVALID_REQUEST, Res_Reason := reason\<rparr>
      else case FindRule st (Req_GetApplicationCode request) (Req_GetRuleId request) of
        (_, False) \<Rightarrow>
          response\<lparr>Res_Decision := QUOTA_DECISION_RULE_NOT_FOUND, Res_Reason := ''rule_not_found''\<rparr>
      | (rule, True) \<Rightarrow>
          (let response = response\<lparr>Res_RuleRevision := Revision rule, Res_RuleChecksum := rule_Checksum rule\<rparr> in
           case compareRuleVersion rule (Req_GetRuleRevision request) (Req_GetRuleChecksum request) of
             (decision, reason) \<Rightarrow>
               (if decision \<noteq> QUOTA_DECISION_UNSPECIFIED then
                  (let response = response\<lparr>Res_Decision := decision, Res_Reason := reason\<rparr> in
                   if decision = QUOTA_DECISION_SERVER_RULE_LAG
                   then response\<lparr>Res_RetryAfterMs := Milliseconds (engine_serverLagRetryAfter e)\<rparr>
                   else response)
                else if rule_Quota rule \<le>s 0 \<or> rule_WindowSeconds rule \<le>s 0 then
                  response\<lparr>Res_Decision := QUOTA_DECISION_DENIED, Res_Reason := ''invalid_rule_quota''\<rparr>
                else response)))"

subsection \<open>Acquire\<close>

definition maxInt64 :: "int64 \<Rightarrow> int64 \<Rightarrow> int64" where
  "maxInt64 left right = (if right <s left then left else right)"

definition at_capacity :: "Engine \<Rightarrow> bool" where
  "at_capacity e \<longleftrightarrow> sint (engine_maxBuckets e) \<le> int (go_len (engine_buckets e))"

definition cleanupExpiredLocked :: "time \<Rightarrow> Engine \<Rightarrow> Engine" where
  "cleanupExpiredLocked current e =
     (if \<not> IsZero (engine_nextCleanupAt e) \<and> Before current (engine_nextCleanupAt e) \<and> \<not> at_capacity e
      then e
      else e\<lparr>engine_buckets :=
               delete_where (\<lambda>key state.
                 \<not> Before current (Add (bucket_resetAt state) (engine_expiredBucketGrace e)))
                 (engine_buckets e),
             engine_nextCleanupAt := Add current (engine_bucketGCInterval e)\<rparr>)"

definition bucket_key :: "AcquireQuotaRequest option \<Rightarrow> string" where
  "bucket_key request =
     Req_GetApplicationCode request @ '':'' @ Req_GetRuleId request @ '':'' @ Req_GetQuotaKey request"

text \<open>The part of \<open>Acquire\<close> that runs under the mutex, for the request with its cost set.\<close>

definition acquireLocked ::
    "Rule \<Rightarrow> time \<Rightarrow> string \<Rightarrow> int64 \<Rightarrow> AcquireQuotaResponse \<Rightarrow> Engine \<Rightarrow>
     AcquireQuotaResponse \<times> Engine" where
  "acquireLocked rule current key cost response e0 =
     (let window = rule_WindowSeconds rule * Second;
          e = cleanupExpiredLocked current e0;
          found = fmlookup (engine_buckets e) key in
      if found = None \<and> at_capacity e then
        (response\<lparr>Res_Decision := QUOTA_DECISION_DENIED, Res_Reason := ''bucket_capacity_exceeded'',
                  Res_RetryAfterMs := Milliseconds (engine_bucketGCInterval e)\<rparr>, e)
      else
        (let fresh = \<lparr>bucket_remaining = rule_Quota rule, bucket_resetAt = Add current window\<rparr>;
             state = (case found of
               None \<Rightarrow> fresh
             | Some b \<Rightarrow> (if \<not> Before current (bucket_resetAt b) then fresh else b));
             e' = e\<lparr>engine_buckets := fmupd key state (engine_buckets e)\<rparr> in
         if bucket_remaining state <s cost then
           (response\<lparr>Res_Decision := QUOTA_DECISION_DENIED,
                     Res_Remaining := bucket_remaining state,
                     Res_ResetAtUnixMs := UnixMilli (bucket_resetAt state),
                     Res_RetryAfterMs := maxInt64 0 (Milliseconds (Sub (bucket_resetAt state) current)),
                     Res_Reason := ''rate_limited''\<rparr>, e')
         else
           (let state' = state\<lparr>bucket_remaining := bucket_remaining state - cost\<rparr> in
            (response\<lparr>Res_Decision := QUOTA_DECISION_ALLOWED,
                      Res_Remaining := bucket_remaining state',
                      Res_ResetAtUnixMs := UnixMilli (bucket_resetAt state'),
                      Res_Reason := ''allowed''\<rparr>,
             e'\<lparr>engine_buckets := fmupd key state' (engine_buckets e')\<rparr>))))"

definition with_default_cost :: "AcquireQuotaRequest option \<Rightarrow> AcquireQuotaRequest option" where
  "with_default_cost request =
     (if Req_GetCost request \<le>s 0 then map_option (\<lambda>r. r\<lparr>Req_Cost := 1\<rparr>) request else request)"

definition Acquire ::
    "'c Store \<Rightarrow> 'c Store \<Rightarrow> time \<Rightarrow> AcquireQuotaRequest option \<Rightarrow> Engine \<Rightarrow>
     AcquireQuotaRequest option \<times> AcquireQuotaResponse \<times> Engine" where
  "Acquire st st' now request0 e =
     (let response = Validate e st request0 in
      if Res_Decision response \<noteq> QUOTA_DECISION_UNSPECIFIED then (request0, response, e)
      else
        (let request = with_default_cost request0;
             rule = fst (FindRule st' (Req_GetApplicationCode request) (Req_GetRuleId request)) in
         case acquireLocked rule now (bucket_key request) (Req_GetCost request) response e of
           (response', e') \<Rightarrow> (request, response', e')))"

subsection \<open>What validation establishes\<close>

lemma new_response_sel [simp]:
  "Res_Decision new_AcquireQuotaResponse = QUOTA_DECISION_UNSPECIFIED"
  by (simp add: new_AcquireQuotaResponse_def)

lemma sless_antisym: "\<not> w <s v \<Longrightarrow> \<not> v <s w \<Longrightarrow> v = (w :: int64)"
  by (metis order.antisym not_less signed_word_eqI word_sless_alt)

definition revision_ok :: "Rule \<Rightarrow> string \<Rightarrow> bool" where
  "revision_ok rule revision \<longleftrightarrow>
     revision = [] \<or>
     (case ParseInt revision of
        (v, None) \<Rightarrow> v = rule_SnapshotVersion rule
      | (_, Some _) \<Rightarrow> revision = Revision rule)"

lemma compareRuleVersion_unspecified:
  "fst (compareRuleVersion rule revision checksum) = QUOTA_DECISION_UNSPECIFIED \<longleftrightarrow>
     revision_ok rule revision \<and> (checksum = [] \<or> checksum = rule_Checksum rule)"
proof (cases "ParseInt revision")
  case (Pair v err)
  show ?thesis
  proof (cases err)
    case None
    with Pair show ?thesis
      by (auto simp: compareRuleVersion_def Let_def revision_ok_def intro: sless_antisym)
  next
    case (Some e)
    with Pair show ?thesis by (auto simp: compareRuleVersion_def Let_def revision_ok_def)
  qed
qed

definition fields_present :: "AcquireQuotaRequest \<Rightarrow> bool" where
  "fields_present r \<longleftrightarrow>
     TrimSpace (Req_ApplicationCode r) \<noteq> [] \<and> TrimSpace (Req_RuleId r) \<noteq> [] \<and>
     TrimSpace (Req_QuotaKey r) \<noteq> [] \<and> TrimSpace (Req_RuleRevision r) \<noteq> [] \<and>
     TrimSpace (Req_RuleChecksum r) \<noteq> []"

lemma validateRequest_ok:
  "validateRequest request = [] \<longleftrightarrow> (\<exists>r. request = Some r \<and> fields_present r)"
  by (cases request)
    (simp_all add: validateRequest_def fields_present_def Req_GetApplicationCode_def Req_GetRuleId_def
      Req_GetQuotaKey_def Req_GetRuleRevision_def Req_GetRuleChecksum_def)

lemma request_getters [simp]:
  "Req_GetApplicationCode (Some r) = Req_ApplicationCode r" "Req_GetRuleId (Some r) = Req_RuleId r"
  "Req_GetQuotaKey (Some r) = Req_QuotaKey r" "Req_GetRuleRevision (Some r) = Req_RuleRevision r"
  "Req_GetRuleChecksum (Some r) = Req_RuleChecksum r" "Req_GetCost (Some r) = Req_Cost r"
  "Req_GetRequestId (Some r) = Req_RequestId r"
  by (simp_all add: Req_GetApplicationCode_def Req_GetRuleId_def Req_GetQuotaKey_def
      Req_GetRuleRevision_def Req_GetRuleChecksum_def Req_GetCost_def Req_GetRequestId_def)

lemma Validate_unspecified:
  "Res_Decision (Validate e st request) = QUOTA_DECISION_UNSPECIFIED \<longleftrightarrow>
     (\<exists>r rule. request = Some r \<and> fields_present r \<and>
        FindRule st (Req_ApplicationCode r) (Req_RuleId r) = (rule, True) \<and>
        revision_ok rule (Req_RuleRevision r) \<and> Req_RuleChecksum r = rule_Checksum rule \<and>
        0 <s rule_Quota rule \<and> 0 <s rule_WindowSeconds rule)"
proof (cases "validateRequest request = []")
  case False
  then show ?thesis
    by (auto simp: Validate_def Let_def validateRequest_ok)
next
  case True
  then obtain r where r: "request = Some r" "fields_present r" by (auto simp: validateRequest_ok)
  obtain rule found where f: "FindRule st (Req_ApplicationCode r) (Req_RuleId r) = (rule, found)"
    by fastforce
  have nonempty: "Req_RuleChecksum r \<noteq> []" using r(2) by (auto simp: fields_present_def)
  obtain d m where c: "compareRuleVersion rule (Req_RuleRevision r) (Req_RuleChecksum r) = (d, m)"
    by fastforce
  have d: "d = QUOTA_DECISION_UNSPECIFIED \<longleftrightarrow>
      revision_ok rule (Req_RuleRevision r) \<and> Req_RuleChecksum r = rule_Checksum rule"
    using compareRuleVersion_unspecified [of rule "Req_RuleRevision r" "Req_RuleChecksum r"] c nonempty
    by simp
  show ?thesis
    using True r f c d
    by (cases found) (auto simp: Validate_def Let_def not_sle_0 [symmetric])
qed

end
