(* ===== verification/QuotaLimits.thy ===== *)
theory QuotaLimits
  imports QuotaEngine
begin

text \<open>
  What the buckets of the engine guarantee: how many units a sequence of calls can take from
  one bucket, how many buckets there are, and what a denial leaves behind.
\<close>

subsection \<open>One call under the mutex\<close>

lemma cleanup_frame [simp]:
  "engine_serverLagRetryAfter (cleanupExpiredLocked now e) = engine_serverLagRetryAfter e"
  "engine_bucketGCInterval (cleanupExpiredLocked now e) = engine_bucketGCInterval e"
  "engine_expiredBucketGrace (cleanupExpiredLocked now e) = engine_expiredBucketGrace e"
  "engine_maxBuckets (cleanupExpiredLocked now e) = engine_maxBuckets e"
  by (simp_all add: cleanupExpiredLocked_def)

text \<open>The cleanup deletes no bucket before its reset time and a positive grace have passed.\<close>

lemma cleanup_lookup:
  assumes "0 <s engine_expiredBucketGrace e"
  shows "fmlookup (engine_buckets (cleanupExpiredLocked now e)) k = fmlookup (engine_buckets e) k \<or>
    fmlookup (engine_buckets (cleanupExpiredLocked now e)) k = None \<and>
    (\<exists>b. fmlookup (engine_buckets e) k = Some b \<and> bucket_resetAt b \<le> now)"
proof (cases "fmlookup (engine_buckets e) k")
  case (Some b)
  have "0 < sint (engine_expiredBucketGrace e)" using assms by (simp add: word_sless_alt)
  then show ?thesis using Some by (auto simp: cleanupExpiredLocked_def Before_def Add_def)
qed (simp add: cleanupExpiredLocked_def)

lemma cleanup_len: "go_len (engine_buckets (cleanupExpiredLocked now e)) \<le> go_len (engine_buckets e)"
  by (simp add: cleanupExpiredLocked_def delete_where_len)

lemma acquireLocked_cases:
  fixes rule :: Rule and now key cost response e0
  defines "e \<equiv> cleanupExpiredLocked now e0"
    and "fresh \<equiv> \<lparr>bucket_remaining = rule_Quota rule, bucket_resetAt = now + sint (rule_WindowSeconds rule * Second)\<rparr>"
  assumes "acquireLocked rule now key cost response e0 = (res, e')"
  obtains (full) "fmlookup (engine_buckets e) key = None" "at_capacity e" "e' = e"
      "Res_Decision res = QUOTA_DECISION_DENIED" "Res_Reason res = ''bucket_capacity_exceeded''"
    | (denied) state where "state = (case fmlookup (engine_buckets e) key of None \<Rightarrow> fresh
          | Some b \<Rightarrow> if bucket_resetAt b \<le> now then fresh else b)"
      "fmlookup (engine_buckets e) key = None \<Longrightarrow> \<not> at_capacity e"
      "bucket_remaining state <s cost" "Res_Decision res = QUOTA_DECISION_DENIED"
      "Res_Reason res = ''rate_limited''" "Res_Remaining res = bucket_remaining state"
      "Res_RetryAfterMs res = maxInt64 0 (Milliseconds (Sub (bucket_resetAt state) now))"
      "e' = e\<lparr>engine_buckets := fmupd key state (engine_buckets e)\<rparr>"
    | (allowed) state where "state = (case fmlookup (engine_buckets e) key of None \<Rightarrow> fresh
          | Some b \<Rightarrow> if bucket_resetAt b \<le> now then fresh else b)"
      "fmlookup (engine_buckets e) key = None \<Longrightarrow> \<not> at_capacity e"
      "\<not> bucket_remaining state <s cost" "Res_Decision res = QUOTA_DECISION_ALLOWED"
      "Res_Remaining res = bucket_remaining state - cost"
      "e' = e\<lparr>engine_buckets :=
         fmupd key (state\<lparr>bucket_remaining := bucket_remaining state - cost\<rparr>) (engine_buckets e)\<rparr>"
proof -
  let ?state = "case fmlookup (engine_buckets e) key of None \<Rightarrow> fresh
    | Some b \<Rightarrow> if bucket_resetAt b \<le> now then fresh else b"
  have fresh: "\<lparr>bucket_remaining = rule_Quota rule, bucket_resetAt = Add now (rule_WindowSeconds rule * Second)\<rparr> = fresh"
    by (simp add: fresh_def Add_def)
  have state: "(case fmlookup (engine_buckets e) key of None \<Rightarrow> fresh
      | Some b \<Rightarrow> if \<not> Before now (bucket_resetAt b) then fresh else b) = ?state"
    by (simp add: Before_def not_less split: option.split)
  note eq = assms(3) [unfolded acquireLocked_def Let_def e_def [symmetric] fresh state]
  show ?thesis
  proof (cases "fmlookup (engine_buckets e) key = None \<and> at_capacity e")
    case True
    with eq show ?thesis by (intro full) auto
  next
    case False
    note eq = eq [unfolded if_not_P [OF False]]
    show ?thesis
    proof (cases "bucket_remaining ?state <s cost")
      case True
      from eq [unfolded if_P [OF True]] True False show ?thesis
        by (intro denied [of ?state]) auto
    next
      case f: False
      from eq [unfolded if_not_P [OF f]] f False show ?thesis
        by (intro allowed [of ?state]) auto
    qed
  qed
qed

lemma acquireLocked_frame:
  assumes "acquireLocked rule now key cost response e = (res, e')"
  shows "engine_expiredBucketGrace e' = engine_expiredBucketGrace e"
    "engine_maxBuckets e' = engine_maxBuckets e"
    "engine_serverLagRetryAfter e' = engine_serverLagRetryAfter e"
    "engine_bucketGCInterval e' = engine_bucketGCInterval e"
  using assms by (cases rule: acquireLocked_cases; simp)+

lemma acquireLocked_other:
  assumes "acquireLocked rule now key cost response e = (res, e')" and "k \<noteq> key"
  shows "fmlookup (engine_buckets e') k = fmlookup (engine_buckets (cleanupExpiredLocked now e)) k"
  using assms(1) by (cases rule: acquireLocked_cases) (simp_all add: assms(2) [symmetric])

text \<open>The outcome on the bucket the call works on: the one it found, or a fresh one.\<close>

definition charged :: "bucket \<Rightarrow> int64 \<Rightarrow> AcquireQuotaResponse \<Rightarrow> bucket option \<Rightarrow> bool" where
  "charged b cost res found' \<longleftrightarrow>
     (if bucket_remaining b <s cost
      then Res_Decision res = QUOTA_DECISION_DENIED \<and> found' = Some b
      else Res_Decision res = QUOTA_DECISION_ALLOWED \<and>
        found' = Some (b\<lparr>bucket_remaining := bucket_remaining b - cost\<rparr>))"

lemma acquireLocked_live:
  assumes "acquireLocked rule now key cost response e = (res, e')" and "0 <s engine_expiredBucketGrace e"
    and "fmlookup (engine_buckets e) key = Some b" and "now < bucket_resetAt b"
  shows "charged b cost res (fmlookup (engine_buckets e') key)"
proof -
  have found: "fmlookup (engine_buckets (cleanupExpiredLocked now e)) key = Some b"
    using cleanup_lookup [OF assms(2), of now key] assms(3,4) by auto
  from assms(1) show ?thesis
    by (cases rule: acquireLocked_cases) (use assms(4) in \<open>simp_all add: found charged_def\<close>)
qed

lemma acquireLocked_renew:
  assumes "acquireLocked rule now key cost response e = (res, e')"
    and "case fmlookup (engine_buckets e) key of None \<Rightarrow> True | Some b \<Rightarrow> bucket_resetAt b \<le> now"
  shows "Res_Decision res = QUOTA_DECISION_DENIED \<and> fmlookup (engine_buckets e') key = None \<or>
    charged \<lparr>bucket_remaining = rule_Quota rule, bucket_resetAt = now + sint (rule_WindowSeconds rule * Second)\<rparr>
      cost res (fmlookup (engine_buckets e') key)"
proof -
  have found: "case fmlookup (engine_buckets (cleanupExpiredLocked now e)) key of
      None \<Rightarrow> True | Some b \<Rightarrow> bucket_resetAt b \<le> now"
    using assms(2) by (auto simp: cleanupExpiredLocked_def split: option.splits)
  from assms(1) show ?thesis
    by (cases rule: acquireLocked_cases)
      (use found in \<open>auto simp: charged_def split: option.splits\<close>)
qed

subsection \<open>One call of Acquire\<close>

lemma with_default_cost_key [simp]: "bucket_key (with_default_cost request) = bucket_key request"
  by (cases request) (simp_all add: with_default_cost_def bucket_key_def)

lemma with_default_cost_positive:
  "request \<noteq> None \<Longrightarrow> 0 <s Req_GetCost (with_default_cost request)"
  by (cases request) (auto simp: with_default_cost_def word_sless_alt word_sle_eq)

definition engine_limits :: "Engine \<Rightarrow> bool" where
  "engine_limits e \<longleftrightarrow> 0 <s engine_expiredBucketGrace e \<and> 0 <s engine_maxBuckets e \<and>
     0 <s engine_bucketGCInterval e"

text \<open>
  A call either fails validation and changes nothing, or it goes through the mutex with a
  positive cost.
\<close>

lemma Acquire_cases:
  assumes "Acquire st st' now request e = (request', res, e')"
  obtains (rejected) "e' = e" "request' = request" "res = Validate e st request"
      "Res_Decision res \<noteq> QUOTA_DECISION_UNSPECIFIED"
    | (locked) "Res_Decision (Validate e st request) = QUOTA_DECISION_UNSPECIFIED"
      "request \<noteq> None" "request' = with_default_cost request" "0 <s Req_GetCost request'"
      "acquireLocked (fst (FindRule st' (Req_GetApplicationCode request) (Req_GetRuleId request))) now
        (bucket_key request) (Req_GetCost request') (Validate e st request) e = (res, e')"
proof (cases "Res_Decision (Validate e st request) = QUOTA_DECISION_UNSPECIFIED")
  case False
  then show ?thesis using assms by (intro rejected) (auto simp: Acquire_def Let_def)
next
  case True
  then have some: "request \<noteq> None" by (auto simp: Validate_unspecified)
  then have "Req_GetApplicationCode (with_default_cost request) = Req_GetApplicationCode request"
    "Req_GetRuleId (with_default_cost request) = Req_GetRuleId request"
    by (auto simp: with_default_cost_def)
  with True some assms with_default_cost_positive [OF some] show ?thesis
    by (intro locked) (auto simp: Acquire_def Let_def split: prod.splits)
qed

lemma Validate_not_allowed: "Res_Decision (Validate e st request) \<noteq> QUOTA_DECISION_ALLOWED"
proof -
  have "fst (compareRuleVersion rule revision checksum) \<noteq> QUOTA_DECISION_ALLOWED" for rule revision checksum
    by (auto simp: compareRuleVersion_def Let_def split: prod.split option.split)
  then show ?thesis
    by (auto simp: Validate_def Let_def split: prod.split bool.split) (metis fst_conv)+
qed

lemma Acquire_frame:
  assumes "Acquire st st' now request e = (request', res, e')"
  shows "engine_expiredBucketGrace e' = engine_expiredBucketGrace e"
    "engine_maxBuckets e' = engine_maxBuckets e"
    "engine_bucketGCInterval e' = engine_bucketGCInterval e"
  using assms by (cases rule: Acquire_cases; simp add: acquireLocked_frame)+

lemma Acquire_key:
  assumes "Acquire st st' now request e = (request', res, e')"
  shows "bucket_key request' = bucket_key request"
  using assms by (cases rule: Acquire_cases) simp_all

text \<open>What a call takes from the bucket with a key.\<close>

definition taken :: "string \<Rightarrow> AcquireQuotaRequest option \<Rightarrow> AcquireQuotaResponse \<Rightarrow> int" where
  "taken key request res =
     (if bucket_key request = key \<and> Res_Decision res = QUOTA_DECISION_ALLOWED
      then sint (Req_GetCost request) else 0)"

lemma sint_diff:
  fixes x c :: int64
  assumes "0 <s c" and "\<not> x <s c"
  shows "sint (x - c) = sint x - sint c"
proof -
  have "0 < sint c" "sint c \<le> sint x" using assms by (simp_all add: word_sless_alt not_less)
  moreover have "x - c = word_of_int (sint x - sint c)" by simp
  moreover have "sint x < 2 ^ 63" using sint_lt [of x] by simp
  ultimately show ?thesis by (simp only: sint64_of_int)
qed

lemma charged_taken:
  assumes "charged b cost res found'" and "0 <s cost" and "0 \<le> sint (bucket_remaining b)"
  shows "\<exists>b'. found' = Some b' \<and> bucket_resetAt b' = bucket_resetAt b \<and>
    sint (bucket_remaining b') =
      sint (bucket_remaining b) - (if Res_Decision res = QUOTA_DECISION_ALLOWED then sint cost else 0) \<and>
    0 \<le> sint (bucket_remaining b')"
proof (cases "bucket_remaining b <s cost")
  case True
  with assms show ?thesis by (simp add: charged_def)
next
  case False
  with assms sint_diff [OF assms(2) False] show ?thesis
    by (auto simp: charged_def word_sless_alt)
qed

text \<open>A call on an engine whose bucket for a key has not reached its reset time.\<close>

lemma Acquire_live:
  assumes call: "Acquire st st' now request e = (request', res, e')" and grace: "0 <s engine_expiredBucketGrace e"
    and b: "fmlookup (engine_buckets e) key = Some b" and live: "now < bucket_resetAt b"
    and "0 \<le> sint (bucket_remaining b)"
  shows "\<exists>b'. fmlookup (engine_buckets e') key = Some b' \<and> bucket_resetAt b' = bucket_resetAt b \<and>
    sint (bucket_remaining b') = sint (bucket_remaining b) - taken key request' res \<and>
    0 \<le> sint (bucket_remaining b')"
  using call
proof (cases rule: Acquire_cases)
  case rejected
  then show ?thesis using b assms(5) Validate_not_allowed by (auto simp: taken_def)
next
  case locked
  show ?thesis
  proof (cases "bucket_key request = key")
    case True
    have t: "taken key request' res =
        (if Res_Decision res = QUOTA_DECISION_ALLOWED then sint (Req_GetCost request') else 0)"
      using True by (simp add: taken_def locked(3))
    from acquireLocked_live [OF locked(5) grace, of b] b live True
    have "charged b (Req_GetCost request') res (fmlookup (engine_buckets e') key)" by simp
    from charged_taken [OF this locked(4) assms(5)] show ?thesis unfolding t .
  next
    case False
    have "fmlookup (engine_buckets e') key = Some b"
      using acquireLocked_other [OF locked(5), of key] cleanup_lookup [OF grace, of now key] False b live
      by auto
    then show ?thesis using False assms(5) by (simp add: taken_def locked(3))
  qed
qed

subsection \<open>Sequences of calls\<close>

type_synonym 'c call = "'c Store \<times> 'c Store \<times> time \<times> AcquireQuotaRequest option"

fun acquire_all :: "'c call list \<Rightarrow> Engine \<Rightarrow> (AcquireQuotaRequest option \<times> AcquireQuotaResponse) list \<times> Engine" where
  "acquire_all [] e = ([], e)"
| "acquire_all ((st, st', now, request) # calls) e =
     (case Acquire st st' now request e of
        (request', res, e') \<Rightarrow>
          (case acquire_all calls e' of (answers, e'') \<Rightarrow> ((request', res) # answers, e'')))"

definition total_taken :: "string \<Rightarrow> (AcquireQuotaRequest option \<times> AcquireQuotaResponse) list \<Rightarrow> int" where
  "total_taken key answers = sum_list (map (\<lambda>(request, res). taken key request res) answers)"

lemma total_taken_simps [simp]:
  "total_taken key [] = 0"
  "total_taken key ((request, res) # answers) = taken key request res + total_taken key answers"
  by (simp_all add: total_taken_def)

definition call_time :: "'c call \<Rightarrow> time" where
  "call_time c = (case c of (_, _, now, _) \<Rightarrow> now)"

lemma acquire_all_live:
  assumes "acquire_all calls e = (answers, e')" and "0 <s engine_expiredBucketGrace e"
    and "fmlookup (engine_buckets e) key = Some b" and "\<forall>c \<in> set calls. call_time c < bucket_resetAt b"
    and "0 \<le> sint (bucket_remaining b)"
  shows "\<exists>b'. fmlookup (engine_buckets e') key = Some b' \<and> bucket_resetAt b' = bucket_resetAt b \<and>
    sint (bucket_remaining b') = sint (bucket_remaining b) - total_taken key answers \<and>
    0 \<le> sint (bucket_remaining b')"
  using assms
proof (induction calls arbitrary: e b answers)
  case (Cons c calls)
  obtain st st' now request where c: "c = (st, st', now, request)" by (cases c)
  obtain request' res e1 where call: "Acquire st st' now request e = (request', res, e1)"
    by (cases "Acquire st st' now request e") auto
  obtain rest where rest: "acquire_all calls e1 = (rest, e')" "answers = (request', res) # rest"
    using Cons.prems(1) c call by (auto split: prod.splits)
  have live: "now < bucket_resetAt b" using Cons.prems(4) c by (simp add: call_time_def)
  obtain b1 where b1: "fmlookup (engine_buckets e1) key = Some b1" "bucket_resetAt b1 = bucket_resetAt b"
    "sint (bucket_remaining b1) = sint (bucket_remaining b) - taken key request' res"
    "0 \<le> sint (bucket_remaining b1)"
    using Acquire_live [OF call Cons.prems(2,3) live Cons.prems(5)] by auto
  have "0 <s engine_expiredBucketGrace e1" using Cons.prems(2) Acquire_frame [OF call] by simp
  from Cons.IH [OF rest(1) this b1(1) _ b1(4)] Cons.prems(4) b1(2,3) rest(2) show ?case by auto
qed auto

text \<open>
  The rule a call reads under the mutex, and a bound on it: no more than \<open>q\<close> units in a
  window of at least \<open>w\<close> nanoseconds.
\<close>

definition call_rule :: "'c call \<Rightarrow> Rule" where
  "call_rule c =
     (case c of (_, st', _, request) \<Rightarrow>
        fst (FindRule st' (Req_GetApplicationCode request) (Req_GetRuleId request)))"

definition call_key :: "'c call \<Rightarrow> string" where
  "call_key c = (case c of (_, _, _, request) \<Rightarrow> bucket_key request)"

definition rule_bounded :: "int \<Rightarrow> int \<Rightarrow> Rule \<Rightarrow> bool" where
  "rule_bounded q w rule \<longleftrightarrow>
     0 \<le> sint (rule_Quota rule) \<and> sint (rule_Quota rule) \<le> q \<and>
     w \<le> sint (rule_WindowSeconds rule * Second)"

definition bucket_rest :: "string \<Rightarrow> Engine \<Rightarrow> int" where
  "bucket_rest key e =
     (case fmlookup (engine_buckets e) key of None \<Rightarrow> 0 | Some b \<Rightarrow> sint (bucket_remaining b))"

text \<open>A call on a bucket that is absent or due takes at most one fresh quota.\<close>

lemma Acquire_renew:
  assumes call: "Acquire st st' now request e = (request', res, e')"
    and due: "case fmlookup (engine_buckets e) key of None \<Rightarrow> True | Some b \<Rightarrow> bucket_resetAt b \<le> now"
    and key: "bucket_key request = key" and rule: "rule_bounded q w (call_rule (st, st', now, request))"
  shows "taken key request' res = 0 \<and>
      (e' = e \<or> fmlookup (engine_buckets e') key = None) \<or>
    (\<exists>b'. fmlookup (engine_buckets e') key = Some b' \<and> now + w \<le> bucket_resetAt b' \<and>
      0 \<le> sint (bucket_remaining b') \<and> sint (bucket_remaining b') + taken key request' res \<le> q)"
  using call
proof (cases rule: Acquire_cases)
  case rejected
  then show ?thesis using Validate_not_allowed by (auto simp: taken_def)
next
  case locked
  let ?rule = "fst (FindRule st' (Req_GetApplicationCode request) (Req_GetRuleId request))"
  let ?fresh = "\<lparr>bucket_remaining = rule_Quota ?rule,
    bucket_resetAt = now + sint (rule_WindowSeconds ?rule * Second)\<rparr>"
  have q: "0 \<le> sint (rule_Quota ?rule)" "sint (rule_Quota ?rule) \<le> q"
    "w \<le> sint (rule_WindowSeconds ?rule * Second)"
    using rule by (simp_all add: rule_bounded_def call_rule_def)
  have "Res_Decision res = QUOTA_DECISION_DENIED \<and> fmlookup (engine_buckets e') key = None \<or>
      charged ?fresh (Req_GetCost request') res (fmlookup (engine_buckets e') key)"
    using acquireLocked_renew [OF locked(5)] due key by simp
  then show ?thesis
  proof
    assume "charged ?fresh (Req_GetCost request') res (fmlookup (engine_buckets e') key)"
    from charged_taken [OF this locked(4)] q obtain b' where
      b': "fmlookup (engine_buckets e') key = Some b'"
      "bucket_resetAt b' = now + sint (rule_WindowSeconds ?rule * Second)" "0 \<le> sint (bucket_remaining b')"
      "sint (bucket_remaining b') = sint (rule_Quota ?rule) -
        (if Res_Decision res = QUOTA_DECISION_ALLOWED then sint (Req_GetCost request') else 0)"
      by auto
    moreover have "taken key request' res =
        (if Res_Decision res = QUOTA_DECISION_ALLOWED then sint (Req_GetCost request') else 0)"
      using key by (simp add: taken_def locked(3))
    ultimately show ?thesis using q by simp
  qed (auto simp: taken_def)
qed

lemma Acquire_other:
  assumes "Acquire st st' now request e = (request', res, e')" and "bucket_key request \<noteq> key"
    and "0 <s engine_expiredBucketGrace e"
  shows "taken key request' res = 0 \<and>
    (fmlookup (engine_buckets e') key = fmlookup (engine_buckets e) key \<or>
     fmlookup (engine_buckets e') key = None)"
  using assms(1)
proof (cases rule: Acquire_cases)
  case rejected
  then show ?thesis using assms(2) by (simp add: taken_def)
next
  case locked
  then show ?thesis
    using assms(2) acquireLocked_other [OF locked(5), of key] cleanup_lookup [OF assms(3), of now key]
    by (auto simp: taken_def)
qed

text \<open>
  Over calls whose times lie within one window length, a bucket gives at most what was left
  in it, when it is not yet due at their beginning, plus one fresh quota: after a renewal no
  other falls into the same span.
\<close>

definition live_rest :: "time \<Rightarrow> string \<Rightarrow> Engine \<Rightarrow> int" where
  "live_rest t0 key e =
     (case fmlookup (engine_buckets e) key of
        None \<Rightarrow> 0
      | Some b \<Rightarrow> if bucket_resetAt b \<le> t0 then 0 else sint (bucket_remaining b))"

lemma acquire_all_live_bound:
  assumes "acquire_all calls e = (answers, e')" and "0 <s engine_expiredBucketGrace e"
    and "\<forall>c \<in> set calls. t0 \<le> call_time c \<and> call_time c < t0 + w \<and>
      (call_key c = key \<longrightarrow> rule_bounded q w (call_rule c))"
    and "0 \<le> q" and "0 \<le> live_rest t0 key e"
  shows "total_taken key answers \<le> live_rest t0 key e + q"
  using assms
proof (induction calls arbitrary: e answers)
  case (Cons c calls)
  obtain st st' now request where c: "c = (st, st', now, request)" by (cases c)
  obtain request' res e1 where call: "Acquire st st' now request e = (request', res, e1)"
    by (cases "Acquire st st' now request e") auto
  obtain rest where rest: "acquire_all calls e1 = (rest, e')" "answers = (request', res) # rest"
    using Cons.prems(1) c call by (auto split: prod.splits)
  have grace: "0 <s engine_expiredBucketGrace e1" using Cons.prems(2) Acquire_frame [OF call] by simp
  have times: "\<forall>c \<in> set calls. t0 \<le> call_time c \<and> call_time c < t0 + w \<and>
      (call_key c = key \<longrightarrow> rule_bounded q w (call_rule c))"
    and now: "t0 \<le> now" using Cons.prems(3) c by (simp_all add: call_time_def)
  note IH = Cons.IH [OF rest(1) grace times \<open>0 \<le> q\<close>]
  note total = rest(2) total_taken_simps(2)
  show ?case
  proof (cases "\<exists>b. fmlookup (engine_buckets e) key = Some b \<and> now < bucket_resetAt b")
    case True
    then obtain b where b: "fmlookup (engine_buckets e) key = Some b" "now < bucket_resetAt b" by blast
    then have live: "live_rest t0 key e = sint (bucket_remaining b)"
      using now by (simp add: live_rest_def)
    then have "0 \<le> sint (bucket_remaining b)" using Cons.prems(5) by simp
    from Acquire_live [OF call Cons.prems(2) b this] obtain b' where
      b': "fmlookup (engine_buckets e1) key = Some b'" "0 \<le> sint (bucket_remaining b')"
      "sint (bucket_remaining b') = sint (bucket_remaining b) - taken key request' res"
      "bucket_resetAt b' = bucket_resetAt b" by auto
    then have "total_taken key rest \<le> sint (bucket_remaining b') + q"
      using IH b(2) now by (simp add: live_rest_def)
    then show ?thesis using b' live by (simp add: total)
  next
    case False
    then have due: "case fmlookup (engine_buckets e) key of None \<Rightarrow> True | Some b \<Rightarrow> bucket_resetAt b \<le> now"
      by (auto simp: not_less split: option.split)
    show ?thesis
    proof (cases "bucket_key request = key")
      case False
      from Acquire_other [OF call False Cons.prems(2)] have "taken key request' res = 0"
        "live_rest t0 key e1 = live_rest t0 key e \<or> live_rest t0 key e1 = 0"
        by (auto simp: live_rest_def)
      then show ?thesis using IH Cons.prems(5) by (auto simp: total)
    next
      case True
      have "rule_bounded q w (call_rule (st, st', now, request))"
        using Cons.prems(3) c True by (simp add: call_key_def)
      from Acquire_renew [OF call due True this] show ?thesis
      proof (elim disjE conjE exE)
        assume "taken key request' res = 0" "e1 = e"
        then show ?thesis using IH Cons.prems(5) by (simp add: total)
      next
        assume "taken key request' res = 0" "fmlookup (engine_buckets e1) key = None"
        then show ?thesis using IH Cons.prems(5) by (simp add: total live_rest_def)
      next
        fix b'
        assume b': "fmlookup (engine_buckets e1) key = Some b'" "now + w \<le> bucket_resetAt b'"
          "0 \<le> sint (bucket_remaining b')" "sint (bucket_remaining b') + taken key request' res \<le> q"
        have "\<forall>c \<in> set calls. call_time c < bucket_resetAt b'" using times now b'(2) by force
        from acquire_all_live [OF rest(1) grace b'(1) this b'(3)]
        have "total_taken key rest \<le> sint (bucket_remaining b')" by auto
        then show ?thesis using b'(4) Cons.prems(5) by (simp add: total)
      qed
    qed
  qed
qed simp

lemma acquire_all_bound:
  assumes "acquire_all calls e = (answers, e')" and "0 <s engine_expiredBucketGrace e"
    and "\<forall>c \<in> set calls. t0 \<le> call_time c \<and> call_time c < t0 + w \<and>
      (call_key c = key \<longrightarrow> rule_bounded q w (call_rule c))"
    and "0 \<le> q" and "0 \<le> bucket_rest key e"
  shows "total_taken key answers \<le> bucket_rest key e + q"
proof -
  have "0 \<le> live_rest t0 key e" "live_rest t0 key e \<le> bucket_rest key e"
    using assms(5) by (auto simp: live_rest_def bucket_rest_def split: option.split)
  with acquire_all_live_bound [OF assms(1-4)] show ?thesis by simp
qed

subsection \<open>The number of buckets\<close>

lemma acquireLocked_len:
  assumes "acquireLocked rule now key cost response e = (res, e')"
    and "int (go_len (engine_buckets e)) \<le> sint (engine_maxBuckets e)"
  shows "int (go_len (engine_buckets e')) \<le> sint (engine_maxBuckets e')"
proof -
  let ?c = "cleanupExpiredLocked now e"
  have c: "int (go_len (engine_buckets ?c)) \<le> sint (engine_maxBuckets e)"
    using cleanup_len [of now e] assms(2) by linarith
  have room: "int (go_len (fmupd key b (engine_buckets ?c))) \<le> sint (engine_maxBuckets e)"
    if "fmlookup (engine_buckets ?c) key = None \<Longrightarrow> \<not> at_capacity ?c" for b
    using that c by (auto simp: go_len_upd at_capacity_def)
  from assms(1) show ?thesis by (cases rule: acquireLocked_cases) (simp_all add: c room)
qed

lemma acquire_all_len:
  "acquire_all calls e = (answers, e') \<Longrightarrow> int (go_len (engine_buckets e)) \<le> sint (engine_maxBuckets e) \<Longrightarrow>
   int (go_len (engine_buckets e')) \<le> sint (engine_maxBuckets e') \<and> engine_maxBuckets e' = engine_maxBuckets e"
proof (induction calls arbitrary: e answers)
  case (Cons c calls)
  obtain st st' now request where c: "c = (st, st', now, request)" by (cases c)
  obtain request' res e1 where call: "Acquire st st' now request e = (request', res, e1)"
    by (cases "Acquire st st' now request e") auto
  obtain rest where rest: "acquire_all calls e1 = (rest, e')"
    using Cons.prems(1) c call by (auto split: prod.splits)
  have "int (go_len (engine_buckets e1)) \<le> sint (engine_maxBuckets e1)"
    using call Cons.prems(2) by (cases rule: Acquire_cases) (auto intro: acquireLocked_len)
  from Cons.IH [OF rest this] show ?case using Acquire_frame [OF call] by auto
qed simp

lemma NewEngine_limits: "engine_limits (NewEngine config)"
  by (auto simp: engine_limits_def NewEngine_def not_sle_0 word_sless_alt word_sle_eq
      Second_def Minute_def not_le)

end
