(* ===== verification/GrpcServer.thy ===== *)
theory GrpcServer
  imports TopologyManager QuotaLimits
begin

text \<open>
  The unary calls of \<open>internal/grpcapi/server.go\<close>. The server's own state is its manager and
  its engine; the rule store, which other goroutines replace, is an argument, once for each
  time the code reads it. The incoming metadata is the values of each header, \<open>None\<close> when the
  context has none. Calls that ask the topology take a reading of the clock and the provider.
\<close>

record Server =
  srv_instanceID :: string
  srv_heartbeatInterval :: duration
  srv_topology :: Manager
  srv_quota :: Engine
  srv_authToken :: string

record ServerConfig =
  gc_InstanceID :: string
  gc_Namespace :: string
  gc_Service :: string
  gc_HeartbeatInterval :: duration
  gc_TopologyCacheTTL :: duration
  gc_TopologyMetrics :: "Metrics option"
  gc_AuthToken :: string

datatype 'e rpc_error = Unauthenticated string | TopologyUnavailable 'e

definition protocolVersion :: string where "protocolVersion = ''stellpulsar.v1''"

definition NewServer :: "Engine \<Rightarrow> ServerConfig \<Rightarrow> Server" where
  "NewServer quotaEngine config =
     \<lparr>srv_instanceID = gc_InstanceID config,
      srv_heartbeatInterval =
        (if gc_HeartbeatInterval config \<le>s 0 then 10 * Second else gc_HeartbeatInterval config),
      srv_topology = NewManager (gc_Namespace config) (gc_Service config) (gc_InstanceID config)
        (gc_TopologyCacheTTL config) (gc_TopologyMetrics config),
      srv_quota = quotaEngine,
      srv_authToken = TrimSpace (gc_AuthToken config)\<rparr>"

subsection \<open>Authorisation\<close>

type_synonym metadata = "(string \<Rightarrow> string list) option"

definition tokenMatches :: "string \<Rightarrow> string \<Rightarrow> bool" where
  "tokenMatches value0 expected0 =
     (let value = TrimSpace value0; expected = TrimSpace expected0;
          value = (if HasPrefix (ToLower value) ''bearer '' then TrimSpace (drop 7 value) else value) in
      value = expected)"

text \<open>The message of the \<open>Unauthenticated\<close> status, if the call is refused.\<close>

definition authorize :: "metadata \<Rightarrow> Server \<Rightarrow> string option" where
  "authorize md s =
     (if srv_authToken s = [] then None
      else case md of
        None \<Rightarrow> Some ''stellpulsar authorization metadata is required''
      | Some get \<Rightarrow>
          (if \<exists>key \<in> set [''authorization'', ''x-stellpulsar-token''].
                \<exists>value \<in> set (get key). tokenMatches value (srv_authToken s)
           then None
           else Some ''invalid stellpulsar authorization token''))"

subsection \<open>Conversions\<close>

definition toProtoInstance :: "Instance \<Rightarrow> PulsarInstance" where
  "toProtoInstance item =
     \<lparr>PI_InstanceId = inst_InstanceID item, PI_Host = inst_Host item, PI_Port = inst_Port item,
      PI_Priority = inst_Priority item, PI_Weight = inst_Weight item, PI_Zone = inst_Zone item,
      PI_Version = inst_Version item, PI_RuleRevision = inst_RuleRevision item,
      PI_State = inst_State item, PI_Metadata = cloneMap (inst_Metadata item)\<rparr>"

definition toDigest :: "Rule \<Rightarrow> RuleDigest" where
  "toDigest rule =
     \<lparr>Dig_ApplicationCode = rule_ApplicationCode rule, Dig_RuleId = rule_RuleID rule,
      Dig_Revision = Revision rule, Dig_Checksum = rule_Checksum rule,
      Dig_SchemaVersion = rule_SchemaVersion rule\<rparr>"

definition toProtoRule :: "Rule \<Rightarrow> RateLimitRule" where
  "toProtoRule rule =
     \<lparr>RLRule_ApplicationCode = rule_ApplicationCode rule, RLRule_RuleId = rule_RuleID rule,
      RLRule_Name = rule_Name rule, RLRule_Revision = Revision rule,
      RLRule_Checksum = rule_Checksum rule, RLRule_SchemaVersion = rule_SchemaVersion rule,
      RLRule_Algorithm = rule_Algorithm rule, RLRule_Quota = rule_Quota rule,
      RLRule_WindowSeconds = rule_WindowSeconds rule, RLRule_Burst = rule_Burst rule,
      RLRule_Dimensions = (case rule_Dimensions rule of None \<Rightarrow> [] | Some ds \<Rightarrow> ds),
      RLRule_FailPolicy = rule_FailPolicy rule,
      RLRule_Attributes = (case rule_Attributes rule of None \<Rightarrow> fmempty | Some m \<Rightarrow> cloneMap m)\<rparr>"

subsection \<open>Ownership\<close>

definition with_topology :: "Manager \<Rightarrow> Server \<Rightarrow> Server" where
  "with_topology m s = s\<lparr>srv_topology := m\<rparr>"

definition recordOwnerCheck :: "string \<Rightarrow> string \<Rightarrow> Server \<Rightarrow> Server" where
  "recordOwnerCheck result reason s =
     with_topology (Manager_RecordOwnerCheck result reason (srv_topology s)) s"

definition request_shard :: "AcquireQuotaRequest option \<Rightarrow> string" where
  "request_shard request =
     ShardKey (Req_GetApplicationCode request) (Req_GetRuleId request) (Req_GetQuotaKey request)"

definition decorateTopology ::
    "(rat \<Rightarrow> rat) \<Rightarrow> (string fset \<Rightarrow> string list) \<Rightarrow> 'e reading \<Rightarrow> AcquireQuotaRequest option \<Rightarrow>
     AcquireQuotaResponse \<Rightarrow> Server \<Rightarrow> AcquireQuotaResponse \<times> Server" where
  "decorateTopology mlog ord rd request response s =
     (if request = None then (response, s)
      else case Manager_OwnerOf mlog ord rd (request_shard request) (srv_topology s) of
        (Inl err, m) \<Rightarrow> (response, with_topology m s)
      | (Inr (owner, current, ok), m) \<Rightarrow>
          (let response = response\<lparr>Res_TopologyRevision := top_Revision current,
                 Res_HashAlgorithm := top_HashAlgorithm current\<rparr> in
           (if ok then response\<lparr>Res_OwnerInstance := Some (toProtoInstance owner)\<rparr> else response,
            with_topology m s)))"

definition notOwnerResponse ::
    "AcquireQuotaRequest option \<Rightarrow> Topology \<Rightarrow> Instance \<Rightarrow> string \<Rightarrow> AcquireQuotaResponse" where
  "notOwnerResponse request current owner reason =
     new_AcquireQuotaResponse
       \<lparr>Res_RequestId := Req_GetRequestId request, Res_RuleId := Req_GetRuleId request,
        Res_Decision := QUOTA_DECISION_NOT_OWNER, Res_Reason := reason, Res_RetryAfterMs := 10,
        Res_TopologyRevision := top_Revision current,
        Res_OwnerInstance := Some (toProtoInstance owner),
        Res_HashAlgorithm := top_HashAlgorithm current\<rparr>"

definition answer :: "AcquireQuotaRequest option \<Rightarrow> QuotaDecision \<Rightarrow> string \<Rightarrow> AcquireQuotaResponse" where
  "answer request decision reason =
     new_AcquireQuotaResponse
       \<lparr>Res_RequestId := Req_GetRequestId request, Res_RuleId := Req_GetRuleId request,
        Res_Decision := decision, Res_Reason := reason\<rparr>"

text \<open>\<open>None\<close> when the request may go on to the engine, else the answer to give.\<close>

definition validateOwner ::
    "(rat \<Rightarrow> rat) \<Rightarrow> (string fset \<Rightarrow> string list) \<Rightarrow> 'e reading \<Rightarrow> AcquireQuotaRequest option \<Rightarrow>
     Server \<Rightarrow> AcquireQuotaResponse option \<times> Server" where
  "validateOwner mlog ord rd request s =
     (if TrimSpace (Req_GetTopologyRevision request) = [] then
        (case decorateTopology mlog ord rd request
            (answer request QUOTA_DECISION_INVALID_REQUEST ''topology_revision_required'')
            (recordOwnerCheck ''invalid_request'' ''topology_revision_required'' s) of
          (response, s') \<Rightarrow> (Some response, s'))
      else if TrimSpace (Req_GetTargetInstanceId request) = [] then
        (case decorateTopology mlog ord rd request
            (answer request QUOTA_DECISION_INVALID_REQUEST ''target_instance_id_required'')
            (recordOwnerCheck ''invalid_request'' ''target_instance_id_required'' s) of
          (response, s') \<Rightarrow> (Some response, s'))
      else case Manager_OwnerOf mlog ord rd (request_shard request) (srv_topology s) of
        (Inl err, m) \<Rightarrow>
          (Some (answer request QUOTA_DECISION_DENIED ''topology_unavailable''),
           recordOwnerCheck ''topology_unavailable'' ''topology_unavailable'' (with_topology m s))
      | (Inr (owner, current, ok), m) \<Rightarrow>
          (let s = with_topology m s in
           if \<not> ok then
             (Some ((answer request QUOTA_DECISION_SHARD_MIGRATING ''topology_owner_unavailable'')
                \<lparr>Res_RetryAfterMs := 50, Res_TopologyRevision := top_Revision current,
                 Res_HashAlgorithm := top_HashAlgorithm current, Res_OwnerInstance := None\<rparr>),
              recordOwnerCheck ''shard_migrating'' ''topology_owner_unavailable'' s)
           else if Req_GetTopologyRevision request \<noteq> [] \<and>
                   Req_GetTopologyRevision request \<noteq> top_Revision current then
             (Some (notOwnerResponse request current owner ''topology_revision_mismatch''),
              recordOwnerCheck ''not_owner'' ''topology_revision_mismatch'' s)
           else if Req_GetTargetInstanceId request \<noteq> [] \<and>
                   Req_GetTargetInstanceId request \<noteq> inst_InstanceID owner then
             (Some (notOwnerResponse request current owner ''target_instance_mismatch''),
              recordOwnerCheck ''not_owner'' ''target_instance_mismatch'' s)
           else if inst_InstanceID owner \<noteq> srv_instanceID s then
             (Some (notOwnerResponse request current owner ''not_owner''),
              recordOwnerCheck ''not_owner'' ''not_owner'' s)
           else (None, recordOwnerCheck ''matched'' ''owner_matched'' s)))"

subsection \<open>The calls\<close>

definition ListInstances ::
    "(string fset \<Rightarrow> string list) \<Rightarrow> metadata \<Rightarrow> 'e reading \<Rightarrow> time \<Rightarrow> Server \<Rightarrow>
     ('e rpc_error + ListInstancesResponse) \<times> Server" where
  "ListInstances ord md rd now s =
     (case authorize md s of
        Some msg \<Rightarrow> (Inl (Unauthenticated msg), s)
      | None \<Rightarrow>
          (case Current ord rd (srv_topology s) of
             (Inl err, m) \<Rightarrow> (Inl (TopologyUnavailable err), with_topology m s)
           | (Inr current, m) \<Rightarrow>
               (Inr \<lparr>ListRes_ProtocolVersion = protocolVersion,
                     ListRes_InstanceRevision = top_Revision current,
                     ListRes_ExpiresAtUnixMs = UnixMilli (Add now (30 * Second)),
                     ListRes_Instances = map toProtoInstance (top_Instances current),
                     ListRes_HashAlgorithm = top_HashAlgorithm current\<rparr>,
                with_topology m s)))"

text \<open>
  \<open>AcquireQuota\<close>: the store as the first validation, the engine's validation and the engine's
  lookup see it; \<open>rd\<close> for the first question to the topology, \<open>rd'\<close> for the second. It returns
  the request too, into which the engine may have written the default cost.
\<close>

definition AcquireQuota ::
    "(rat \<Rightarrow> rat) \<Rightarrow> (string fset \<Rightarrow> string list) \<Rightarrow> metadata \<Rightarrow> 'c Store \<Rightarrow> 'c Store \<Rightarrow> 'c Store \<Rightarrow>
     time \<Rightarrow> 'e reading \<Rightarrow> 'e reading \<Rightarrow> AcquireQuotaRequest option \<Rightarrow> Server \<Rightarrow>
     ('e rpc_error + AcquireQuotaResponse) \<times> AcquireQuotaRequest option \<times> Server" where
  "AcquireQuota mlog ord md st1 st2 st3 now rd rd' request s =
     (case authorize md s of
        Some msg \<Rightarrow> (Inl (Unauthenticated msg), request, s)
      | None \<Rightarrow>
          (let response = Validate (srv_quota s) st1 request in
           if Res_Decision response \<noteq> QUOTA_DECISION_UNSPECIFIED then
             (case decorateTopology mlog ord rd request response s of
                (response', s') \<Rightarrow> (Inr response', request, s'))
           else case validateOwner mlog ord rd request s of
             (Some response, s') \<Rightarrow> (Inr response, request, s')
           | (None, s') \<Rightarrow>
               (case Acquire st2 st3 now request (srv_quota s') of
                  (request', response, e) \<Rightarrow>
                    (case decorateTopology mlog ord rd' request' response (s'\<lparr>srv_quota := e\<rparr>) of
                       (response', s'') \<Rightarrow> (Inr response', request', s'')))))"

definition GetRuleSnapshot ::
    "(string fset \<Rightarrow> string list) \<Rightarrow> metadata \<Rightarrow> 'c Store \<Rightarrow> 'c Store \<Rightarrow> time \<Rightarrow>
     GetRuleSnapshotRequest option \<Rightarrow> Server \<Rightarrow> 'e rpc_error + GetRuleSnapshotResponse" where
  "GetRuleSnapshot ord md st1 st2 now request s =
     (case authorize md s of
        Some msg \<Rightarrow> Inl (Unauthenticated msg)
      | None \<Rightarrow>
          (let snapshot = Store_Snapshot now st1 in
           Inr \<lparr>SnapRes_ApplicationCode = SnapReq_GetApplicationCode request,
                SnapRes_Revision = FormatInt (snap_Version snapshot),
                SnapRes_Checksum = snap_Checksum snapshot,
                SnapRes_Rules = map toProtoRule
                  (Rules ord st2 (SnapReq_GetApplicationCode request) (SnapReq_GetRuleIds request))\<rparr>))"

subsection \<open>Digests\<close>

definition validateDigest :: "'c Store \<Rightarrow> RuleDigest \<Rightarrow> RuleValidationResult" where
  "validateDigest st clientDigest =
     (case FindRule st (Dig_ApplicationCode clientDigest) (Dig_RuleId clientDigest) of
        (_, False) \<Rightarrow>
          \<lparr>ValResult_ClientDigest = Some clientDigest, ValResult_ServerDigest = None,
           ValResult_Status = RULE_VALIDATION_STATUS_NOT_FOUND, ValResult_Message = ''rule_not_found''\<rparr>
      | (rule, True) \<Rightarrow>
          (let result = (\<lambda>status message.
                 \<lparr>ValResult_ClientDigest = Some clientDigest, ValResult_ServerDigest = Some (toDigest rule),
                  ValResult_Status = status, ValResult_Message = message\<rparr>) in
           case ParseInt (Dig_Revision clientDigest) of
             (clientVersion, err) \<Rightarrow>
               (if err = None \<and> clientVersion <s rule_SnapshotVersion rule
                then result RULE_VALIDATION_STATUS_CLIENT_STALE ''client_rule_stale''
                else if err = None \<and> rule_SnapshotVersion rule <s clientVersion
                then result RULE_VALIDATION_STATUS_SERVER_STALE ''server_rule_stale''
                else if Dig_Checksum clientDigest \<noteq> [] \<and> Dig_Checksum clientDigest \<noteq> rule_Checksum rule
                then result RULE_VALIDATION_STATUS_CONFLICT ''rule_checksum_conflict''
                else result RULE_VALIDATION_STATUS_MATCHED ''matched'')))"

definition mergeStatus :: "RuleValidationStatus \<Rightarrow> RuleValidationStatus \<Rightarrow> RuleValidationStatus" where
  "mergeStatus current next_status =
     (if current = RULE_VALIDATION_STATUS_UNSPECIFIED then next_status
      else if next_status = RULE_VALIDATION_STATUS_MATCHED then current
      else if current = RULE_VALIDATION_STATUS_MATCHED then next_status
      else if next_status = RULE_VALIDATION_STATUS_CONFLICT \<or> current = RULE_VALIDATION_STATUS_CONFLICT
      then RULE_VALIDATION_STATUS_CONFLICT
      else current)"

definition ValidateRuleSnapshot ::
    "metadata \<Rightarrow> 'c Store \<Rightarrow> ValidateRuleSnapshotRequest option \<Rightarrow> Server \<Rightarrow>
     'e rpc_error + ValidateRuleSnapshotResponse" where
  "ValidateRuleSnapshot md st request s =
     (case authorize md s of
        Some msg \<Rightarrow> Inl (Unauthenticated msg)
      | None \<Rightarrow>
          Inr (fold (\<lambda>digest response.
              let result = validateDigest st digest in
              response\<lparr>ValRes_Results := ValRes_Results response @ [result],
                       ValRes_Status := mergeStatus (ValRes_Status response) (ValResult_Status result)\<rparr>)
            (ValReq_GetRuleDigests request)
            \<lparr>ValRes_ApplicationCode = ValReq_GetApplicationCode request,
             ValRes_Status = RULE_VALIDATION_STATUS_MATCHED, ValRes_Results = []\<rparr>))"

definition digests :: "(string fset \<Rightarrow> string list) \<Rightarrow> 'c Store \<Rightarrow> string \<Rightarrow> RuleDigest list" where
  "digests ord st applicationCode = map toDigest (Rules ord st applicationCode [])"

definition digestsFromSnapshot ::
    "(string fset \<Rightarrow> string list) \<Rightarrow> Snapshot \<Rightarrow> string \<Rightarrow> RuleDigest list" where
  "digestsFromSnapshot ord snapshot applicationCode =
     (case fmlookup (snap_Apps snapshot) applicationCode of
        None \<Rightarrow> []
      | Some app \<Rightarrow> map toDigest (range_values ord (app_Rules app)))"

definition seen_key :: "string \<Rightarrow> string \<Rightarrow> string" where
  "seen_key app ruleID = app @ [CHR 0x00] @ ruleID"

text \<open>The first loop: the digests it appends and the keys it has seen.\<close>

fun changed_loop :: "'c Store \<Rightarrow> string \<Rightarrow> RuleDigest list \<Rightarrow> RuleDigest list \<times> string list" where
  "changed_loop st applicationCode [] = ([], [])"
| "changed_loop st applicationCode (clientDigest # rest) =
     (let digestApplication = chooseString [Dig_ApplicationCode clientDigest, applicationCode];
          key = seen_key digestApplication (Dig_RuleId clientDigest);
          changed =
            (case FindRule st digestApplication (Dig_RuleId clientDigest) of
               (_, False) \<Rightarrow>
                 [new_RuleDigest\<lparr>Dig_ApplicationCode := digestApplication,
                                 Dig_RuleId := Dig_RuleId clientDigest\<rparr>]
             | (rule, True) \<Rightarrow>
                 (if Dig_Revision clientDigest \<noteq> Revision rule \<or> Dig_Checksum clientDigest \<noteq> rule_Checksum rule
                  then [toDigest rule] else [])) in
      case changed_loop st applicationCode rest of
        (others, seen) \<Rightarrow> (changed @ others, key # seen))"

definition changedDigests ::
    "(string fset \<Rightarrow> string list) \<Rightarrow> 'c Store \<Rightarrow> string \<Rightarrow> RuleDigest list \<Rightarrow> RuleDigest list" where
  "changedDigests ord st applicationCode clientDigests =
     (case changed_loop st applicationCode clientDigests of
        (changed, seen) \<Rightarrow>
          changed @ map toDigest
            (filter (\<lambda>rule. seen_key (rule_ApplicationCode rule) (rule_RuleID rule) \<notin> set seen)
              (Rules ord st applicationCode [])))"

end
