(* ===== verification/GrpcFacts.thy ===== *)
theory GrpcFacts
  imports GrpcServer
begin

text \<open>
  The lemmas about the gRPC server on which its properties rest: what the ownership check
  establishes, what the digests compare.
\<close>

subsection \<open>Frames\<close>

lemma with_topology_frame [simp]:
  "srv_quota (with_topology m s) = srv_quota s" "srv_instanceID (with_topology m s) = srv_instanceID s"
  "srv_authToken (with_topology m s) = srv_authToken s" "srv_topology (with_topology m s) = m"
  by (simp_all add: with_topology_def)

lemma recordOwnerCheck_frame [simp]:
  "srv_quota (recordOwnerCheck r x s) = srv_quota s"
  "srv_instanceID (recordOwnerCheck r x s) = srv_instanceID s"
  "mgr_current (srv_topology (recordOwnerCheck r x s)) = mgr_current (srv_topology s)"
  by (simp_all add: recordOwnerCheck_def Manager_RecordOwnerCheck_def)

lemma decorateTopology_frame:
  assumes "decorateTopology mlog ord rd request response s = (response', s')"
  shows "srv_quota s' = srv_quota s" "Res_Decision response' = Res_Decision response"
    "srv_instanceID s' = srv_instanceID s"
  using assms by (auto simp: decorateTopology_def Let_def split: if_splits sum.splits prod.splits)

lemma answer_decision [simp]: "Res_Decision (answer request d x) = d"
  by (simp add: answer_def)

lemma notOwnerResponse_sel [simp]:
  "Res_Decision (notOwnerResponse request t owner x) = QUOTA_DECISION_NOT_OWNER"
  "Res_TopologyRevision (notOwnerResponse request t owner x) = top_Revision t"
  "Res_OwnerInstance (notOwnerResponse request t owner x) = Some (toProtoInstance owner)"
  by (simp_all add: notOwnerResponse_def)

subsection \<open>The ownership check\<close>

definition owns ::
    "(rat \<Rightarrow> rat) \<Rightarrow> (string fset \<Rightarrow> string list) \<Rightarrow> 'e reading \<Rightarrow> AcquireQuotaRequest option \<Rightarrow>
     Server \<Rightarrow> bool" where
  "owns mlog ord rd request s \<longleftrightarrow>
     (\<exists>owner t. fst (Manager_OwnerOf mlog ord rd (request_shard request) (srv_topology s)) =
        Inr (owner, t, True) \<and>
      inst_InstanceID owner = srv_instanceID s \<and>
      Req_GetTargetInstanceId request = srv_instanceID s \<and>
      Req_GetTopologyRevision request = top_Revision t \<and>
      TrimSpace (Req_GetTopologyRevision request) \<noteq> [] \<and>
      TrimSpace (Req_GetTargetInstanceId request) \<noteq> [])"

lemma validateOwner_passes:
  "fst (validateOwner mlog ord rd request s) = None \<longleftrightarrow> owns mlog ord rd request s"
proof (cases "TrimSpace (Req_GetTopologyRevision request) = [] \<or> TrimSpace (Req_GetTargetInstanceId request) = []")
  case True
  then show ?thesis by (auto simp: validateOwner_def owns_def split: prod.split)
next
  case False
  then have ne: "Req_GetTopologyRevision request \<noteq> []" "Req_GetTargetInstanceId request \<noteq> []" by auto
  obtain res m where o: "Manager_OwnerOf mlog ord rd (request_shard request) (srv_topology s) = (res, m)"
    by fastforce
  show ?thesis
  proof (cases res)
    case (Inl err)
    with False o show ?thesis by (auto simp: validateOwner_def owns_def)
  next
    case (Inr r)
    obtain owner t ok where r: "r = (owner, t, ok)" by (cases r)
    show ?thesis using False o Inr r ne
      by (cases ok) (auto simp: validateOwner_def owns_def Let_def)
  qed
qed

lemma validateOwner_frame:
  assumes "validateOwner mlog ord rd request s = (answered, s')"
  shows "srv_quota s' = srv_quota s"
    and "answered = Some response \<Longrightarrow> Res_Decision response \<noteq> QUOTA_DECISION_ALLOWED"
proof -
  have "srv_quota s' = srv_quota s \<and>
      (\<forall>response. answered = Some response \<longrightarrow> Res_Decision response \<noteq> QUOTA_DECISION_ALLOWED)"
    using assms by (auto simp: validateOwner_def Let_def decorateTopology_frame
        split: if_splits prod.splits sum.splits)
  then show "srv_quota s' = srv_quota s"
    and "answered = Some response \<Longrightarrow> Res_Decision response \<noteq> QUOTA_DECISION_ALLOWED" by auto
qed

text \<open>The three ways a call of \<open>AcquireQuota\<close> can go.\<close>

lemma AcquireQuota_cases:
  assumes "AcquireQuota mlog ord md st1 st2 st3 now rd rd' request s = (res, request', s')"
  obtains (unauthorized) msg where "authorize md s = Some msg" "res = Inl (Unauthenticated msg)" "s' = s"
        "request' = request"
    | (answered) response where "authorize md s = None" "res = Inr response" "srv_quota s' = srv_quota s"
        "Res_Decision response \<noteq> QUOTA_DECISION_ALLOWED" "request' = request"
    | (acquired) response0 response e where "authorize md s = None"
        "Res_Decision (Validate (srv_quota s) st1 request) = QUOTA_DECISION_UNSPECIFIED"
        "owns mlog ord rd request s"
        "Acquire st2 st3 now request (srv_quota s) = (request', response0, e)"
        "res = Inr response" "Res_Decision response = Res_Decision response0" "srv_quota s' = e"
proof (cases "authorize md s")
  case (Some msg)
  with assms show ?thesis by (intro unauthorized) (auto simp: AcquireQuota_def)
next
  case auth: None
  let ?v = "Validate (srv_quota s) st1 request"
  show ?thesis
  proof (cases "Res_Decision ?v = QUOTA_DECISION_UNSPECIFIED")
    case False
    obtain r1 s1 where d: "decorateTopology mlog ord rd request ?v s = (r1, s1)" by fastforce
    have eq: "(Inr r1, request, s1) = (res, request', s')"
      using assms False d auth by (simp add: AcquireQuota_def Let_def)
    show ?thesis
      by (rule answered [OF auth, of r1])
        (use eq decorateTopology_frame [OF d] Validate_not_allowed [of "srv_quota s" st1 request] in auto)
  next
    case valid: True
    obtain a s1 where v: "validateOwner mlog ord rd request s = (a, s1)" by fastforce
    show ?thesis
    proof (cases a)
      case (Some r)
      have eq: "(Inr r, request, s1) = (res, request', s')"
        using assms valid v Some auth by (simp add: AcquireQuota_def Let_def)
      show ?thesis
        by (rule answered [OF auth, of r]) (use eq validateOwner_frame [OF v] Some in auto)
    next
      case None
      obtain q r0 e where acq: "Acquire st2 st3 now request (srv_quota s1) = (q, r0, e)"
        by (cases "Acquire st2 st3 now request (srv_quota s1)") auto
      obtain r1 s2 where d: "decorateTopology mlog ord rd' q r0 (s1\<lparr>srv_quota := e\<rparr>) = (r1, s2)"
        by fastforce
      have eq: "(Inr r1, q, s2) = (res, request', s')"
        using assms valid v None acq d auth by (simp add: AcquireQuota_def Let_def)
      have "owns mlog ord rd request s" using validateOwner_passes [of mlog ord rd request s] v None by simp
      with valid auth acq eq decorateTopology_frame [OF d] validateOwner_frame(1) [OF v]
      show ?thesis by (intro acquired [of r0 e r1]) auto
    qed
  qed
qed

subsection \<open>What an answer says about the topology\<close>

definition shows_topology :: "(rat \<Rightarrow> rat) \<Rightarrow> 'e + Topology \<Rightarrow> string \<Rightarrow> AcquireQuotaResponse \<Rightarrow> bool" where
  "shows_topology mlog current shard r \<longleftrightarrow>
     (case current of
        Inl _ \<Rightarrow> Res_TopologyRevision r = [] \<and> Res_HashAlgorithm r = [] \<and> Res_OwnerInstance r = None
      | Inr t \<Rightarrow>
          Res_TopologyRevision r = top_Revision t \<and> Res_HashAlgorithm r = top_HashAlgorithm t \<and>
          Res_OwnerInstance r =
            (case Topology_OwnerOf mlog t shard of
               (owner, True) \<Rightarrow> Some (toProtoInstance owner) | (_, False) \<Rightarrow> None))"

definition without_topology :: "AcquireQuotaResponse \<Rightarrow> AcquireQuotaResponse" where
  "without_topology r = r\<lparr>Res_TopologyRevision := [], Res_HashAlgorithm := [], Res_OwnerInstance := None\<rparr>"

text \<open>Why the ownership check refuses a request: the decision, the reason and the retry hint.\<close>

definition refusal ::
    "(rat \<Rightarrow> rat) \<Rightarrow> 'e + Topology \<Rightarrow> AcquireQuotaRequest option \<Rightarrow> string \<Rightarrow>
     (QuotaDecision \<times> string \<times> int64) option" where
  "refusal mlog current request self =
     (if TrimSpace (Req_GetTopologyRevision request) = []
      then Some (QUOTA_DECISION_INVALID_REQUEST, ''topology_revision_required'', 0)
      else if TrimSpace (Req_GetTargetInstanceId request) = []
      then Some (QUOTA_DECISION_INVALID_REQUEST, ''target_instance_id_required'', 0)
      else case current of
        Inl _ \<Rightarrow> Some (QUOTA_DECISION_DENIED, ''topology_unavailable'', 0)
      | Inr t \<Rightarrow>
          (case Topology_OwnerOf mlog t (request_shard request) of
             (_, False) \<Rightarrow> Some (QUOTA_DECISION_SHARD_MIGRATING, ''topology_owner_unavailable'', 50)
           | (owner, True) \<Rightarrow>
               if Req_GetTopologyRevision request \<noteq> top_Revision t
               then Some (QUOTA_DECISION_NOT_OWNER, ''topology_revision_mismatch'', 10)
               else if Req_GetTargetInstanceId request \<noteq> inst_InstanceID owner
               then Some (QUOTA_DECISION_NOT_OWNER, ''target_instance_mismatch'', 10)
               else if inst_InstanceID owner \<noteq> self
               then Some (QUOTA_DECISION_NOT_OWNER, ''not_owner'', 10)
               else None))"

definition bare :: "AcquireQuotaResponse \<Rightarrow> bool" where
  "bare r \<longleftrightarrow> Res_TopologyRevision r = [] \<and> Res_HashAlgorithm r = [] \<and> Res_OwnerInstance r = None"

lemma bare_without_topology: "bare r \<Longrightarrow> without_topology r = r"
  by (cases r) (simp add: bare_def without_topology_def)

lemma decorateTopology_shows:
  assumes "decorateTopology mlog ord rd request response s = (r, s')" and "bare response"
  shows "without_topology r = response"
    "request \<noteq> None \<Longrightarrow> shows_topology mlog (fst (Current ord rd (srv_topology s))) (request_shard request) r"
    "request = None \<Longrightarrow> r = response"
proof -
  obtain res m where o: "Manager_OwnerOf mlog ord rd (request_shard request) (srv_topology s) = (res, m)" by fastforce
  note cur = OwnerOf_Current [of mlog ord rd "request_shard request" "srv_topology s", unfolded o fst_conv]
  have "without_topology r = without_topology response"
    using assms o by (auto simp: decorateTopology_def without_topology_def Let_def split: if_splits sum.splits)
  then show "without_topology r = response" using bare_without_topology [OF assms(2)] by simp
  show "shows_topology mlog (fst (Current ord rd (srv_topology s))) (request_shard request) r" if "request \<noteq> None"
    using assms o that cur
    by (auto simp: decorateTopology_def shows_topology_def bare_def Let_def
        split: if_splits sum.splits prod.splits bool.splits)
  show "r = response" if "request = None" using assms(1) that by (simp add: decorateTopology_def)
qed

lemma Validate_bare: "bare (Validate e st request)"
  by (auto simp: Validate_def bare_def new_AcquireQuotaResponse_def Let_def split: prod.split bool.split)

lemma Acquire_bare:
  assumes "Acquire st st' now request e = (request', r, e')"
  shows "bare r" "request_shard request' = request_shard request" "request' = None \<longleftrightarrow> request = None"
proof -
  have "bare r \<and> request_shard request' = request_shard request \<and> (request' = None \<longleftrightarrow> request = None)"
    using assms
  proof (cases rule: Acquire_cases)
    case rejected
    then show ?thesis by (simp add: Validate_bare)
  next
    case locked
    have "bare r"
      using locked(5) Validate_bare [of e st request]
      by (auto simp: acquireLocked_def bare_def Let_def split: if_splits)
    moreover have "request_shard request' = request_shard request"
      using locked(2,3) by (auto simp: with_default_cost_def request_shard_def)
    ultimately show ?thesis using locked(2,3) by (auto simp: with_default_cost_def)
  qed
  then show "bare r" "request_shard request' = request_shard request" "request' = None \<longleftrightarrow> request = None"
    by simp_all
qed

lemma Current_frame:
  assumes "mgr_current m1 = mgr_current m2" "mgr_expiresAt m1 = mgr_expiresAt m2"
    "mgr_Namespace m1 = mgr_Namespace m2" "mgr_Service m1 = mgr_Service m2"
  shows "fst (Current ord rd m1) = fst (Current ord rd m2)"
  using assms by (auto simp: Current_def Refresh_def Let_def split: sum.split)

lemma validateOwner_manager:
  assumes "validateOwner mlog ord rd request s = (None, s')"
  shows "fst (Current ord rd' (srv_topology s')) = fst (Current ord rd' (snd (Current ord rd (srv_topology s))))"
proof -
  obtain owner t m where o: "Manager_OwnerOf mlog ord rd (request_shard request) (srv_topology s) = (Inr (owner, t, True), m)"
    "s' = recordOwnerCheck ''matched'' ''owner_matched'' (with_topology m s)"
    using assms by (auto simp: validateOwner_def Let_def split: if_splits prod.splits sum.splits)
  obtain res m' where c: "Current ord rd (srv_topology s) = (res, m')" by fastforce
  have "\<exists>ms. m = mgr_record ms m'"
    using o(1) c by (auto simp: Manager_OwnerOf_def Let_def split: sum.splits prod.splits bool.splits)
  then show ?thesis
    by (auto simp: o(2) c recordOwnerCheck_def Manager_RecordOwnerCheck_def intro!: Current_frame)
qed

lemma validateOwner_refusal:
  assumes "validateOwner mlog ord rd request s = (a, s')" and "request \<noteq> None"
  shows "case refusal mlog (fst (Current ord rd (srv_topology s))) request (srv_instanceID s) of
      None \<Rightarrow> a = None
    | Some (decision, reason, retry) \<Rightarrow> \<exists>r. a = Some r \<and> Res_Decision r = decision \<and> Res_Reason r = reason \<and>
        Res_RetryAfterMs r = retry \<and> Res_RequestId r = Req_GetRequestId request \<and>
        Res_RuleId r = Req_GetRuleId request \<and>
        shows_topology mlog (fst (Current ord rd (srv_topology s))) (request_shard request) r"
proof (cases "TrimSpace (Req_GetTopologyRevision request) = [] \<or> TrimSpace (Req_GetTargetInstanceId request) = []")
  case True
  have same: "fst (Current ord rd (srv_topology (recordOwnerCheck x y s))) = fst (Current ord rd (srv_topology s))" for x y
    by (rule Current_frame) (simp_all add: recordOwnerCheck_def Manager_RecordOwnerCheck_def)
  have kept: "Res_Decision r = Res_Decision response \<and> Res_Reason r = Res_Reason response \<and>
      Res_RetryAfterMs r = Res_RetryAfterMs response \<and> Res_RequestId r = Res_RequestId response \<and>
      Res_RuleId r = Res_RuleId response" if "without_topology r = response" for r response
    using that [symmetric] by (simp add: without_topology_def)
  let ?field = "if TrimSpace (Req_GetTopologyRevision request) = [] then ''topology_revision_required''
    else ''target_instance_id_required''"
  let ?answer = "answer request QUOTA_DECISION_INVALID_REQUEST ?field"
  obtain r s1 where d: "decorateTopology mlog ord rd request ?answer (recordOwnerCheck ''invalid_request'' ?field s) = (r, s1)"
    by fastforce
  have "bare ?answer" by (simp add: bare_def answer_def new_AcquireQuotaResponse_def)
  note r = kept [OF decorateTopology_shows(1) [OF d this]] decorateTopology_shows(2) [OF d this assms(2), unfolded same]
  have "a = Some r"
    using assms(1) True d by (cases "TrimSpace (Req_GetTopologyRevision request) = []") (simp_all add: validateOwner_def)
  moreover have "refusal mlog (fst (Current ord rd (srv_topology s))) request (srv_instanceID s) =
      Some (QUOTA_DECISION_INVALID_REQUEST, ?field, 0)"
    using True by (auto simp: refusal_def)
  moreover have "Res_Decision ?answer = QUOTA_DECISION_INVALID_REQUEST" "Res_Reason ?answer = ?field"
    "Res_RetryAfterMs ?answer = 0" "Res_RequestId ?answer = Req_GetRequestId request"
    "Res_RuleId ?answer = Req_GetRuleId request"
    by (simp_all add: answer_def new_AcquireQuotaResponse_def)
  ultimately show ?thesis using r by simp
next
  case False
  then have ne: "Req_GetTopologyRevision request \<noteq> []" "Req_GetTargetInstanceId request \<noteq> []" by auto
  obtain res m where o: "Manager_OwnerOf mlog ord rd (request_shard request) (srv_topology s) = (res, m)" by fastforce
  note cur = OwnerOf_Current [of mlog ord rd "request_shard request" "srv_topology s", unfolded o fst_conv]
  show ?thesis
  proof (cases "fst (Current ord rd (srv_topology s))")
    case (Inl err)
    then show ?thesis using assms(1) False o cur
      by (auto simp: validateOwner_def refusal_def shows_topology_def answer_def new_AcquireQuotaResponse_def)
  next
    case (Inr t)
    obtain owner ok where w: "Topology_OwnerOf mlog t (request_shard request) = (owner, ok)" by fastforce
    show ?thesis using assms(1) False ne o cur Inr w
      by (cases ok) (auto simp: validateOwner_def refusal_def shows_topology_def answer_def notOwnerResponse_def
          new_AcquireQuotaResponse_def Let_def)
  qed
qed

subsection \<open>Revisions are not blank\<close>

lemma hex_TrimSpace:
  assumes "s \<noteq> []" and "set s \<subseteq> set ''0123456789abcdef''"
  shows "TrimSpace s = s"
proof (rule TrimSpace_fix)
  have hex: "\<not> ascii_space c \<and> \<not> wide_space2 c d \<and> \<not> wide_space2 d c \<and> \<not> wide_space3 c d e \<and> \<not> wide_space3 e d c"
    if "c \<in> set ''0123456789abcdef''" for c d e
    using that by (auto simp: ascii_space_def wide_space2_def wide_space3_def)
  show "space_prefix s = 0"
    using assms hex by (cases s rule: space_prefix.cases) auto
  have "set (rev s) \<subseteq> set ''0123456789abcdef''" "rev s \<noteq> []" using assms by auto
  then show "space_prefix_rev (rev s) = 0"
    using hex by (cases "rev s" rule: space_prefix_rev.cases) auto
qed

lemma hex_digit_set: "d < 16 \<Longrightarrow> hex_digit d \<in> set ''0123456789abcdef''"
  unfolding hex_digit_def by (rule nth_mem) simp

lemma EncodeToString_set: "set (EncodeToString bs) \<subseteq> set ''0123456789abcdef''"
proof -
  define H where "H = set ''0123456789abcdef''"
  have "unat b div 16 < 16" for b :: "8 word"
    using unsigned_less [of b, where ?'a = nat] by (simp add: less_mult_imp_div_less)
  then have "hex_digit (unat b div 16) \<in> H" for b :: "8 word"
    unfolding H_def by (rule hex_digit_set)
  moreover have "hex_digit (unat b mod 16) \<in> H" for b :: "8 word"
    unfolding H_def by (rule hex_digit_set) simp
  ultimately have "set (EncodeToString bs) \<subseteq> H" by (auto simp: EncodeToString_def)
  then show ?thesis by (simp only: H_def)
qed

lemma Build_revision_trim: "TrimSpace (top_Revision (Build ns sv xs)) = top_Revision (Build ns sv xs)"
proof (rule hex_TrimSpace)
  show "top_Revision (Build ns sv xs) \<noteq> []" using Build_revision [of ns sv xs] by auto
  show "set (top_Revision (Build ns sv xs)) \<subseteq> set ''0123456789abcdef''"
    unfolding Build_def Let_def revision_def
    by (simp del: list.set(2)) (meson EncodeToString_set order_trans set_take_subset)
qed

end
