(* ===== verification/QuotaProperties.thy ===== *)
theory QuotaProperties
  imports QuotaLimits
begin

text \<open>
  The properties of the quota engine, each with a run on a small store where its hypotheses
  hold.
\<close>

subsection \<open>An example\<close>

definition sample_rule :: "int64 \<Rightarrow> int64 \<Rightarrow> Rule" where
  "sample_rule quota window =
     zero_Rule\<lparr>rule_ApplicationCode := ''shop'', rule_ConfigID := ''c'', rule_RuleID := ''r'',
       rule_SnapshotVersion := 7, rule_Checksum := ''k'', rule_Quota := quota,
       rule_WindowSeconds := window\<rparr>"

definition sample_snapshot :: "Rule \<Rightarrow> Snapshot" where
  "sample_snapshot rule =
     \<lparr>snap_Version = 7, snap_Checksum = ''sum'', snap_GeneratedAt = 0,
      snap_Apps = fmap_of_list [(''shop'',
        \<lparr>app_Code = ''shop'', app_Version = 7, app_Checksum = ''sum'',
         app_Configs = fmap_of_list [(''c'',
           \<lparr>cfg_ApplicationCode = ''shop'', cfg_ConfigID = ''c'', cfg_RuleName = [], cfg_RuleType = [],
            cfg_Content = None, cfg_ContentChecksum = ''k'', cfg_AggregateChecksum = [], cfg_RuleCount = 1\<rparr>)],
         app_Rules = fmap_of_list [(''r'', rule)]\<rparr>)]\<rparr>"

definition sample_store :: "Rule \<Rightarrow> unit Store" where
  "sample_store rule = NewStore (sample_snapshot rule)"

definition sample_request :: "string \<Rightarrow> int64 \<Rightarrow> AcquireQuotaRequest" where
  "sample_request key cost =
     \<lparr>Req_RequestId = ''q1'', Req_ApplicationCode = ''shop'', Req_ClientId = ''cl'', Req_RuleId = ''r'',
      Req_QuotaKey = key, Req_Cost = cost, Req_RuleRevision = ''7'', Req_RuleChecksum = ''k'',
      Req_Attributes = fmempty, Req_TopologyRevision = ''t'', Req_TargetInstanceId = ''i'',
      Req_ShardHash = []\<rparr>"

definition sample_engine :: Engine where
  "sample_engine =
     NewEngine \<lparr>ec_ServerLagRetryAfter = 0, ec_BucketGCInterval = 0, ec_ExpiredBucketGrace = 0,
       ec_MaxBuckets = 2\<rparr>"

lemma NewStore_current [simp]: "store_current (NewStore s) = Some s"
  by (simp add: NewStore_def Replace_current)

lemma sample_find: "FindRule (sample_store rule) ''shop'' ''r'' = (rule, True)"
  by (simp add: FindRule_iff sample_store_def rule_at_def sample_snapshot_def)

lemma sample_trim:
  "TrimSpace ''shop'' = ''shop''" "TrimSpace ''r'' = ''r''" "TrimSpace ''7'' = ''7''"
  "TrimSpace ''k'' = ''k''" "TrimSpace ''c'' = ''c''"
  by code_simp+

lemma ParseInt_7: "ParseInt ''7'' = (7, None)"
  by (simp add: ParseInt_def parse_int_def parse_int_unsigned_def parse_uint_def is_digit_def digit_val_def)

lemma sample_valid:
  assumes "0 <s quota" and "0 <s window" and "TrimSpace key \<noteq> []"
  shows "Res_Decision (Validate e (sample_store (sample_rule quota window)) (Some (sample_request key cost)))
    = QUOTA_DECISION_UNSPECIFIED"
  using assms
  by (simp add: Validate_unspecified sample_request_def fields_present_def sample_trim sample_find
      revision_ok_def ParseInt_7 sample_rule_def)

lemma sample_key: "bucket_key (Some (sample_request key cost)) = ''shop:r:'' @ key"
  by (simp add: bucket_key_def sample_request_def)

subsection \<open>Properties\<close>

text \<open>C15: while a bucket has not reached its reset time, any sequence of calls, for this key
  and others, at any times and with any rule store, takes from it exactly what its remaining
  count goes down by, and the count never becomes negative: the bucket is not over-drawn, not
  replaced and not deleted.\<close>

theorem live_bucket_not_overdrawn:
  assumes "engine_limits e" and "fmlookup (engine_buckets e) key = Some b"
    and "0 \<le> sint (bucket_remaining b)" and "\<forall>c \<in> set calls. call_time c < bucket_resetAt b"
    and "acquire_all calls e = (answers, e')"
  shows "\<exists>b'. fmlookup (engine_buckets e') key = Some b' \<and> bucket_resetAt b' = bucket_resetAt b \<and>
    sint (bucket_remaining b') = sint (bucket_remaining b) - total_taken key answers \<and>
    0 \<le> sint (bucket_remaining b')"
  using acquire_all_live [OF assms(5) _ assms(2,4,3)] assms(1) by (simp add: engine_limits_def)

lemma live_bucket_not_overdrawn_witness:
  "total_taken ''shop:r:a'' (fst (acquire_all
      [(sample_store (sample_rule 3 60), sample_store (sample_rule 3 60), 40, Some (sample_request ''a'' 2)),
       (sample_store (sample_rule 3 60), sample_store (sample_rule 3 60), 20, Some (sample_request ''a'' 2))]
      (sample_engine\<lparr>engine_buckets := fmupd ''shop:r:a'' \<lparr>bucket_remaining = 3, bucket_resetAt = 100\<rparr> fmempty\<rparr>)))
    \<le> 3"
proof -
  let ?b = "\<lparr>bucket_remaining = 3, bucket_resetAt = 100\<rparr>"
  let ?e = "sample_engine\<lparr>engine_buckets := fmupd ''shop:r:a'' ?b fmempty\<rparr>"
  let ?st = "sample_store (sample_rule 3 60)"
  let ?calls = "[(?st, ?st, 40, Some (sample_request ''a'' 2)), (?st, ?st, 20, Some (sample_request ''a'' 2))]"
  have "engine_limits ?e"
    using NewEngine_limits [of "\<lparr>ec_ServerLagRetryAfter = 0, ec_BucketGCInterval = 0,
      ec_ExpiredBucketGrace = 0, ec_MaxBuckets = 2\<rparr>"]
    by (simp add: sample_engine_def engine_limits_def)
  moreover have "\<forall>c \<in> set ?calls. call_time c < bucket_resetAt ?b" by (simp add: call_time_def)
  ultimately show ?thesis
    using live_bucket_not_overdrawn [of ?e "''shop:r:a''" ?b ?calls, OF _ _ _ _ prod.collapse [symmetric]]
    by auto
qed

text \<open>C3: over calls whose times lie within one window length, whatever their order, a key
  whose rule never exceeds the quota \<open>q\<close> is granted at most what was left in its bucket at
  the beginning, if that was not yet due, plus \<open>q\<close>: no more than \<open>q\<close> when the key has no
  bucket or a due one, and never more than twice \<open>q\<close>.\<close>

theorem fixed_window_bound:
  assumes "engine_limits e" and "0 \<le> q" and "0 \<le> live_rest t0 key e" and "live_rest t0 key e \<le> q"
    and "\<forall>c \<in> set calls. t0 \<le> call_time c \<and> call_time c < t0 + w \<and>
      (call_key c = key \<longrightarrow> rule_bounded q w (call_rule c))"
    and "acquire_all calls e = (answers, e')"
  shows "total_taken key answers \<le> live_rest t0 key e + q \<and> total_taken key answers \<le> 2 * q"
  using acquire_all_live_bound [OF assms(6) _ assms(5,2,3)] assms(1,4) by (simp add: engine_limits_def)

lemma sample_limits: "engine_limits sample_engine"
  unfolding sample_engine_def by (rule NewEngine_limits)

lemma sample_buckets: "engine_buckets sample_engine = fmempty"
  by (simp add: sample_engine_def NewEngine_def)

lemma sample_call_rule:
  "call_rule (st, sample_store rule, t, Some (sample_request key cost)) = rule"
  by (simp add: call_rule_def) (simp add: sample_request_def sample_find)

lemma fixed_window_bound_witness:
  "total_taken ''shop:r:a'' (fst (acquire_all
      (map (\<lambda>t. (sample_store (sample_rule 3 60), sample_store (sample_rule 3 60), t,
        Some (sample_request ''a'' 2))) [5, 7, 59000000000])
      sample_engine)) \<le> 3"
proof -
  let ?st = "sample_store (sample_rule 3 60)"
  let ?calls = "map (\<lambda>t. (?st, ?st, t, Some (sample_request ''a'' 2))) [5, 7, 59000000000]"
  have "sint (60 * Second) = 60000000000" using seconds_duration [of 60] by simp
  then have rule: "rule_bounded 3 60000000000 (sample_rule 3 60)"
    by (simp add: rule_bounded_def sample_rule_def)
  have "\<forall>c \<in> set ?calls. 5 \<le> call_time c \<and> call_time c < 5 + 60000000000 \<and>
      (call_key c = ''shop:r:a'' \<longrightarrow> rule_bounded 3 60000000000 (call_rule c))"
    by (simp add: call_time_def sample_call_rule rule)
  from fixed_window_bound [OF sample_limits _ _ _ this prod.collapse [symmetric]]
  show ?thesis by (simp add: sample_buckets live_rest_def)
qed

text \<open>C16: an engine never holds more buckets than its configured maximum.\<close>

theorem bucket_count_bounded:
  assumes "acquire_all calls (NewEngine config) = (answers, e')"
  shows "int (go_len (engine_buckets e')) \<le> sint (engine_maxBuckets e') \<and>
    engine_maxBuckets e' = (if ec_MaxBuckets config \<le>s 0 then 1000000 else ec_MaxBuckets config)"
  using acquire_all_len [OF assms] NewEngine_limits [of config]
  by (simp add: engine_limits_def word_sless_alt NewEngine_def split: if_splits)

definition sample_calls :: "unit call list" where
  "sample_calls =
     map (\<lambda>k. (sample_store (sample_rule 3 60), sample_store (sample_rule 3 60), 5,
       Some (sample_request k 1))) [''a'', ''b'', ''c'', ''d'']"

lemma bucket_count_bounded_witness:
  "int (go_len (engine_buckets (snd (acquire_all sample_calls sample_engine)))) \<le> 2"
proof -
  obtain answers e' where run: "acquire_all sample_calls sample_engine = (answers, e')" by fastforce
  from bucket_count_bounded [OF this [unfolded sample_engine_def]]
  have "int (go_len (engine_buckets e')) \<le> sint (engine_maxBuckets e')" "engine_maxBuckets e' = 2"
    by (auto simp: word_sle_eq)
  then show ?thesis by (simp add: run)
qed

text \<open>C28: a request passes validation exactly when it is present, its five required fields
  are not blank, the rule exists, its revision names the rule's version (or, when it is not a
  number, is the rule's revision literally), the checksums agree, and the rule has a positive
  quota and window.\<close>

theorem Validate_passes_iff:
  "Res_Decision (Validate e st request) = QUOTA_DECISION_UNSPECIFIED \<longleftrightarrow>
     (\<exists>r rule. request = Some r \<and> fields_present r \<and>
        FindRule st (Req_ApplicationCode r) (Req_RuleId r) = (rule, True) \<and>
        revision_ok rule (Req_RuleRevision r) \<and> Req_RuleChecksum r = rule_Checksum rule \<and>
        0 <s rule_Quota rule \<and> 0 <s rule_WindowSeconds rule)"
  by (rule Validate_unspecified)

lemma Validate_reason: "Res_Reason (Validate e st request) \<noteq> ''rate_limited''"
proof -
  have "snd (compareRuleVersion rule revision checksum) \<noteq> ''rate_limited''" for rule revision checksum
    by (auto simp: compareRuleVersion_def Let_def split: prod.split option.split)
  then have c: "compareRuleVersion rule revision checksum = (d, m) \<Longrightarrow> m \<noteq> ''rate_limited''"
    for rule revision checksum d m by (metis snd_conv)
  have "validateRequest request \<noteq> ''rate_limited''" by (simp add: validateRequest_def)
  then show ?thesis
    by (auto simp: Validate_def Let_def new_AcquireQuotaResponse_def c split: prod.split bool.split)
qed

text \<open>A call that is not allowed takes nothing: every bucket keeps its count unless it
  was due, in which case it is deleted or replaced by one with the rule's full quota; and a
  rate-limited caller asked for more than the remaining count the answer reports.\<close>

theorem denial_takes_nothing:
  assumes "Acquire st st' now request e = (request', res, e')" and "0 <s engine_expiredBucketGrace e"
    and "Res_Decision res \<noteq> QUOTA_DECISION_ALLOWED"
  shows "(fmlookup (engine_buckets e') key = fmlookup (engine_buckets e) key \<or>
      (case fmlookup (engine_buckets e) key of None \<Rightarrow> True | Some b \<Rightarrow> bucket_resetAt b \<le> now) \<and>
      (fmlookup (engine_buckets e') key = None \<or>
       fmlookup (engine_buckets e') key = Some
         \<lparr>bucket_remaining = rule_Quota (call_rule (st, st', now, request)),
          bucket_resetAt = now + sint (rule_WindowSeconds (call_rule (st, st', now, request)) * Second)\<rparr>)) \<and>
    (Res_Reason res = ''rate_limited'' \<longrightarrow> Res_Remaining res <s Req_GetCost request')"
  using assms(1)
proof (cases rule: Acquire_cases)
  case rejected
  then show ?thesis by (simp add: Validate_reason)
next
  case locked
  have state: "fmlookup (engine_buckets (cleanupExpiredLocked now e)) key = fmlookup (engine_buckets e) key \<or>
      fmlookup (engine_buckets (cleanupExpiredLocked now e)) key = None \<and>
      (\<exists>b. fmlookup (engine_buckets e) key = Some b \<and> bucket_resetAt b \<le> now)"
    by (rule cleanup_lookup [OF assms(2)])
  from locked(5) show ?thesis
  proof (cases rule: acquireLocked_cases)
    case full
    then show ?thesis using state by auto
  next
    case (denied state)
    then show ?thesis
      using \<open>fmlookup _ key = _ \<or> _\<close> by (auto simp: call_rule_def split: option.splits if_splits)
  next
    case allowed
    then show ?thesis using assms(3) by simp
  qed
qed

lemma denial_takes_nothing_witness:
  "\<exists>request' res e'. Acquire (sample_store (sample_rule 3 60)) (sample_store (sample_rule 3 60)) 40
      (Some (sample_request ''a'' 2))
      (sample_engine\<lparr>engine_buckets := fmupd ''shop:r:a'' \<lparr>bucket_remaining = 1, bucket_resetAt = 100\<rparr> fmempty\<rparr>)
      = (request', res, e') \<and>
    Res_Decision res = QUOTA_DECISION_DENIED \<and>
    fmlookup (engine_buckets e') ''shop:r:a'' = Some \<lparr>bucket_remaining = 1, bucket_resetAt = 100\<rparr>"
proof -
  let ?b = "\<lparr>bucket_remaining = 1, bucket_resetAt = 100\<rparr>"
  let ?e = "sample_engine\<lparr>engine_buckets := fmupd ''shop:r:a'' ?b fmempty\<rparr>"
  let ?st = "sample_store (sample_rule 3 60)" and ?r = "Some (sample_request ''a'' 2)"
  obtain request' res e' where call: "Acquire ?st ?st 40 ?r ?e = (request', res, e')"
    by (cases "Acquire ?st ?st 40 ?r ?e") auto
  have grace: "0 <s engine_expiredBucketGrace ?e" using sample_limits by (simp add: engine_limits_def)
  have "TrimSpace ''a'' \<noteq> []" by code_simp
  then have valid: "Res_Decision (Validate ?e ?st ?r) = QUOTA_DECISION_UNSPECIFIED"
    by (intro sample_valid) (simp_all add: word_sless_alt)
  have "charged ?b 2 res (fmlookup (engine_buckets e') ''shop:r:a'')"
    using call
  proof (cases rule: Acquire_cases)
    case rejected
    then show ?thesis using valid by simp
  next
    case locked
    have "Req_GetCost request' = 2"
      unfolding locked(3) by (simp add: with_default_cost_def sample_request_def word_sle_eq)
    then show ?thesis
      using acquireLocked_live [OF locked(5) grace, of ?b] by (simp add: sample_key)
  qed
  then have denied: "Res_Decision res = QUOTA_DECISION_DENIED"
    by (simp add: charged_def word_sless_alt)
  from denial_takes_nothing [OF call grace, of "''shop:r:a''"] this call show ?thesis by auto
qed

text \<open>A client that sends back the revision and checksum of the rule it was given is never
  told that its rule is stale, ahead or in conflict: with the other fields present, its
  request passes validation.\<close>

theorem own_digest_passes:
  assumes "store_wf st" and "FindRule st (Req_ApplicationCode r) (Req_RuleId r) = (rule, True)"
    and "Req_RuleRevision r = Revision rule" and "Req_RuleChecksum r = rule_Checksum rule"
    and "rule_SnapshotVersion rule \<noteq> 0" and "TrimSpace (rule_Checksum rule) \<noteq> []"
    and "TrimSpace (Req_ApplicationCode r) \<noteq> []" and "TrimSpace (Req_RuleId r) \<noteq> []"
    and "TrimSpace (Req_QuotaKey r) \<noteq> []"
  shows "Res_Decision (Validate e st (Some r)) = QUOTA_DECISION_UNSPECIFIED"
proof -
  have "Revision rule = FormatInt (rule_SnapshotVersion rule)" using assms(5) by (simp add: Revision_def)
  then have "revision_ok rule (Revision rule)" "TrimSpace (Revision rule) \<noteq> []"
    by (simp_all add: revision_ok_def ParseInt_FormatInt TrimSpace_FormatInt FormatInt_nonempty)
  with assms FindRule_id(4,5) [OF assms(1,2)] show ?thesis
    by (simp add: Validate_unspecified fields_present_def)
qed

lemma sample_snapshot_wf: "snapshot_wf (sample_snapshot (sample_rule 3 60))"
  by (simp add: snapshot_wf_def sample_snapshot_def app_wf_def config_wf_def rule_wf_def sample_rule_def
      sample_trim word_sless_alt fmupd_lookup)

lemma FormatInt_7: "FormatInt 7 = ''7''"
  by (simp add: FormatInt_def format_int_def dec_digits.simps digit_char_def) code_simp

lemma own_digest_passes_witness:
  "Res_Decision (Validate sample_engine (sample_store (sample_rule 3 60)) (Some (sample_request ''a'' 2)))
    = QUOTA_DECISION_UNSPECIFIED"
proof (rule own_digest_passes)
  show "store_wf (sample_store (sample_rule 3 60))"
    unfolding sample_store_def by (rule NewStore_wf) (rule sample_snapshot_wf)
  show "FindRule (sample_store (sample_rule 3 60)) (Req_ApplicationCode (sample_request ''a'' 2))
      (Req_RuleId (sample_request ''a'' 2)) = (sample_rule 3 60, True)"
    by (simp add: sample_request_def sample_find)
  show "Req_RuleRevision (sample_request ''a'' 2) = Revision (sample_rule 3 60)"
    by (simp add: sample_request_def Revision_def sample_rule_def FormatInt_7)
  have "TrimSpace ''a'' \<noteq> []" by code_simp
  then show "TrimSpace (Req_QuotaKey (sample_request ''a'' 2)) \<noteq> []" by (simp add: sample_request_def)
qed (simp_all add: sample_request_def sample_rule_def sample_trim)

subsubsection \<open>Windows that overflow\<close>

definition only_due :: "string \<Rightarrow> time \<Rightarrow> Engine \<Rightarrow> bool" where
  "only_due key now e \<longleftrightarrow> engine_limits e \<and>
     (engine_buckets e = fmempty \<or>
      (\<exists>b. engine_buckets e = fmupd key b fmempty \<and> bucket_resetAt b \<le> now))"

lemma fmdrop_none: "fmdrop k fmempty = fmempty"
  by (rule fmap_ext) simp

lemma cleanup_only_due:
  "only_due key now e \<Longrightarrow> only_due key now (cleanupExpiredLocked now e)"
proof -
  assume due: "only_due key now e"
  then have "engine_buckets (cleanupExpiredLocked now e) = engine_buckets e \<or>
      engine_buckets (cleanupExpiredLocked now e) = fmempty"
    by (auto simp: only_due_def cleanupExpiredLocked_def fmdrop_none split: if_splits)
  with due show ?thesis by (auto simp: only_due_def engine_limits_def)
qed

lemma acquireLocked_overflow:
  assumes call: "acquireLocked rule now key cost response e = (res, e')" and due: "only_due key now e"
    and w: "sint (rule_WindowSeconds rule * Second) \<le> 0" and cost: "\<not> rule_Quota rule <s cost"
  shows "Res_Decision res = QUOTA_DECISION_ALLOWED \<and> only_due key now e'"
proof -
  let ?c = "cleanupExpiredLocked now e"
  note c = cleanup_only_due [OF due]
  have room: "\<not> at_capacity ?c" if "fmlookup (engine_buckets ?c) key = None"
    using c that by (auto simp: only_due_def at_capacity_def engine_limits_def word_sless_alt)
  have state: "(case fmlookup (engine_buckets ?c) key of None \<Rightarrow> fresh
      | Some b \<Rightarrow> if bucket_resetAt b \<le> now then fresh else b) = fresh" for fresh
    using c by (auto simp: only_due_def)
  have only: "fmupd key b (engine_buckets ?c) = fmupd key b fmempty" for b
    using c by (auto simp: only_due_def intro: fmap_ext)
  from call show ?thesis
  proof (cases rule: acquireLocked_cases)
    case full
    then show ?thesis using room by simp
  next
    case (denied s)
    then show ?thesis using cost by (simp add: state)
  next
    case (allowed s)
    then have "e' = ?c\<lparr>engine_buckets := fmupd key (s\<lparr>bucket_remaining := bucket_remaining s - cost\<rparr>) fmempty\<rparr>"
      "bucket_resetAt s \<le> now"
      using w by (simp_all add: state only)
    with c allowed(4) show ?thesis by (auto simp: only_due_def engine_limits_def)
  qed
qed



subsubsection \<open>Bucket keys\<close>

lemma append_colon_inject:
  assumes "c \<notin> set a" and "c \<notin> set a'" and "a @ c # x = a' @ c # x'"
  shows "a = a' \<and> x = x'"
  using assms
proof (induction a arbitrary: a')
  case Nil
  then show ?case by (cases a') auto
next
  case (Cons y a)
  then show ?case by (cases a') auto
qed

text \<open>Two requests share a bucket only if they are for the same application, rule and
  quota key, as long as the application codes and rule ids hold no colon.\<close>

theorem bucket_key_injective:
  assumes "CHR '':'' \<notin> set (Req_GetApplicationCode r)" and "CHR '':'' \<notin> set (Req_GetApplicationCode r')"
    and "CHR '':'' \<notin> set (Req_GetRuleId r)" and "CHR '':'' \<notin> set (Req_GetRuleId r')"
  shows "bucket_key r = bucket_key r' \<longleftrightarrow>
    Req_GetApplicationCode r = Req_GetApplicationCode r' \<and> Req_GetRuleId r = Req_GetRuleId r' \<and>
    Req_GetQuotaKey r = Req_GetQuotaKey r'"
proof
  assume eq: "bucket_key r = bucket_key r'"
  have 1: "Req_GetApplicationCode r = Req_GetApplicationCode r' \<and>
      Req_GetRuleId r @ CHR '':'' # Req_GetQuotaKey r = Req_GetRuleId r' @ CHR '':'' # Req_GetQuotaKey r'"
    by (rule append_colon_inject [OF assms(1,2)]) (use eq in \<open>simp add: bucket_key_def\<close>)
  with append_colon_inject [OF assms(3,4)] show "Req_GetApplicationCode r = Req_GetApplicationCode r' \<and>
      Req_GetRuleId r = Req_GetRuleId r' \<and> Req_GetQuotaKey r = Req_GetQuotaKey r'" by blast
qed (simp add: bucket_key_def)

lemma bucket_key_injective_witness:
  "bucket_key (Some (sample_request ''a'' 1)) \<noteq> bucket_key (Some (sample_request ''b:c'' 1))"
  by (subst bucket_key_injective) (simp_all add: sample_request_def)

text \<open>A colon in an application code or a rule id lets requests for different rules share
  one bucket.\<close>

theorem bucket_key_collision:
  "\<exists>r r'. bucket_key (Some r) = bucket_key (Some r') \<and> Req_RuleId r \<noteq> Req_RuleId r' \<and>
     Req_ApplicationCode r = Req_ApplicationCode r' \<and> fields_present r \<and> fields_present r'"
proof -
  let ?r = "(sample_request ''k:x'' 1)\<lparr>Req_RuleId := ''r''\<rparr>"
  let ?r' = "(sample_request ''x'' 1)\<lparr>Req_RuleId := ''r:k''\<rparr>"
  have "bucket_key (Some ?r) = bucket_key (Some ?r')" by (simp add: bucket_key_def sample_request_def)
  moreover have "TrimSpace ''k:x'' = ''k:x''" "TrimSpace ''x'' = ''x''" "TrimSpace ''r:k'' = ''r:k''"
    by code_simp+
  then have "fields_present ?r" "fields_present ?r'"
    by (simp_all add: fields_present_def sample_request_def sample_trim)
  moreover have "Req_RuleId ?r \<noteq> Req_RuleId ?r'" "Req_ApplicationCode ?r = Req_ApplicationCode ?r'"
    by (simp_all add: sample_request_def)
  ultimately show ?thesis by blast
qed

end
