(* ===== verification/TopologyProperties.thy ===== *)
theory TopologyProperties
  imports TopologyManager QuotaEngine
begin

text \<open>
  The properties of the registry providers, the topology and its manager.
\<close>

subsection \<open>An example\<close>

definition sample_instance :: "string \<Rightarrow> Instance" where
  "sample_instance k =
     \<lparr>inst_InstanceID = k, inst_Host = ''h'', inst_Port = 9090, inst_Priority = 100, inst_Weight = 100,
      inst_Zone = [], inst_Version = [], inst_RuleRevision = [], inst_State = ''UP'',
      inst_Metadata = fmempty\<rparr>"

definition toy_log :: "rat \<Rightarrow> rat" where
  "toy_log u = u - 1"

lemma toy_log_negative: "log_negative toy_log"
  by (simp add: log_negative_def toy_log_def)

lemma sample_instance_trim:
  "TrimSpace ''a'' = ''a''" "TrimSpace ''b'' = ''b''" "TrimSpace ''h'' = ''h''"
  "TrimSpace ''key'' = ''key''"
  by code_simp+

lemma sample_instance_wf: "inst_wf (sample_instance ''a'')" "inst_wf (sample_instance ''b'')"
  by (simp_all add: inst_wf_def sample_instance_def sample_instance_trim word_sless_alt)

lemma sample_normalized:
  "normalized [sample_instance ''a'', sample_instance ''b''] = [sample_instance ''a'', sample_instance ''b'']"
  by (rule normalized_fix) (simp add: sample_instance_wf)

definition moved_instance :: Instance where
  "moved_instance = (sample_instance ''a'')\<lparr>inst_Host := ''b''\<rparr>"

subsection \<open>Properties\<close>

text \<open>C8: whatever order the provider lists them in, the same instances give the same topology
  and therefore the same owner of every shard, as long as any two instances that differ after
  normalisation differ in their priority, weight, id or host and port.\<close>

theorem topology_independent_of_order:
  assumes "mset xs = mset ys"
    and "inj_on (\<lambda>i. (inst_Priority i, inst_Weight i, inst_InstanceID i,
      Sprintf_host_port (inst_Host i) (inst_Port i))) (set (normalized xs))"
  shows "Build ns sv xs = Build ns sv ys \<and>
    Topology_OwnerOf mlog (Build ns sv xs) key = Topology_OwnerOf mlog (Build ns sv ys) key"
proof -
  have "inj_on topology_key (set (normalized xs))"
    using assms(2) by (auto simp: inj_on_def topology_key_def sint_eq_iff_32)
  from Build_order [OF assms(1) this] show ?thesis by simp
qed

lemma topology_independent_of_order_witness:
  "Build ''n'' ''s'' [sample_instance ''a'', moved_instance] =
   Build ''n'' ''s'' [moved_instance, sample_instance ''a'']"
proof -
  have "inst_wf moved_instance"
    by (simp add: moved_instance_def inst_wf_def sample_instance_def sample_instance_trim word_sless_alt)
  then have "normalized [sample_instance ''a'', moved_instance] = [sample_instance ''a'', moved_instance]"
    by (intro normalized_fix) (simp add: sample_instance_wf)
  moreover have "Sprintf_host_port ''h'' 9090 \<noteq> Sprintf_host_port ''b'' 9090"
    by (simp add: Sprintf_host_port_def)
  ultimately have "inj_on (\<lambda>i. (inst_Priority i, inst_Weight i, inst_InstanceID i,
      Sprintf_host_port (inst_Host i) (inst_Port i))) (set (normalized [sample_instance ''a'', moved_instance]))"
    by (simp add: moved_instance_def sample_instance_def)
  from topology_independent_of_order [OF _ this] show ?thesis by simp
qed

text \<open>C6: a shard with a key, under a topology with an instance that is UP, has an owner: an UP
  instance whose score no other UP instance of any priority beats, and of those with its score the
  one with the smallest id; otherwise there is none. Under one revision, changing the priorities of
  the instances does not change the owner.\<close>

theorem owner_is_best:
  assumes "log_negative mlog"
  shows "(snd (Topology_OwnerOf mlog t key) \<longleftrightarrow>
      TrimSpace key \<noteq> [] \<and> top_Revision t \<noteq> [] \<and> (\<exists>i. i \<in> set (top_Instances t) \<and> up i)) \<and>
    (\<forall>own. Topology_OwnerOf mlog t key = (own, True) \<longrightarrow>
      own \<in> set (top_Instances t) \<and> up own \<and>
      (\<forall>i \<in> set (top_Instances t). up i \<longrightarrow>
        as_good (weightedScore mlog (top_Revision t) (TrimSpace key)) own i)) \<and>
    inst_InstanceID (fst (Topology_OwnerOf mlog
      (t\<lparr>top_Instances := map (\<lambda>i. i\<lparr>inst_Priority := p i\<rparr>) (top_Instances t)\<rparr>) key)) =
    inst_InstanceID (fst (Topology_OwnerOf mlog t key))"
  using OwnerOf_cases [OF assms, of key t] by (auto simp: OwnerOf_priority split: if_splits)
lemma owner_is_best_witness:
  "\<exists>own. Topology_OwnerOf toy_log (Build ''n'' ''s'' [sample_instance ''a'', sample_instance ''b'']) ''key''
      = (own, True) \<and> own \<in> {sample_instance ''a'', sample_instance ''b''}"
proof -
  let ?t = "Build ''n'' ''s'' [sample_instance ''a'', sample_instance ''b'']"
  have set: "set (top_Instances ?t) = {sample_instance ''a'', sample_instance ''b''}"
    by (auto simp: Build_instances sample_normalized)
  have "top_Revision ?t \<noteq> []" using Build_revision [of "''n''" "''s''"] by (metis length_0_conv zero_neq_numeral)
  moreover have "up (sample_instance ''a'')" by (simp add: up_def sample_instance_def)
  ultimately have "snd (Topology_OwnerOf toy_log ?t ''key'')"
    using owner_is_best [OF toy_log_negative, of ?t "''key''"] set by (auto simp: sample_instance_trim)
  then obtain own where own: "Topology_OwnerOf toy_log ?t ''key'' = (own, True)"
    by (cases "Topology_OwnerOf toy_log ?t ''key''") auto
  with owner_is_best [OF toy_log_negative, of ?t "''key''"] set show ?thesis by blast
qed

text \<open>A topology is in normal form, whatever was discovered: every instance has a trimmed
  id and host, a positive port, one of the three states, a priority and a positive weight;
  they are in the order of the sort; the revision has 16 digits; and building again from
  the topology's own instances changes nothing.\<close>

theorem topology_normal_form:
  "list_all inst_wf (top_Instances (Build ns sv xs)) \<and>
   sorted (map topology_key (top_Instances (Build ns sv xs))) \<and>
   length (top_Revision (Build ns sv xs)) = 16 \<and>
   Build ns sv (top_Instances (Build ns sv xs)) = Build ns sv xs"
proof -
  have "list_all inst_wf (top_Instances (Build ns sv xs))"
    using normalized_wf by (auto simp: list_all_iff Build_instances)
  moreover have "sorted (map topology_key (top_Instances (Build ns sv xs)))"
    by (simp add: Build_instances)
  ultimately show ?thesis by (simp add: Build_revision Build_idem)
qed

text \<open>Once the manager has had a topology it never fails again: every later call returns
  one, through any outage of the provider.\<close>

theorem topology_stays_available:
  assumes "top_Revision (mgr_current m) \<noteq> []"
  shows "list_all is_ok (fst (current_all ord rds m))"
  using current_all_available [OF assms] by (auto simp: list_all_iff)

definition sample_reading :: "time \<Rightarrow> (string + Instance list) \<Rightarrow> string reading" where
  "sample_reading t listing =
     \<lparr>rd_lookup_start = t, rd_now = t, rd_refresh_start = t, rd_listing = listing, rd_refresh_end = t,
      rd_lookup_end = t\<rparr>"

definition sample_manager :: Manager where
  "sample_manager = NewManager ''n'' ''s'' ''a'' 0 None"

definition sample_ord :: "string fset \<Rightarrow> string list" where
  "sample_ord S = sorted_list_of_set (fset S)"

lemma sample_refreshed:
  "Current sample_ord (sample_reading 10 (Inr [sample_instance ''a''])) sample_manager =
     (Inr (Build ''n'' ''s'' [sample_instance ''a'']),
      sample_manager\<lparr>mgr_current := Build ''n'' ''s'' [sample_instance ''a''], mgr_updatedAt := 10,
        mgr_expiresAt := 2000000010\<rparr>)"
proof -
  have "sint (2 * Second) = 2000000000" using seconds_duration [of 2] by simp
  then show ?thesis
    by (simp add: Current_def Refresh_def sample_manager_def NewManager_def sample_reading_def
        zero_Topology_def Let_def mgr_record_def RecordCacheAccess_def RecordRefresh_def Add_def
        defaultCacheTTL_def)
qed

lemma Build_revision_nonempty: "top_Revision (Build ns sv xs) \<noteq> []"
  using Build_revision [of ns sv xs] by auto

lemma topology_stays_available_witness:
  "list_all is_ok (fst (current_all sample_ord
     [sample_reading 20 (Inl ''down''), sample_reading 9000000000 (Inl ''down'')]
     (snd (Current sample_ord (sample_reading 10 (Inr [sample_instance ''a''])) sample_manager))))"
  by (rule topology_stays_available) (simp add: sample_refreshed Build_revision_nonempty)

text \<open>For the time to live after a refresh, the manager answers with that topology,
  whatever the provider would say by then; later it asks again, and a refresh that succeeds
  replaces the topology.\<close>

theorem topology_cached_for_ttl:
  assumes "rd_listing rd = Inr instances" and "Refresh ord rd m = (res, m1)"
  shows "fst (Current ord rd' m1) =
    (if rd_now rd' < rd_refresh_end rd + sint (mgr_CacheTTL m)
     then Inr (Build (mgr_Namespace m) (mgr_Service m) instances)
     else case rd_listing rd' of
       Inr later \<Rightarrow> Inr (Build (mgr_Namespace m) (mgr_Service m) later)
     | Inl _ \<Rightarrow> Inr (Build (mgr_Namespace m) (mgr_Service m) instances))"
  using assms
  by (auto simp: Refresh_def Current_def Let_def Before_def Add_def Build_revision_nonempty split: sum.split)

lemma topology_cached_for_ttl_witness:
  "fst (Current sample_ord (sample_reading 1000000000 (Inr []))
     (snd (Refresh sample_ord (sample_reading 10 (Inr [sample_instance ''a''])) sample_manager))) =
   Inr (Build ''n'' ''s'' [sample_instance ''a''])"
proof -
  have "sint (2 * Second) = 2000000000" using seconds_duration [of 2] by simp
  then show ?thesis
    by (subst topology_cached_for_ttl [OF _ prod.collapse [symmetric]])
      (simp_all add: sample_reading_def sample_manager_def NewManager_def defaultCacheTTL_def)
qed

text \<open>After an update, a listing that contains this server's own instance shows the
  revision and the checksum of the snapshot of that update, for either provider.\<close>

theorem provider_reports_rule_revision:
  assumes "Provider_List discover (Provider_Update snapshot p) = Inr instances"
    and "i \<in> set instances" and "inst_InstanceID i = inst_InstanceID (self_instance p)"
  shows "inst_RuleRevision i = FormatInt (snap_Version snapshot) \<and>
    map_value (inst_Metadata i) ''rule_checksum'' = snap_Checksum snapshot"
  by (rule provider.own_revision [OF assms])

lemma provider_reports_rule_revision_witness:
  "inst_RuleRevision (LocalProvider_Update (EmptySnapshot 0) (sample_instance ''a'')) = FormatInt 0"
proof -
  let ?i = "LocalProvider_Update (EmptySnapshot 0) (sample_instance ''a'')"
  have "Provider_List (\<lambda>_. Inl ''none'') (Provider_Update (EmptySnapshot 0) (Local (sample_instance ''a''))) =
      Inr [?i]"
    by (simp add: Provider_List_def Provider_Update_def LocalProvider_List_def)
  from provider_reports_rule_revision [OF this, of ?i] show ?thesis
    by (simp add: self_instance_def LocalProvider_Update_def Let_def EmptySnapshot_def)
qed

text \<open>Two quota keys that differ in surrounding white space only have one owner but two
  buckets, so such a client gets the quota once per spelling.\<close>

theorem padded_quota_key_splits_buckets:
  assumes "TrimSpace key \<noteq> key" and "Req_QuotaKey r = TrimSpace key" and "r' = r\<lparr>Req_QuotaKey := key\<rparr>"
  shows "ShardKey (Req_ApplicationCode r') (Req_RuleId r') (Req_QuotaKey r') =
      ShardKey (Req_ApplicationCode r) (Req_RuleId r) (Req_QuotaKey r) \<and>
    bucket_key (Some r') \<noteq> bucket_key (Some r)"
  using assms by (simp add: ShardKey_def bucket_key_def)

definition padded_request :: "string \<Rightarrow> AcquireQuotaRequest" where
  "padded_request key =
     \<lparr>Req_RequestId = ''q'', Req_ApplicationCode = ''shop'', Req_ClientId = [], Req_RuleId = ''r'',
      Req_QuotaKey = key, Req_Cost = 1, Req_RuleRevision = ''7'', Req_RuleChecksum = ''k'',
      Req_Attributes = fmempty, Req_TopologyRevision = ''t'', Req_TargetInstanceId = ''i'',
      Req_ShardHash = []\<rparr>"

lemma padded_quota_key_splits_buckets_witness:
  "bucket_key (Some (padded_request ''a '')) \<noteq> bucket_key (Some (padded_request ''a''))"
proof -
  have t: "TrimSpace ''a '' = ''a''" by code_simp
  from padded_quota_key_splits_buckets [of "''a ''" "padded_request ''a''" "padded_request ''a ''"]
  show ?thesis by (simp add: t padded_request_def)
qed

end
