(* ===== verification/GrpcProperties.thy ===== *)
theory GrpcProperties
  imports GrpcFacts QuotaProperties TopologyProperties
begin

text \<open>
  The properties of the gRPC server's unary calls.
\<close>

lemma OwnerOf_member:
  assumes "Topology_OwnerOf mlog t key = (own, True)"
  shows "own \<in> set (top_Instances t)"
proof -
  have "case fold (owner_step mlog rv k) xs (- 1, zero_Instance) of (best, own) \<Rightarrow>
      own \<in> set xs \<or> best = - 1" for rv k xs
  proof (induction xs rule: rev_induct)
    case (snoc x xs)
    then show ?case by (auto simp: owner_step_def Let_def split: prod.splits)
  qed simp
  from this [of "top_Instances t" "top_Revision t" "TrimSpace key"] assms show ?thesis
    by (auto simp: Topology_OwnerOf_def Let_def split: if_splits prod.splits)
qed

subsection \<open>An example\<close>

definition one_instance :: Topology where
  "one_instance = Build ''n'' ''s'' [sample_instance ''a'']"

definition sample_server :: "string \<Rightarrow> Server" where
  "sample_server token =
     \<lparr>srv_instanceID = ''a'', srv_heartbeatInterval = 10 * Second,
      srv_topology = sample_manager\<lparr>mgr_current := one_instance, mgr_expiresAt := 1000\<rparr>,
      srv_quota = sample_engine, srv_authToken = token\<rparr>"

definition owner_request :: AcquireQuotaRequest where
  "owner_request =
     (sample_request ''a'' 2)\<lparr>Req_TopologyRevision := top_Revision one_instance, Req_TargetInstanceId := ''a''\<rparr>"

lemma one_instance_instances: "top_Instances one_instance = [sample_instance ''a'']"
proof -
  have "normalized [sample_instance ''a''] = [sample_instance ''a'']"
    by (rule normalized_fix) (simp add: sample_instance_wf)
  then show ?thesis by (simp add: one_instance_def Build_instances)
qed

lemma one_instance_owner:
  assumes "TrimSpace key \<noteq> []"
  shows "Topology_OwnerOf toy_log one_instance key = (sample_instance ''a'', True)"
proof -
  have "up (sample_instance ''a'')" by (simp add: up_def sample_instance_def)
  moreover have "top_Revision one_instance \<noteq> []" by (simp add: one_instance_def Build_revision_nonempty)
  ultimately show ?thesis
    using OwnerOf_cases [OF toy_log_negative, of key one_instance] assms
    by (simp add: one_instance_instances)
qed

lemma sample_shard: "request_shard (Some owner_request) = ''shop:r:a''"
  by (simp add: request_shard_def owner_request_def sample_request_def ShardKey_def sample_trim
      sample_instance_trim Req_GetApplicationCode_def Req_GetRuleId_def Req_GetQuotaKey_def)

lemma sample_owner:
  "fst (Manager_OwnerOf toy_log sample_ord (sample_reading 50 listing) ''shop:r:a''
      (srv_topology (sample_server token))) = Inr (sample_instance ''a'', one_instance, True)"
proof -
  have "TrimSpace ''shop:r:a'' \<noteq> []" by code_simp
  moreover have "fst (Current sample_ord (sample_reading 50 listing) (srv_topology (sample_server token))) =
      Inr one_instance"
    by (simp add: Current_def sample_server_def sample_reading_def Before_def one_instance_def
        Build_revision_nonempty)
  ultimately show ?thesis by (simp add: OwnerOf_Current one_instance_owner)
qed

lemma sample_owns: "owns toy_log sample_ord (sample_reading 50 listing) (Some owner_request) (sample_server token)"
  unfolding owns_def sample_shard
  using sample_owner [of listing token]
  by (auto simp: sample_server_def sample_instance_def owner_request_def sample_instance_trim
      Req_GetTargetInstanceId_def Req_GetTopologyRevision_def one_instance_def Build_revision_trim
      Build_revision_nonempty)

subsection \<open>Properties\<close>


text \<open>C4: under one topology a shard is served by one server: whatever two requests ask for
  the shard, and whatever each names as its target, two servers that both let them through to
  their engines have the same instance id.\<close>

theorem shard_served_by_one_instance:
  assumes "fst (Current ord rd1 (srv_topology s1)) = Inr t" and "fst (Current ord rd2 (srv_topology s2)) = Inr t"
    and "request_shard r1 = request_shard r2"
    and "fst (validateOwner mlog ord rd1 r1 s1) = None" and "fst (validateOwner mlog ord rd2 r2 s2) = None"
  shows "srv_instanceID s1 = srv_instanceID s2"
  using assms by (auto simp: validateOwner_passes owns_def OwnerOf_Current)

lemma shard_served_by_one_instance_witness:
  "srv_instanceID (sample_server ''x'') = srv_instanceID (sample_server ''y'')"
proof (rule shard_served_by_one_instance)
  show "fst (Current sample_ord (sample_reading 50 (Inl ''down'')) (srv_topology (sample_server ''x''))) =
      Inr one_instance"
    "fst (Current sample_ord (sample_reading 50 (Inl ''down'')) (srv_topology (sample_server ''y''))) =
      Inr one_instance"
    by (simp_all add: Current_def sample_server_def sample_reading_def Before_def one_instance_def
        Build_revision_nonempty)
  show "fst (validateOwner toy_log sample_ord (sample_reading 50 (Inl ''down'')) (Some owner_request)
      (sample_server ''x'')) = None"
    "fst (validateOwner toy_log sample_ord (sample_reading 50 (Inl ''down'')) (Some owner_request)
      (sample_server ''y'')) = None"
    by (simp_all add: validateOwner_passes sample_owns)
qed simp

lemma AcquireQuota_owned:
  assumes "AcquireQuota mlog ord md st1 st2 st3 now rd rd' request s = (res, request', s')"
    and "authorize md s = None"
    and "Res_Decision (Validate (srv_quota s) st1 request) = QUOTA_DECISION_UNSPECIFIED"
    and "owns mlog ord rd request s"
  shows "\<exists>decided response e. Acquire st2 st3 now request (srv_quota s) = (request', decided, e) \<and>
    res = Inr response \<and> Res_Decision response = Res_Decision decided \<and> srv_quota s' = e"
proof -
  obtain a s1 where v: "validateOwner mlog ord rd request s = (a, s1)" by fastforce
  then have a: "a = None" using validateOwner_passes [of mlog ord rd request s] assms(4) by simp
  obtain q r0 e where acq: "Acquire st2 st3 now request (srv_quota s) = (q, r0, e)"
    by (cases "Acquire st2 st3 now request (srv_quota s)") auto
  obtain r1 s2 where d: "decorateTopology mlog ord rd' q r0 (s1\<lparr>srv_quota := e\<rparr>) = (r1, s2)" by fastforce
  have "(Inr r1, q, s2) = (res, request', s')"
    using assms(1-3) v a acq d validateOwner_frame(1) [OF v] by (simp add: AcquireQuota_def Let_def)
  then show ?thesis using acq decorateTopology_frame [OF d] by auto
qed

lemma not_owner_refused:
  assumes "AcquireQuota mlog ord md st1 st2 st3 now rd rd' request s = (Inr r, request', s')"
    and "Res_Decision r = QUOTA_DECISION_NOT_OWNER"
  shows "\<exists>s1. validateOwner mlog ord rd request s = (Some r, s1)"
proof -
  have v: "Res_Decision (Validate e st q) \<noteq> QUOTA_DECISION_NOT_OWNER" for e st and q :: "AcquireQuotaRequest option"
  proof -
    have "fst (compareRuleVersion rule revision checksum) \<noteq> QUOTA_DECISION_NOT_OWNER" for rule revision checksum
      by (auto simp: compareRuleVersion_def Let_def split: prod.split option.split)
    then show ?thesis
      by (auto simp: Validate_def Let_def split: prod.split bool.split) (metis fst_conv)+
  qed
  have e: "Res_Decision r0 \<noteq> QUOTA_DECISION_NOT_OWNER" if "Acquire st2 st3 now request en = (q, r0, e')" for en q r0 e'
    using that
  proof (cases rule: Acquire_cases)
    case rejected
    then show ?thesis using v by simp
  next
    case locked
    from locked(5) show ?thesis by (cases rule: acquireLocked_cases) simp_all
  qed
  obtain a s1 where o: "validateOwner mlog ord rd request s = (a, s1)" by fastforce
  show ?thesis
  proof (cases a)
    case None
    obtain q r0 e' where acq: "Acquire st2 st3 now request (srv_quota s1) = (q, r0, e')"
      by (cases "Acquire st2 st3 now request (srv_quota s1)") auto
    obtain r1 s2 where d: "decorateTopology mlog ord rd' q r0 (s1\<lparr>srv_quota := e'\<rparr>) = (r1, s2)" by fastforce
    obtain r2 s3 where d': "decorateTopology mlog ord rd request (Validate (srv_quota s) st1 request) s = (r2, s3)"
      by fastforce
    have "Res_Decision r1 \<noteq> QUOTA_DECISION_NOT_OWNER" "Res_Decision r2 \<noteq> QUOTA_DECISION_NOT_OWNER"
      using decorateTopology_frame(2) [OF d] decorateTopology_frame(2) [OF d'] e [OF acq] v by simp_all
    then show ?thesis
      using assms o None acq d d' by (auto simp: AcquireQuota_def Let_def split: option.splits if_splits)
  next
    case (Some r')
    obtain r2 s3 where d': "decorateTopology mlog ord rd request (Validate (srv_quota s) st1 request) s = (r2, s3)"
      by fastforce
    have "Res_Decision r2 \<noteq> QUOTA_DECISION_NOT_OWNER"
      using decorateTopology_frame(2) [OF d'] v by simp
    then show ?thesis
      using assms o Some d' by (auto simp: AcquireQuota_def Let_def split: option.splits if_splits)
  qed
qed

lemma redirect_passes:
  assumes "mgr_wf (srv_topology s)"
    and "validateOwner mlog ord rd (Some r) s = (Some response, s')"
    and "Res_Decision response = QUOTA_DECISION_NOT_OWNER" and "Res_OwnerInstance response = Some owner"
    and "r' = r\<lparr>Req_TopologyRevision := Res_TopologyRevision response,
                Req_TargetInstanceId := PI_InstanceId owner\<rparr>"
    and "srv_instanceID s2 = PI_InstanceId owner"
    and "fst (Current ord rd2 (srv_topology s2)) = fst (Current ord rd (srv_topology s))"
  shows "owns mlog ord rd2 (Some r') s2"
proof -
  have blank: "TrimSpace (Req_GetTopologyRevision (Some r)) \<noteq> [] \<and>
      TrimSpace (Req_GetTargetInstanceId (Some r)) \<noteq> []"
    using assms(2,3) by (auto simp: validateOwner_def decorateTopology_frame split: if_splits prod.splits)
  then obtain own t where o: "fst (Manager_OwnerOf mlog ord rd (request_shard (Some r)) (srv_topology s)) =
      Inr (own, t, True)" "response = notOwnerResponse (Some r) t own (Res_Reason response)"
    using assms(2,3)
    by (auto simp: validateOwner_def Let_def notOwnerResponse_def split: if_splits prod.splits sum.splits)
  have cur: "fst (Current ord rd (srv_topology s)) = Inr t" "Topology_OwnerOf mlog t (request_shard (Some r)) = (own, True)"
    using o(1) by (auto simp: OwnerOf_Current split: sum.splits intro: prod_eqI)
  then obtain m' where "Current ord rd (srv_topology s) = (Inr t, m')" by (metis prod.collapse)
  then obtain xs where t: "t = Build (mgr_Namespace (srv_topology s)) (mgr_Service (srv_topology s)) xs"
    using Current_built assms(1) by blast
  have sel: "Res_TopologyRevision response = top_Revision t" "owner = toProtoInstance own"
    using o(2) assms(4) by (metis notOwnerResponse_sel(2), metis notOwnerResponse_sel(3) option.inject)
  have "own \<in> set (top_Instances t)"
    using OwnerOf_member [OF cur(2)] .
  then have "inst_wf own" by (auto simp: t Build_instances dest: normalized_wf)
  then have id: "TrimSpace (inst_InstanceID own) \<noteq> []" by (simp add: inst_wf_def)
  have shard: "request_shard (Some r') = request_shard (Some r)"
    by (simp add: request_shard_def assms(5))
  have "fst (Manager_OwnerOf mlog ord rd2 (request_shard (Some r')) (srv_topology s2)) = Inr (own, t, True)"
    using cur assms(7) by (simp add: OwnerOf_Current shard)
  then show ?thesis
    unfolding owns_def
    using assms(5,6) sel id Build_revision_trim Build_revision_nonempty
    by (auto simp: Req_GetTargetInstanceId_def Req_GetTopologyRevision_def toProtoInstance_def t)
qed

text \<open>C26: a redirect leads to the owner: when a quota call was answered with not-owner, the client
  takes the revision and the owner from the answer and sends the request again to that instance, and
  that instance authenticates it, has the rule and sees the same topology, then the call is decided by
  the engine of that instance.\<close>

theorem redirect_reaches_owner:
  assumes "mgr_wf (srv_topology s)"
    and "AcquireQuota mlog ord md st1 st2 st3 now rd rd' (Some r) s = (Inr response, request', s')"
    and "Res_Decision response = QUOTA_DECISION_NOT_OWNER" and "Res_OwnerInstance response = Some owner"
    and "r' = r\<lparr>Req_TopologyRevision := Res_TopologyRevision response,
                Req_TargetInstanceId := PI_InstanceId owner\<rparr>"
    and "srv_instanceID s2 = PI_InstanceId owner" and "authorize md2 s2 = None"
    and "Res_Decision (Validate (srv_quota s2) st4 (Some r')) = QUOTA_DECISION_UNSPECIFIED"
    and "fst (Current ord rd2 (srv_topology s2)) = fst (Current ord rd (srv_topology s))"
  shows "case Acquire st5 st6 later (Some r') (srv_quota s2) of (request1, decided, e) \<Rightarrow>
    \<exists>response2 s2'. AcquireQuota mlog ord md2 st4 st5 st6 later rd2 rd2' (Some r') s2 = (Inr response2, request1, s2') \<and>
      Res_Decision response2 = Res_Decision decided \<and> srv_quota s2' = e"
proof -
  obtain s1 where "validateOwner mlog ord rd (Some r) s = (Some response, s1)"
    using not_owner_refused [OF assms(2,3)] by blast
  from redirect_passes [OF assms(1) this assms(3-6,9)] have own: "owns mlog ord rd2 (Some r') s2" .
  obtain res q s2' where call: "AcquireQuota mlog ord md2 st4 st5 st6 later rd2 rd2' (Some r') s2 = (res, q, s2')"
    by (cases "AcquireQuota mlog ord md2 st4 st5 st6 later rd2 rd2' (Some r') s2") auto
  from AcquireQuota_owned [OF call assms(7,8) own] call show ?thesis by auto
qed
definition misdirected_request :: AcquireQuotaRequest where
  "misdirected_request = owner_request\<lparr>Req_TopologyRevision := ''old''\<rparr>"

lemma sample_redirect:
  "fst (validateOwner toy_log sample_ord (sample_reading 50 listing) (Some misdirected_request) (sample_server token)) =
   Some (notOwnerResponse (Some misdirected_request) one_instance (sample_instance ''a'') ''topology_revision_mismatch'')"
proof -
  have trim: "TrimSpace ''old'' = ''old''" by code_simp
  have shard: "request_shard (Some misdirected_request) = ''shop:r:a''"
    using sample_shard by (simp add: request_shard_def misdirected_request_def Req_GetApplicationCode_def
        Req_GetRuleId_def Req_GetQuotaKey_def)
  obtain m where "Manager_OwnerOf toy_log sample_ord (sample_reading 50 listing) ''shop:r:a''
      (srv_topology (sample_server token)) = (Inr (sample_instance ''a'', one_instance, True), m)"
    using sample_owner [of listing token] by (metis prod.collapse)
  moreover have "length ''old'' \<noteq> length (top_Revision one_instance)"
    by (simp add: one_instance_def Build_revision)
  then have "''old'' \<noteq> top_Revision one_instance" by metis
  moreover have "Req_GetTopologyRevision (Some misdirected_request) = ''old''"
    "Req_GetTargetInstanceId (Some misdirected_request) = ''a''"
    by (simp_all add: misdirected_request_def owner_request_def Req_GetTopologyRevision_def
        Req_GetTargetInstanceId_def)
  ultimately show ?thesis
    by (simp add: validateOwner_def shard trim sample_instance_trim Let_def)
qed

lemma redirect_reaches_owner_witness:
  "\<exists>response2 s2'. AcquireQuota toy_log sample_ord None (sample_store (sample_rule 3 60)) (sample_store (sample_rule 3 60))
      (sample_store (sample_rule 3 60)) 60 (sample_reading 60 (Inl ''down'')) (sample_reading 60 (Inl ''down''))
      (Some owner_request) (sample_server []) =
    (Inr response2, fst (Acquire (sample_store (sample_rule 3 60)) (sample_store (sample_rule 3 60)) 60
       (Some owner_request) sample_engine), s2') \<and>
    Res_Decision response2 = Res_Decision (fst (snd (Acquire (sample_store (sample_rule 3 60))
       (sample_store (sample_rule 3 60)) 60 (Some owner_request) sample_engine)))"
proof -
  let ?rd = "sample_reading 50 (Inl ''down'') :: string reading"
  let ?rd2 = "sample_reading 60 (Inl ''down'') :: string reading"
  let ?st = "sample_store (sample_rule 3 60)"
  let ?r = "notOwnerResponse (Some misdirected_request) one_instance (sample_instance ''a'') ''topology_revision_mismatch''"
  have auth: "authorize None (sample_server []) = None" by (simp add: authorize_def sample_server_def)
  have trim: "TrimSpace ''a'' \<noteq> []" by code_simp
  have valid: "Res_Decision (Validate (srv_quota (sample_server [])) ?st (Some q)) = QUOTA_DECISION_UNSPECIFIED"
    if "q = owner_request \<or> q = misdirected_request" for q
  proof -
    have "Res_Decision (Validate (srv_quota (sample_server [])) ?st (Some (sample_request ''a'' 2))) =
        QUOTA_DECISION_UNSPECIFIED"
      by (rule sample_valid) (simp_all add: trim word_sless_alt)
    then show ?thesis
      using that by (auto simp: Validate_unspecified owner_request_def misdirected_request_def fields_present_def)
  qed
  obtain s1 where v: "validateOwner toy_log sample_ord ?rd (Some misdirected_request) (sample_server []) = (Some ?r, s1)"
    using sample_redirect [of "Inl ''down''" "[]"] by (metis prod.collapse)
  then have call: "AcquireQuota toy_log sample_ord None ?st ?st ?st 50 ?rd ?rd (Some misdirected_request) (sample_server []) =
      (Inr ?r, Some misdirected_request, s1)"
    using auth valid [of misdirected_request] by (simp add: AcquireQuota_def Let_def)
  have wf: "mgr_wf (srv_topology (sample_server []))"
    by (auto simp: mgr_wf_def sample_server_def sample_manager_def NewManager_def one_instance_def)
  have cur: "fst (Current sample_ord (sample_reading u listing) (srv_topology (sample_server token))) = Inr one_instance"
    if "u < 1000" for u listing token
    using that by (simp add: Current_def sample_server_def sample_reading_def Before_def one_instance_def
        Build_revision_nonempty)
  have id: "PI_InstanceId (toProtoInstance (sample_instance ''a'')) = ''a''"
    by (simp add: toProtoInstance_def sample_instance_def)
  have again: "owner_request = misdirected_request\<lparr>Req_TopologyRevision := Res_TopologyRevision ?r,
      Req_TargetInstanceId := PI_InstanceId (toProtoInstance (sample_instance ''a''))\<rparr>"
    by (simp add: id) (simp add: misdirected_request_def owner_request_def)
  have same: "fst (Current sample_ord ?rd2 (srv_topology (sample_server []))) =
      fst (Current sample_ord ?rd (srv_topology (sample_server [])))"
    using cur by simp
  have self: "srv_instanceID (sample_server []) = PI_InstanceId (toProtoInstance (sample_instance ''a''))"
    "srv_quota (sample_server []) = sample_engine"
    by (simp_all add: id sample_server_def)
  obtain q1 d e where acq: "Acquire ?st ?st 60 (Some owner_request) sample_engine = (q1, d, e)"
    by (cases "Acquire ?st ?st 60 (Some owner_request) sample_engine") auto
  from redirect_reaches_owner [OF wf call _ _ again self(1) auth valid [of owner_request] same, of ?st ?st 60 ?rd2]
  show ?thesis by (auto simp: self(2) acq)
qed

text \<open>A server configured with an instance id that has white space around it owns nothing:
  the topology holds trimmed ids, so no quota request ever passes its ownership check.\<close>

theorem padded_instance_id_owns_nothing:
  assumes "mgr_wf (srv_topology s)" and "TrimSpace (srv_instanceID s) \<noteq> srv_instanceID s"
  shows "fst (validateOwner mlog ord rd request s) \<noteq> None"
proof
  assume "fst (validateOwner mlog ord rd request s) = None"
  then obtain own t where o: "fst (Manager_OwnerOf mlog ord rd (request_shard request) (srv_topology s)) =
      Inr (own, t, True)" "inst_InstanceID own = srv_instanceID s"
    by (auto simp: validateOwner_passes owns_def)
  then have cur: "fst (Current ord rd (srv_topology s)) = Inr t"
    "Topology_OwnerOf mlog t (request_shard request) = (own, True)"
    by (auto simp: OwnerOf_Current split: sum.splits intro: prod_eqI)
  then obtain m' where "Current ord rd (srv_topology s) = (Inr t, m')" by (metis prod.collapse)
  then obtain xs where "t = Build (mgr_Namespace (srv_topology s)) (mgr_Service (srv_topology s)) xs"
    using Current_built assms(1) by blast
  then have "inst_wf own" using OwnerOf_member [OF cur(2)] by (auto simp: Build_instances dest: normalized_wf)
  then show False using o(2) assms(2) by (simp add: inst_wf_def)
qed

lemma padded_instance_id_owns_nothing_witness:
  "fst (validateOwner toy_log sample_ord (sample_reading 50 (Inl ''down'')) (Some owner_request)
     ((sample_server ''x'')\<lparr>srv_instanceID := ''a ''\<rparr>)) \<noteq> None"
proof (rule padded_instance_id_owns_nothing)
  have "TrimSpace ''a '' = ''a''" by code_simp
  then show "TrimSpace (srv_instanceID ((sample_server ''x'')\<lparr>srv_instanceID := ''a ''\<rparr>)) \<noteq>
      srv_instanceID ((sample_server ''x'')\<lparr>srv_instanceID := ''a ''\<rparr>)" by simp
qed (auto simp: mgr_wf_def sample_server_def sample_manager_def NewManager_def one_instance_def)

text \<open>A header value is accepted exactly when, trimmed, it is the configured token, or the
  word bearer in any case, a space and the token; except that a configured token which itself
  starts with bearer is not accepted as it stands, because the prefix is stripped from the
  value only.\<close>

theorem tokenMatches_iff:
  "tokenMatches value token \<longleftrightarrow>
     (if ToLower (take 7 (TrimSpace value)) = ''bearer ''
      then TrimSpace (drop 7 (TrimSpace value)) = TrimSpace token
      else TrimSpace value = TrimSpace token)"
proof -
  have "HasPrefix (ToLower v) ''bearer '' \<longleftrightarrow> ToLower (take 7 v) = ''bearer ''" for v
  proof
    assume "HasPrefix (ToLower v) ''bearer ''"
    then obtain r where "map lower_char v = ''bearer '' @ r" by (auto simp: HasPrefix_iff ToLower_def)
    then have "take 7 (map lower_char v) = ''bearer ''" by simp
    then show "ToLower (take 7 v) = ''bearer ''" by (simp add: ToLower_def take_map)
  next
    assume "ToLower (take 7 v) = ''bearer ''"
    then have "ToLower v = ''bearer '' @ ToLower (drop 7 v)"
      by (metis ToLower_append append_take_drop_id)
    then show "HasPrefix (ToLower v) ''bearer ''" by (auto simp: HasPrefix_iff)
  qed
  then show ?thesis by (simp add: tokenMatches_def Let_def)
qed

subsubsection \<open>Digests\<close>

text \<open>The status that a list of results adds up to.\<close>

definition overall_status :: "RuleValidationStatus list \<Rightarrow> RuleValidationStatus" where
  "overall_status statuses =
     (let bad = filter (\<lambda>x. x \<noteq> RULE_VALIDATION_STATUS_MATCHED) statuses in
      if bad = [] then RULE_VALIDATION_STATUS_MATCHED
      else if RULE_VALIDATION_STATUS_CONFLICT \<in> set bad then RULE_VALIDATION_STATUS_CONFLICT
      else hd bad)"

lemma mergeStatus_overall:
  assumes "RULE_VALIDATION_STATUS_UNSPECIFIED \<notin> set statuses"
  shows "fold (\<lambda>x acc. mergeStatus acc x) statuses RULE_VALIDATION_STATUS_MATCHED = overall_status statuses"
  using assms
proof (induction statuses rule: rev_induct)
  case (snoc x xs)
  have "hd (filter (\<lambda>x. x \<noteq> RULE_VALIDATION_STATUS_MATCHED) xs) \<in> set xs"
    if "filter (\<lambda>x. x \<noteq> RULE_VALIDATION_STATUS_MATCHED) xs \<noteq> []"
    using hd_in_set [OF that] by auto
  then have ne: "overall_status xs \<noteq> RULE_VALIDATION_STATUS_UNSPECIFIED"
    using snoc.prems by (auto simp: overall_status_def Let_def)
  have "fold (\<lambda>x acc. mergeStatus acc x) (xs @ [x]) RULE_VALIDATION_STATUS_MATCHED =
      mergeStatus (overall_status xs) x"
    using snoc by simp
  also have "\<dots> = overall_status (xs @ [x])"
    using ne hd_in_set [of "filter (\<lambda>x. x \<noteq> RULE_VALIDATION_STATUS_MATCHED) xs"]
    by (auto simp: mergeStatus_def overall_status_def Let_def filter_empty_conv)
  finally show ?case .
qed (simp add: overall_status_def)

lemma validateDigest_status:
  "ValResult_Status (validateDigest st d) \<noteq> RULE_VALIDATION_STATUS_UNSPECIFIED"
  by (auto simp: validateDigest_def Let_def split: prod.split bool.split)

lemma validation_fold:
  "fold (\<lambda>digest response.
      let result = validateDigest st digest in
      response\<lparr>ValRes_Results := ValRes_Results response @ [result],
               ValRes_Status := mergeStatus (ValRes_Status response) (ValResult_Status result)\<rparr>) ds
    \<lparr>ValRes_ApplicationCode = a, ValRes_Status = x, ValRes_Results = rs\<rparr> =
   \<lparr>ValRes_ApplicationCode = a,
    ValRes_Status = fold (\<lambda>x acc. mergeStatus acc x) (map (\<lambda>d. ValResult_Status (validateDigest st d)) ds) x,
    ValRes_Results = rs @ map (validateDigest st) ds\<rparr>"
  by (induction ds arbitrary: x rs) (simp_all add: Let_def)

text \<open>Validating a client's digests gives one result per digest in order, and an overall
  status that is matched only if all match, conflict if any conflicts, and otherwise the first
  status that is not a match.\<close>

theorem ValidateRuleSnapshot_overall:
  "ValidateRuleSnapshot md st request s =
     (case authorize md s of
        Some msg \<Rightarrow> Inl (Unauthenticated msg)
      | None \<Rightarrow>
          (let results = map (validateDigest st) (ValReq_GetRuleDigests request) in
           Inr \<lparr>ValRes_ApplicationCode = ValReq_GetApplicationCode request,
                ValRes_Status = overall_status (map ValResult_Status results),
                ValRes_Results = results\<rparr>))"
proof -
  have "fold (\<lambda>x acc. mergeStatus acc x)
      (map (\<lambda>d. ValResult_Status (validateDigest st d)) ds) RULE_VALIDATION_STATUS_MATCHED =
      overall_status (map ValResult_Status (map (validateDigest st) ds))" for ds
    by (subst mergeStatus_overall) (auto simp: validateDigest_status validateDigest_status [symmetric] comp_def)
  then show ?thesis
    by (simp add: ValidateRuleSnapshot_def validation_fold [unfolded Let_def] Let_def split: option.split)
qed

text \<open>A client digest that agrees with the store.\<close>

definition agrees :: "'c Store \<Rightarrow> string \<Rightarrow> RuleDigest \<Rightarrow> bool" where
  "agrees st app d \<longleftrightarrow>
     (\<exists>rule. FindRule st (chooseString [Dig_ApplicationCode d, app]) (Dig_RuleId d) = (rule, True) \<and>
        Dig_Revision d = Revision rule \<and> Dig_Checksum d = rule_Checksum rule)"

lemma changed_loop_empty:
  "fst (changed_loop st app ds) = [] \<longleftrightarrow> list_all (agrees st app) ds"
proof (induction ds)
  case (Cons d ds)
  then show ?case
    using FindRule_cases [of st "chooseString [Dig_ApplicationCode d, app]" "Dig_RuleId d"]
    by (auto simp: agrees_def Let_def simp del: chooseString.simps split: prod.splits if_splits)
qed simp

lemma changed_loop_seen:
  "snd (changed_loop st app ds) =
     map (\<lambda>d. seen_key (chooseString [Dig_ApplicationCode d, app]) (Dig_RuleId d)) ds"
  by (induction ds) (auto simp: Let_def simp del: chooseString.simps split: prod.splits)

lemma seen_key_inject:
  assumes "CHR 0x00 \<notin> set a" and "CHR 0x00 \<notin> set a'"
  shows "seen_key a k = seen_key a' k' \<longleftrightarrow> a = a' \<and> k = k'"
  using append_colon_inject [OF assms, of k k'] by (auto simp: seen_key_def)

lemma seen_key_inject':
  assumes "CHR 0x00 \<notin> set a" and "CHR 0x00 \<notin> set a'"
  shows "seen_key a k = seen_key a' k' \<longleftrightarrow> k' = k \<and> a' = a"
  using seen_key_inject [OF assms] by auto


lemma sample_ord_range: "range_order sample_ord"
  by (simp add: range_order_def sample_ord_def)


end
