(* ===== verification/Cluster.thy ===== *)
theory Cluster
  imports GrpcProperties QuotaProperties
begin

text \<open>
  Several instances of the service beside each other: each has the state of its gRPC server
  (\<open>internal/grpcapi/server.go\<close>), with an engine and a topology of its own, and a call of
  \<open>AcquireQuota\<close> reaches one of them. What the cluster as a whole grants follows from what
  the ownership check and the engine promise of one instance.
\<close>

text \<open>
  A call: the instance it reaches, and what that instance reads while it answers, as the
  arguments of \<open>AcquireQuota\<close>.
\<close>

record ('c, 'e) cluster_call =
  cc_server :: nat
  cc_metadata :: metadata
  cc_store1 :: "'c Store"
  cc_store2 :: "'c Store"
  cc_store3 :: "'c Store"
  cc_now :: time
  cc_reading1 :: "'e reading"
  cc_reading2 :: "'e reading"
  cc_request :: "AcquireQuotaRequest option"

type_synonym 'e cluster_answer = "('e rpc_error + AcquireQuotaResponse) \<times> AcquireQuotaRequest option"

definition cluster_acquire ::
    "(rat \<Rightarrow> rat) \<Rightarrow> (string fset \<Rightarrow> string list) \<Rightarrow> ('c, 'e) cluster_call \<Rightarrow> Server list \<Rightarrow>
     'e cluster_answer \<times> Server list" where
  "cluster_acquire mlog ord c ss =
     (case AcquireQuota mlog ord (cc_metadata c) (cc_store1 c) (cc_store2 c) (cc_store3 c) (cc_now c)
             (cc_reading1 c) (cc_reading2 c) (cc_request c) (ss ! cc_server c) of
        (res, request, s) \<Rightarrow> ((res, request), ss[cc_server c := s]))"

fun cluster_all ::
    "(rat \<Rightarrow> rat) \<Rightarrow> (string fset \<Rightarrow> string list) \<Rightarrow> ('c, 'e) cluster_call list \<Rightarrow> Server list \<Rightarrow>
     'e cluster_answer list \<times> Server list" where
  "cluster_all mlog ord [] ss = ([], ss)"
| "cluster_all mlog ord (c # cs) ss =
     (case cluster_acquire mlog ord c ss of
        (one, ss') \<Rightarrow>
          (case cluster_all mlog ord cs ss' of (answers, ss'') \<Rightarrow> (one # answers, ss'')))"

text \<open>Every call reaches an instance, which reads the topology \<open>t\<close> when it checks the owner.\<close>

fun all_read ::
    "(rat \<Rightarrow> rat) \<Rightarrow> (string fset \<Rightarrow> string list) \<Rightarrow> Topology \<Rightarrow> ('c, 'e) cluster_call list \<Rightarrow>
     Server list \<Rightarrow> bool" where
  "all_read mlog ord t [] ss \<longleftrightarrow> True"
| "all_read mlog ord t (c # cs) ss \<longleftrightarrow>
     cc_server c < length ss \<and>
     fst (Current ord (cc_reading1 c) (srv_topology (ss ! cc_server c))) = Inr t \<and>
     all_read mlog ord t cs (snd (cluster_acquire mlog ord c ss))"

text \<open>What the answers grant to one quota key of one rule of one application.\<close>

definition asks_for :: "string \<Rightarrow> string \<Rightarrow> string \<Rightarrow> AcquireQuotaRequest option \<Rightarrow> bool" where
  "asks_for app rule key request \<longleftrightarrow>
     Req_GetApplicationCode request = app \<and> Req_GetRuleId request = rule \<and> Req_GetQuotaKey request = key"

definition granted :: "string \<Rightarrow> string \<Rightarrow> string \<Rightarrow> 'e cluster_answer \<Rightarrow> int" where
  "granted app rule key one =
     (case one of
        (Inr response, request) \<Rightarrow>
          (if asks_for app rule key request \<and> Res_Decision response = QUOTA_DECISION_ALLOWED
           then sint (Req_GetCost request) else 0)
      | (Inl _, _) \<Rightarrow> 0)"

definition total_granted :: "string \<Rightarrow> string \<Rightarrow> string \<Rightarrow> 'e cluster_answer list \<Rightarrow> int" where
  "total_granted app rule key answers = sum_list (map (granted app rule key) answers)"

definition triple_key :: "string \<Rightarrow> string \<Rightarrow> string \<Rightarrow> string" where
  "triple_key app rule key = app @ '':'' @ rule @ '':'' @ key"

definition engine_call :: "('c, 'e) cluster_call \<Rightarrow> 'c call" where
  "engine_call c = (cc_store2 c, cc_store3 c, cc_now c, cc_request c)"

subsection \<open>One call\<close>

lemma validateOwner_instance:
  "validateOwner mlog ord rd request s = (a, s') \<Longrightarrow> srv_instanceID s' = srv_instanceID s"
  by (auto simp: validateOwner_def Let_def decorateTopology_frame split: if_splits prod.splits sum.splits)

lemma AcquireQuota_instance:
  assumes "AcquireQuota mlog ord md st1 st2 st3 now rd rd' request s = (res, request', s')"
  shows "srv_instanceID s' = srv_instanceID s"
proof -
  obtain r1 s1 where d1: "decorateTopology mlog ord rd request (Validate (srv_quota s) st1 request) s = (r1, s1)"
    by fastforce
  obtain a s2 where v: "validateOwner mlog ord rd request s = (a, s2)" by fastforce
  obtain q r e where acq: "Acquire st2 st3 now request (srv_quota s2) = (q, r, e)"
    by (cases "Acquire st2 st3 now request (srv_quota s2)")
  obtain r2 s3 where d2: "decorateTopology mlog ord rd' q r (s2\<lparr>srv_quota := e\<rparr>) = (r2, s3)"
    by fastforce
  have ids: "srv_instanceID s1 = srv_instanceID s" "srv_instanceID s2 = srv_instanceID s"
    "srv_instanceID s3 = srv_instanceID s2"
    using decorateTopology_frame(3) [OF d1] validateOwner_instance [OF v] decorateTopology_frame(3) [OF d2]
    by simp_all
  have "s' \<in> {s, s1, s2, s3}"
    using assms unfolding AcquireQuota_def Let_def d1 v
    by (cases a) (simp_all add: acq d2 split: option.splits if_splits)
  with ids show ?thesis by auto
qed

lemma asks_for_key: "asks_for app rule key request \<Longrightarrow> bucket_key request = triple_key app rule key"
  by (simp add: asks_for_def bucket_key_def triple_key_def)

lemma asks_for_shard: "asks_for app rule key request \<Longrightarrow> request_shard request = ShardKey app rule key"
  by (simp add: asks_for_def request_shard_def)

lemma asks_for_default_cost [simp]: "asks_for app rule key (with_default_cost request) = asks_for app rule key request"
  by (cases request) (simp_all add: asks_for_def with_default_cost_def)

lemma Acquire_asks_for:
  assumes "Acquire st st' now request e = (request', res, e')"
  shows "asks_for app rule key request' = asks_for app rule key request"
  using assms by (cases rule: Acquire_cases) simp_all

text \<open>
  A call either leaves the engine and grants nothing, or it is a call of the engine on the
  instance that owns the shard, and grants to the key no more than it takes from its bucket.
\<close>

lemma AcquireQuota_engine:
  assumes "AcquireQuota mlog ord md st1 st2 st3 now rd rd' request s = (res, request', s')"
    and "fst (Current ord rd (srv_topology s)) = Inr t"
  obtains (kept) "srv_quota s' = srv_quota s" "granted app rule key (res, request') = 0"
    | (called) owner response e where
      "Topology_OwnerOf mlog t (request_shard request) = (owner, True)" "inst_InstanceID owner = srv_instanceID s"
      "Acquire st2 st3 now request (srv_quota s) = (request', response, e)" "srv_quota s' = e"
      "granted app rule key (res, request') \<le> taken (triple_key app rule key) request' response"
      "\<not> asks_for app rule key request \<Longrightarrow> granted app rule key (res, request') = 0"
  using assms(1)
proof (cases rule: AcquireQuota_cases)
  case (unauthorized msg)
  then show thesis by (intro kept) (simp_all add: granted_def)
next
  case (answered response)
  then show thesis by (intro kept) (simp_all add: granted_def)
next
  case (acquired response0 response e)
  obtain owner where owner: "Topology_OwnerOf mlog t (request_shard request) = (owner, True)"
    "inst_InstanceID owner = srv_instanceID s"
    using acquired(3) assms(2) by (auto simp: owns_def OwnerOf_Current prod_eq_iff)
  have "0 \<le> taken (triple_key app rule key) request' response0"
    using acquired(4)
  proof (cases rule: Acquire_cases)
    case rejected
    then show ?thesis using Validate_not_allowed [of "srv_quota s" st2 request] by (simp add: taken_def)
  next
    case locked
    then show ?thesis by (simp add: taken_def word_sless_alt)
  qed
  then have "granted app rule key (res, request') \<le> taken (triple_key app rule key) request' response0"
    using acquired(5,6) asks_for_key by (auto simp: granted_def taken_def)
  moreover have "\<not> asks_for app rule key request \<Longrightarrow> granted app rule key (res, request') = 0"
    using acquired(5) Acquire_asks_for [OF acquired(4)] by (simp add: granted_def)
  ultimately show thesis using called [OF owner acquired(4,7)] by blast
qed

subsection \<open>A run\<close>

text \<open>
  The part of a run that the engine of the owning instance sees is a run of that engine, and
  what the cluster grants to the key is granted there.
\<close>

lemma cluster_owner_run:
  assumes "cluster_all mlog ord cs ss = (answers, ss')" and "all_read mlog ord t cs ss"
    and "distinct (map srv_instanceID ss)" and "i < length ss"
    and "Topology_OwnerOf mlog t (ShardKey app rule key) = (owner, True)"
    and "inst_InstanceID owner = srv_instanceID (ss ! i)"
  shows "\<exists>calls taken_answers. acquire_all calls (srv_quota (ss ! i)) = (taken_answers, srv_quota (ss' ! i)) \<and>
    set calls \<subseteq> engine_call ` set cs \<and>
    total_granted app rule key answers \<le> total_taken (triple_key app rule key) taken_answers"
  using assms(1-4,6)
proof (induction cs arbitrary: ss answers)
  case Nil
  then show ?case by (intro exI [of _ "[]"]) (simp add: total_granted_def)
next
  case (Cons c cs)
  let ?j = "cc_server c" and ?K = "triple_key app rule key"
  obtain res request' s where acq: "AcquireQuota mlog ord (cc_metadata c) (cc_store1 c) (cc_store2 c) (cc_store3 c)
      (cc_now c) (cc_reading1 c) (cc_reading2 c) (cc_request c) (ss ! ?j) = (res, request', s)"
    by (metis prod_cases3)
  let ?ss = "ss[?j := s]"
  have one: "cluster_acquire mlog ord c ss = ((res, request'), ?ss)" by (simp add: cluster_acquire_def acq)
  obtain rest where rest: "cluster_all mlog ord cs ?ss = (rest, ss')" "answers = (res, request') # rest"
    using Cons.prems(1) one by (auto split: prod.splits)
  have read: "?j < length ss" "fst (Current ord (cc_reading1 c) (srv_topology (ss ! ?j))) = Inr t"
    "all_read mlog ord t cs ?ss"
    using Cons.prems(2) one by simp_all
  have ids: "map srv_instanceID ?ss = map srv_instanceID ss"
    using AcquireQuota_instance [OF acq] read(1) by (simp add: map_update list_update_same_conv)
  then have id: "srv_instanceID (?ss ! i) = srv_instanceID (ss ! i)"
    using Cons.prems(4) by (metis length_list_update nth_map)
  from Cons.IH [OF rest(1) read(3)] ids Cons.prems(3-5) id obtain calls eanswers where
    run: "acquire_all calls (srv_quota (?ss ! i)) = (eanswers, srv_quota (ss' ! i))"
      "set calls \<subseteq> engine_call ` set cs" "total_granted app rule key rest \<le> total_taken ?K eanswers"
    by (auto simp del: map_update)
  have total: "total_granted app rule key answers = granted app rule key (res, request') + total_granted app rule key rest"
    using rest(2) by (simp add: total_granted_def)
  from acq read(2) show ?case
  proof (cases rule: AcquireQuota_engine [where app = app and rule = rule and key = key])
    case kept
    then have "srv_quota (?ss ! i) = srv_quota (ss ! i)" using read(1) by (cases "?j = i") simp_all
    with kept(2) run total show ?thesis by (intro exI [of _ calls] exI [of _ eanswers]) auto
  next
    case (called owner' response e)
    show ?thesis
    proof (cases "?j = i")
      case True
      then have "acquire_all (engine_call c # calls) (srv_quota (ss ! i)) =
          ((request', response) # eanswers, srv_quota (ss' ! i))"
        using called(3,4) run(1) Cons.prems(4) by (simp add: engine_call_def)
      then show ?thesis
        using run total called(5)
        by (intro exI [of _ "engine_call c # calls"] exI [of _ "(request', response) # eanswers"]) auto
    next
      case False
      then have "srv_instanceID (ss ! ?j) \<noteq> srv_instanceID (ss ! i)"
        using Cons.prems(3,4) read(1) by (metis distinct_map inj_on_def length_map nth_eq_iff_index_eq nth_map)
      then have "\<not> asks_for app rule key (cc_request c)"
        using called(1,2) assms(5) Cons.prems(5) asks_for_shard by fastforce
      with called(6) False run total show ?thesis
        by (intro exI [of _ calls] exI [of _ eanswers]) auto
    qed
  qed
qed

text \<open>Without an instance that owns the shard nothing is granted.\<close>

lemma cluster_without_owner:
  assumes "cluster_all mlog ord cs ss = (answers, ss')" and "all_read mlog ord t cs ss"
    and "\<And>owner. Topology_OwnerOf mlog t (ShardKey app rule key) = (owner, True) \<Longrightarrow>
      inst_InstanceID owner \<notin> set (map srv_instanceID ss)"
  shows "total_granted app rule key answers = 0"
  using assms
proof (induction cs arbitrary: ss answers)
  case Nil
  then show ?case by (simp add: total_granted_def)
next
  case (Cons c cs)
  let ?j = "cc_server c"
  obtain res request' s where acq: "AcquireQuota mlog ord (cc_metadata c) (cc_store1 c) (cc_store2 c) (cc_store3 c)
      (cc_now c) (cc_reading1 c) (cc_reading2 c) (cc_request c) (ss ! ?j) = (res, request', s)"
    by (metis prod_cases3)
  let ?ss = "ss[?j := s]"
  have one: "cluster_acquire mlog ord c ss = ((res, request'), ?ss)" by (simp add: cluster_acquire_def acq)
  obtain rest where rest: "cluster_all mlog ord cs ?ss = (rest, ss')" "answers = (res, request') # rest"
    using Cons.prems(1) one by (auto split: prod.splits)
  have read: "?j < length ss" "fst (Current ord (cc_reading1 c) (srv_topology (ss ! ?j))) = Inr t"
    "all_read mlog ord t cs ?ss"
    using Cons.prems(2) one by simp_all
  have ids: "map srv_instanceID ?ss = map srv_instanceID ss"
    using AcquireQuota_instance [OF acq] read(1) by (simp add: map_update list_update_same_conv)
  have "granted app rule key (res, request') = 0"
    using acq read(2)
  proof (cases rule: AcquireQuota_engine [where app = app and rule = rule and key = key])
    case (called owner' response e)
    have "asks_for app rule key (cc_request c) \<Longrightarrow> False"
      using called(1,2) Cons.prems(3) [of owner'] asks_for_shard [of app rule key "cc_request c"] read(1) by simp
    then show ?thesis using called(6) by blast
  qed
  moreover have "total_granted app rule key rest = 0"
    by (rule Cons.IH [OF rest(1) read(3)]) (metis Cons.prems(3) ids)
  ultimately show ?case using rest(2) by (simp add: total_granted_def)
qed

text \<open>C2: what the whole cluster grants to one quota key within one window length, over calls in
  any order on any of its instances that agree on the topology, is at most the quota of the
  rule and what was left in the key's bucket of any one instance.\<close>

theorem cluster_quota_bound:
  assumes "cluster_all mlog ord cs ss = (answers, ss')" and "all_read mlog ord t cs ss"
    and "distinct (map srv_instanceID ss)" and "0 \<le> q" and "0 \<le> left"
    and "\<forall>s \<in> set ss. engine_limits (srv_quota s) \<and>
      0 \<le> bucket_rest (triple_key app rule key) (srv_quota s) \<and>
      bucket_rest (triple_key app rule key) (srv_quota s) \<le> left"
    and "\<forall>c \<in> set cs. t0 \<le> cc_now c \<and> cc_now c < t0 + w \<and>
      (bucket_key (cc_request c) = triple_key app rule key \<longrightarrow> rule_bounded q w (call_rule (engine_call c)))"
  shows "total_granted app rule key answers \<le> left + q"
proof (cases "\<exists>owner. Topology_OwnerOf mlog t (ShardKey app rule key) = (owner, True) \<and>
    inst_InstanceID owner \<in> set (map srv_instanceID ss)")
  case False
  then have "total_granted app rule key answers = 0"
    by (intro cluster_without_owner [OF assms(1,2)]) blast
  then show ?thesis using assms(4,5) by simp
next
  case True
  then obtain owner i where owner: "Topology_OwnerOf mlog t (ShardKey app rule key) = (owner, True)"
    "i < length ss" "inst_InstanceID owner = srv_instanceID (ss ! i)"
    by (auto simp: in_set_conv_nth)
  obtain calls eanswers where
    run: "acquire_all calls (srv_quota (ss ! i)) = (eanswers, srv_quota (ss' ! i))" and
    calls: "set calls \<subseteq> engine_call ` set cs" and
    total: "total_granted app rule key answers \<le> total_taken (triple_key app rule key) eanswers"
    using cluster_owner_run [OF assms(1-3) owner(2,1,3)] by blast
  have "\<forall>c \<in> set calls. t0 \<le> call_time c \<and> call_time c < t0 + w \<and>
      (call_key c = triple_key app rule key \<longrightarrow> rule_bounded q w (call_rule c))"
    using calls assms(7) by (fastforce simp: engine_call_def call_time_def call_key_def)
  moreover have s: "ss ! i \<in> set ss" using owner(2) by simp
  ultimately have "total_taken (triple_key app rule key) eanswers \<le>
      bucket_rest (triple_key app rule key) (srv_quota (ss ! i)) + q"
    using acquire_all_bound [OF run] assms(4,6) by (simp add: engine_limits_def)
  with total assms(6) s show ?thesis by fastforce
qed

text \<open>Two instances; the first owns every shard, and both are asked for the same key.\<close>

definition sample_cluster :: "Server list" where
  "sample_cluster = [sample_server [], (sample_server [])\<lparr>srv_instanceID := ''b''\<rparr>]"

definition sample_cluster_call :: "nat \<Rightarrow> (unit, string) cluster_call" where
  "sample_cluster_call n =
     \<lparr>cc_server = n, cc_metadata = None, cc_store1 = sample_store (sample_rule 3 60),
      cc_store2 = sample_store (sample_rule 3 60), cc_store3 = sample_store (sample_rule 3 60),
      cc_now = 20, cc_reading1 = sample_reading 50 (Inl ''down''),
      cc_reading2 = sample_reading 50 (Inl ''down''), cc_request = Some owner_request\<rparr>"

lemma cluster_quota_bound_witness:
  "total_granted ''shop'' ''r'' ''a''
     (fst (cluster_all toy_log sample_ord [sample_cluster_call 1, sample_cluster_call 0] sample_cluster)) \<le> 0 + 3"
proof -
  let ?cs = "[sample_cluster_call 1, sample_cluster_call 0]"
  let ?run = "cluster_all toy_log sample_ord ?cs sample_cluster"
  have cur: "fst (Current sample_ord (sample_reading 50 (Inl ''down'' :: string + Instance list))
      (srv_topology (sample_server []))) = Inr one_instance"
    by (simp add: Current_def sample_server_def sample_reading_def Before_def one_instance_def
        Build_revision_nonempty)
  have read: "all_read toy_log sample_ord one_instance ?cs sample_cluster"
    using cur by (simp add: sample_cluster_call_def sample_cluster_def cluster_acquire_def split: prod.split)
  have ids: "distinct (map srv_instanceID sample_cluster)"
    by (simp add: sample_cluster_def sample_server_def)
  have "engine_limits sample_engine"
    unfolding sample_engine_def by (rule NewEngine_limits)
  moreover have "bucket_rest k sample_engine = 0" for k
    by (simp add: bucket_rest_def sample_engine_def NewEngine_def)
  ultimately have engines: "\<forall>s \<in> set sample_cluster. engine_limits (srv_quota s) \<and>
      0 \<le> bucket_rest (triple_key ''shop'' ''r'' ''a'') (srv_quota s) \<and>
      bucket_rest (triple_key ''shop'' ''r'' ''a'') (srv_quota s) \<le> 0"
    by (simp add: sample_cluster_def sample_server_def)
  have find: "FindRule (sample_store (sample_rule 3 60)) (Req_GetApplicationCode (Some owner_request))
      (Req_GetRuleId (Some owner_request)) = (sample_rule 3 60, True)"
    by (simp add: sample_find owner_request_def sample_request_def Req_GetApplicationCode_def Req_GetRuleId_def)
  have "rule_bounded 3 60 (sample_rule 3 60)"
    using seconds_duration [of 60] by (simp add: rule_bounded_def sample_rule_def)
  then have calls: "\<forall>c \<in> set ?cs. 0 \<le> cc_now c \<and> cc_now c < 0 + 60 \<and>
      (bucket_key (cc_request c) = triple_key ''shop'' ''r'' ''a'' \<longrightarrow> rule_bounded 3 60 (call_rule (engine_call c)))"
    using find by (simp add: sample_cluster_call_def engine_call_def call_rule_def)
  have "?run = (fst ?run, snd ?run)" by simp
  from cluster_quota_bound [OF this read ids _ _ engines calls] show ?thesis by simp
qed

end
