(* ===== verification/ConfigLoad.thy ===== *)
theory ConfigLoad
  imports Config GoTimeText
begin

text \<open>
  Loading the configuration in \<open>internal/config/config.go\<close>: each value comes from the
  environment, else from the configuration file, else from a default. The environment, the
  file system and the YAML decoder are arguments, and so is the configuration of the Stellar
  framework, of which \<open>Load\<close> reads the fields of \<open>StellarConfig\<close> after its \<open>Normalize\<close>.
\<close>

subsection \<open>The file\<close>

record fileRulesConfig =
  fr_SnapshotPageSize :: int64
  fr_WatchReconnectDelay :: string
  fr_WatchResyncInterval :: string
  fr_DeltaFetchTimeout :: string
  fr_FullSyncMaxRetries :: int64
  fr_WatchEventBuffer :: int64
  fr_ServerLagRetryAfter :: string
  fr_BucketGCInterval :: string
  fr_ExpiredBucketGrace :: string
  fr_MaxBuckets :: int64
  fr_CompatiblePrevRevision :: string
  fr_SessionHeartbeatInterval :: string
  fr_AllowEmptyStartup :: "bool option"

record fileConfig =
  fi_Priority :: int32
  fi_Weight :: int32
  fo_RuntimeEndpoint :: string
  fo_HTTPTimeout :: string
  fo_AuthToken :: string
  fc_Rules :: fileRulesConfig
  fg_ClientName :: string
  fob_TopologyMetrics :: "bool option"
  fs_AuthToken :: string

definition zero_fileConfig :: fileConfig where
  "zero_fileConfig =
     \<lparr>fi_Priority = 0, fi_Weight = 0, fo_RuntimeEndpoint = [], fo_HTTPTimeout = [], fo_AuthToken = [],
      fc_Rules =
        \<lparr>fr_SnapshotPageSize = 0, fr_WatchReconnectDelay = [], fr_WatchResyncInterval = [],
         fr_DeltaFetchTimeout = [], fr_FullSyncMaxRetries = 0, fr_WatchEventBuffer = 0,
         fr_ServerLagRetryAfter = [], fr_BucketGCInterval = [], fr_ExpiredBucketGrace = [],
         fr_MaxBuckets = 0, fr_CompatiblePrevRevision = [], fr_SessionHeartbeatInterval = [],
         fr_AllowEmptyStartup = None\<rparr>,
      fg_ClientName = [], fob_TopologyMetrics = None, fs_AuthToken = []\<rparr>"

text \<open>\<open>filepath.Join\<close> of a directory and a name, and the \<open>filepath.Clean\<close> it applies.\<close>

function split_slash :: "string \<Rightarrow> string list" where
  "split_slash s =
     (case dropWhile (\<lambda>c. c \<noteq> CHR ''/'') s of
        [] \<Rightarrow> [s]
      | _ # t \<Rightarrow> takeWhile (\<lambda>c. c \<noteq> CHR ''/'') s # split_slash t)"
  by pat_completeness auto
termination
proof (relation "measure length")
  fix s t :: string and c
  assume "dropWhile (\<lambda>c. c \<noteq> CHR ''/'') s = c # t"
  then show "(t, s) \<in> measure length"
    using length_dropWhile_le [of "\<lambda>c. c \<noteq> CHR ''/''" s] by simp
qed simp

declare split_slash.simps [simp del]

fun clean_elements :: "bool \<Rightarrow> string list \<Rightarrow> string list \<Rightarrow> string list" where
  "clean_elements rooted acc [] = rev acc"
| "clean_elements rooted acc (x # xs) =
     (if x = [] \<or> x = ''.'' then clean_elements rooted acc xs
      else if x = ''..'' then
        (case acc of
           [] \<Rightarrow> clean_elements rooted (if rooted then [] else [''..'']) xs
         | y # ys \<Rightarrow> clean_elements rooted (if y = ''..'' then ''..'' # acc else ys) xs)
      else clean_elements rooted (x # acc) xs)"

fun join_slash :: "string list \<Rightarrow> string" where
  "join_slash [] = []"
| "join_slash [x] = x"
| "join_slash (x # xs) = x @ ''/'' @ join_slash xs"

definition Clean :: "string \<Rightarrow> string" where
  "Clean path =
     (let rooted = (path \<noteq> [] \<and> hd path = CHR ''/'');
          body = join_slash (clean_elements rooted [] (split_slash path)) in
      if rooted then ''/'' @ body else if body = [] then ''.'' else body)"

definition Join :: "string \<Rightarrow> string \<Rightarrow> string" where
  "Join dir name = (if dir = [] then Clean name else Clean (dir @ ''/'' @ name))"

text \<open>
  \<open>filepath.Dir\<close>, and the directory of the source file that has \<open>main.main\<close>, by the frames of
  the call stack: the function and the file of each.
\<close>

definition Dir :: "string \<Rightarrow> string" where
  "Dir path = Clean (rev (dropWhile (\<lambda>c. c \<noteq> CHR ''/'') (rev path)))"

definition mainSourceDir :: "(string \<times> string) list \<Rightarrow> string" where
  "mainSourceDir frames =
     (case find (\<lambda>(function, file). function = ''main.main'' \<and> file \<noteq> []) frames of
        Some (_, file) \<Rightarrow> Dir file
      | None \<Rightarrow> [])"

text \<open>A path that was seen is not listed again.\<close>

definition add_path :: "string \<Rightarrow> string list \<Rightarrow> string list" where
  "add_path path paths = (if path \<in> set paths then paths else paths @ [path])"

definition configPathsInDirs :: "string list \<Rightarrow> string list" where
  "configPathsInDirs dirs =
     (let names = [''application.yml'', ''application.yaml''];
          paths = fold (\<lambda>dir paths.
            if TrimSpace dir = [] then paths
            else fold (\<lambda>name. add_path (Join dir name)) names paths) dirs [] in
      if paths = [] then names else paths)"

definition candidateConfigPaths ::
    "(string \<Rightarrow> string) \<Rightarrow> (string \<times> string) list \<Rightarrow> string option \<Rightarrow> string list" where
  "candidateConfigPaths getenv frames cwd =
     (case filter (\<lambda>value. value \<noteq> [])
             (map (\<lambda>key. TrimSpace (getenv key))
                [''STELLAR_CONFIG_FILE'', ''STELLAR_CONFIG'', ''STELLAR_APPLICATION_CONFIG'']) of
        value # _ \<Rightarrow> [value]
      | [] \<Rightarrow>
          configPathsInDirs ((if mainSourceDir frames \<noteq> [] then [mainSourceDir frames] else []) @
            (case cwd of Some dir \<Rightarrow> [dir] | None \<Rightarrow> [])))"

fun first_readable :: "(string \<Rightarrow> string option) \<Rightarrow> (string \<Rightarrow> fileConfig option) \<Rightarrow> string list \<Rightarrow> fileConfig" where
  "first_readable read_file unmarshal [] = zero_fileConfig"
| "first_readable read_file unmarshal (path # paths) =
     (case Option.bind (read_file path) unmarshal of
        Some cfg \<Rightarrow> cfg
      | None \<Rightarrow> first_readable read_file unmarshal paths)"

definition loadFileConfig ::
    "(string \<Rightarrow> string) \<Rightarrow> (string \<times> string) list \<Rightarrow> string option \<Rightarrow> (string \<Rightarrow> string option) \<Rightarrow>
     (string \<Rightarrow> fileConfig option) \<Rightarrow> fileConfig" where
  "loadFileConfig getenv frames cwd read_file unmarshal =
     first_readable read_file unmarshal (candidateConfigPaths getenv frames cwd)"

subsection \<open>Durations\<close>

definition durationFromText :: "string \<Rightarrow> duration \<Rightarrow> duration" where
  "durationFromText value0 fallback =
     (let value = TrimSpace value0 in
      if value = [] then fallback
      else case ParseDuration value of
        Some parsed \<Rightarrow> parsed
      | None \<Rightarrow> (case Atoi value of Inl _ \<Rightarrow> fallback | Inr millis \<Rightarrow> millis * Millisecond))"

definition envDuration :: "(string \<Rightarrow> string) \<Rightarrow> string \<Rightarrow> duration \<Rightarrow> duration" where
  "envDuration getenv key fallback =
     (let value = TrimSpace (getenv key) in
      if value = [] then fallback else durationFromText value fallback)"

subsection \<open>Load\<close>

record ServiceEndpoint =
  ep_Name :: string
  ep_Protocol :: string
  ep_Host :: string
  ep_Port :: int64

record RegistryConfig =
  reg_Namespace :: string
  reg_Service :: string
  reg_InstanceID :: string
  reg_Zone :: string
  reg_ServiceEndpoints :: "ServiceEndpoint list"

record StellarConfig =
  st_AppName :: string
  st_Zone :: string
  st_Version :: string
  st_Registry :: "RegistryConfig option"

definition grpc_endpoint :: "ServiceEndpoint \<Rightarrow> bool" where
  "grpc_endpoint e \<longleftrightarrow> ep_Protocol e = ''grpc'' \<or> ep_Name e = ''grpc''"

text \<open>A value of the registry's configuration that is not blank, else the one before.\<close>

definition override :: "string \<Rightarrow> string \<Rightarrow> string" where
  "override value old = (if TrimSpace value \<noteq> [] then value else old)"

definition load_instance :: "StellarConfig \<Rightarrow> InstanceConfig" where
  "load_instance sc =
     (let base = \<lparr>ic_Namespace = ''default'', ic_Service = ''stellpulsar-service'',
            ic_ID = ''stellpulsar-local'', ic_Host = ''127.0.0.1'', ic_Port = 9090,
            ic_Priority = 0, ic_Weight = 0, ic_Zone = st_Zone sc, ic_Version = st_Version sc\<rparr>;
          c1 = (case st_Registry sc of
                  None \<Rightarrow> base
                | Some reg \<Rightarrow>
                    (let c = base\<lparr>ic_Namespace := override (reg_Namespace reg) (ic_Namespace base),
                           ic_Service := override (reg_Service reg) (ic_Service base),
                           ic_ID := override (reg_InstanceID reg) (ic_ID base),
                           ic_Zone := override (reg_Zone reg) (ic_Zone base)\<rparr> in
                     case filter grpc_endpoint (reg_ServiceEndpoints reg) of
                       [] \<Rightarrow> c
                     | e # _ \<Rightarrow>
                         c\<lparr>ic_Host := chooseString [ep_Host e, ic_Host c],
                           ic_Port := (if 0 <s ep_Port e then ucast (ep_Port e) else ic_Port c)\<rparr>));
          c2 = (if TrimSpace (st_AppName sc) \<noteq> [] \<and> ic_Service c1 = ''stellpulsar-service''
                then c1\<lparr>ic_Service := st_AppName sc\<rparr> else c1) in
      if TrimSpace (ic_Version c2) = [] then c2\<lparr>ic_Version := ''dev''\<rparr> else c2)"

definition load_rules :: "(string \<Rightarrow> string) \<Rightarrow> fileRulesConfig \<Rightarrow> RulesConfig" where
  "load_rules getenv f =
     \<lparr>rc_SnapshotPageSize =
        envInt getenv ''STELLPULSAR_RULES_SNAPSHOT_PAGE_SIZE'' (chooseInt (fr_SnapshotPageSize f) 100),
      rc_WatchReconnectDelay =
        envDuration getenv ''STELLPULSAR_RULES_WATCH_RECONNECT_DELAY''
          (durationFromText (fr_WatchReconnectDelay f) (500 * Millisecond)),
      rc_WatchResyncInterval =
        envDuration getenv ''STELLPULSAR_RULES_WATCH_RESYNC_INTERVAL''
          (durationFromText (fr_WatchResyncInterval f) (30 * Second)),
      rc_DeltaFetchTimeout =
        envDuration getenv ''STELLPULSAR_RULES_DELTA_FETCH_TIMEOUT''
          (durationFromText (fr_DeltaFetchTimeout f) (3 * Second)),
      rc_FullSyncMaxRetries =
        envInt getenv ''STELLPULSAR_RULES_FULL_SYNC_MAX_RETRIES'' (chooseInt (fr_FullSyncMaxRetries f) 3),
      rc_WatchEventBuffer =
        envInt getenv ''STELLPULSAR_RULES_WATCH_EVENT_BUFFER'' (chooseInt (fr_WatchEventBuffer f) 64),
      rc_ServerLagRetryAfter =
        envDuration getenv ''STELLPULSAR_RULES_SERVER_LAG_RETRY_AFTER''
          (durationFromText (fr_ServerLagRetryAfter f) (50 * Millisecond)),
      rc_BucketGCInterval =
        envDuration getenv ''STELLPULSAR_RULES_BUCKET_GC_INTERVAL''
          (durationFromText (fr_BucketGCInterval f) (30 * Second)),
      rc_ExpiredBucketGrace =
        envDuration getenv ''STELLPULSAR_RULES_EXPIRED_BUCKET_GRACE''
          (durationFromText (fr_ExpiredBucketGrace f) (2 * Minute)),
      rc_MaxBuckets =
        envInt getenv ''STELLPULSAR_RULES_MAX_BUCKETS'' (chooseInt (fr_MaxBuckets f) 1000000),
      rc_CompatiblePrevRevision =
        envDuration getenv ''STELLPULSAR_RULES_COMPATIBLE_PREVIOUS_REVISION''
          (durationFromText (fr_CompatiblePrevRevision f) (5 * Second)),
      rc_SessionHeartbeatInterval =
        envDuration getenv ''STELLPULSAR_SESSION_HEARTBEAT_INTERVAL''
          (durationFromText (fr_SessionHeartbeatInterval f) (10 * Second)),
      rc_AllowEmptyStartup =
        envBool getenv ''STELLPULSAR_RULES_ALLOW_EMPTY_STARTUP''
          (case fr_AllowEmptyStartup f of None \<Rightarrow> True | Some b \<Rightarrow> b)\<rparr>"

definition Load :: "(string \<Rightarrow> string) \<Rightarrow> StellarConfig \<Rightarrow> fileConfig \<Rightarrow> ServiceConfig" where
  "Load getenv sc f =
     \<lparr>sc_Instance = (load_instance sc)
        \<lparr>ic_Priority := ucast (envInt getenv ''STELLPULSAR_INSTANCE_PRIORITY''
             (scast (chooseInt32 (fi_Priority f) 100))),
         ic_Weight := ucast (envInt getenv ''STELLPULSAR_INSTANCE_WEIGHT''
             (scast (chooseInt32 (fi_Weight f) 100)))\<rparr>,
      sc_StellOrbit =
        \<lparr>so_RuntimeEndpoint =
           envString getenv ''STELLPULSAR_STELLORBIT_RUNTIME_ENDPOINT'' (fo_RuntimeEndpoint f),
         so_HTTPTimeout =
           envDuration getenv ''STELLPULSAR_STELLORBIT_HTTP_TIMEOUT''
             (durationFromText (fo_HTTPTimeout f) (5 * Second)),
         so_AuthToken = envString getenv ''STELLPULSAR_STELLORBIT_AUTH_TOKEN'' (fo_AuthToken f)\<rparr>,
      sc_Rules = load_rules getenv (fc_Rules f),
      sc_GRPC_ClientName = envString getenv ''STELLPULSAR_GRPC_CLIENT_NAME'' (fg_ClientName f),
      sc_Observability_TopologyMetrics =
        envBool getenv ''STELLPULSAR_OBSERVABILITY_TOPOLOGY_METRICS''
          (case fob_TopologyMetrics f of None \<Rightarrow> True | Some b \<Rightarrow> b),
      sc_Security_AuthToken =
        envString getenv ''STELLPULSAR_SECURITY_AUTH_TOKEN'' (fs_AuthToken f)\<rparr>"

end
