(* ===== verification/ConfigProperties.thy ===== *)
theory ConfigProperties
  imports ConfigLoad
begin

text \<open>
  The properties of loading the configuration: what a duration written as a plain number
  means, the values without any configuration, which source of a value wins, and what the
  conversion to 32 bits does to the instance's priority and weight.
\<close>

subsection \<open>Durations that are plain numbers\<close>

lemma leadingInt_digits:
  "\<forall>c \<in> set s. is_digit c \<Longrightarrow> leadingInt x s = None \<or> (\<exists>v. leadingInt x s = Some (v, []))"
  by (induction x s rule: leadingInt.induct) auto

lemma duration_items_digits:
  assumes "\<forall>c \<in> set s. is_digit c" and "s \<noteq> []"
  shows "duration_items 0 s = None"
proof -
  have "duration_item s = None"
    using leadingInt_digits [OF assms(1), of 0] assms(2)
    by (auto simp: duration_item_def fraction_part_def)
  then show ?thesis using assms(2) by (simp add: duration_items.simps [of 0 s])
qed

lemma FormatInt_zero: "FormatInt 0 = ''0''"
proof -
  have "digit_char 0 = CHR ''0''" by code_simp
  then show ?thesis by (simp add: FormatInt_def format_int_def dec_digits.simps)
qed

lemma FormatInt_parts:
  "\<exists>ds. ds \<noteq> [] \<and> (\<forall>c \<in> set ds. is_digit c) \<and> (FormatInt w = ds \<or> FormatInt w = CHR ''-'' # ds)"
  using dec_digits_are_digits
  by (intro exI [of _ "dec_digits (nat \<bar>sint w\<bar>)"]) (auto simp: FormatInt_def format_int_def)

lemma ParseDuration_FormatInt:
  assumes "w \<noteq> 0"
  shows "ParseDuration (FormatInt w) = None"
proof -
  obtain ds where ds: "ds \<noteq> []" "\<forall>c \<in> set ds. is_digit c"
    and f: "FormatInt w = ds \<or> FormatInt w = CHR ''-'' # ds"
    using FormatInt_parts by blast
  obtain d rest where d: "ds = d # rest" "is_digit d" using ds by (cases ds) auto
  then have sign: "d \<noteq> CHR ''-''" "d \<noteq> CHR ''+''" using sign_not_digit by auto
  have "FormatInt w \<noteq> ''0''" using assms FormatInt_zero FormatInt_inject by metis
  moreover have "FormatInt w \<noteq> ''-0''"
  proof
    assume "FormatInt w = ''-0''"
    moreover have "ParseInt ''-0'' = (0, None)"
      by (simp add: ParseInt_def parse_int_def parse_int_unsigned_def parse_uint_def is_digit_def digit_val_def)
    ultimately show False using ParseInt_FormatInt [of w] assms by simp
  qed
  ultimately show ?thesis
    using f d(1) sign duration_items_digits [OF ds(2,1)]
    by (auto simp: ParseDuration_def Let_def)
qed

text \<open>A duration of the configuration that is a plain number counts milliseconds, in 64 bits
  that wrap around.\<close>

theorem plain_number_is_milliseconds:
  "durationFromText (FormatInt n) fallback = n * Millisecond"
proof (cases "n = 0")
  case True
  have "ParseDuration (FormatInt 0) = Some 0" by (simp add: FormatInt_zero ParseDuration_def)
  with True show ?thesis by (simp add: durationFromText_def)
next
  case False
  then show ?thesis
    by (simp add: durationFromText_def ParseDuration_FormatInt Atoi_def ParseInt_FormatInt)
qed

subsection \<open>Which source wins\<close>

definition no_environment :: "string \<Rightarrow> string" where
  "no_environment key = []"

text \<open>Without an environment and a file the service runs with the documented defaults.\<close>

theorem Load_defaults:
  assumes "\<And>key. TrimSpace (getenv key) = []"
  shows "sc_Rules (Load getenv sc zero_fileConfig) =
      \<lparr>rc_SnapshotPageSize = 100, rc_WatchReconnectDelay = 500 * Millisecond,
       rc_WatchResyncInterval = 30 * Second, rc_DeltaFetchTimeout = 3 * Second,
       rc_FullSyncMaxRetries = 3, rc_WatchEventBuffer = 64,
       rc_ServerLagRetryAfter = 50 * Millisecond, rc_BucketGCInterval = 30 * Second,
       rc_ExpiredBucketGrace = 2 * Minute, rc_MaxBuckets = 1000000,
       rc_CompatiblePrevRevision = 5 * Second, rc_SessionHeartbeatInterval = 10 * Second,
       rc_AllowEmptyStartup = True\<rparr> \<and>
    so_RuntimeEndpoint (sc_StellOrbit (Load getenv sc zero_fileConfig)) = [] \<and>
    so_HTTPTimeout (sc_StellOrbit (Load getenv sc zero_fileConfig)) = 5 * Second \<and>
    ic_Priority (sc_Instance (Load getenv sc zero_fileConfig)) = 100 \<and>
    ic_Weight (sc_Instance (Load getenv sc zero_fileConfig)) = 100 \<and>
    sc_Observability_TopologyMetrics (Load getenv sc zero_fileConfig) \<and>
    sc_Security_AuthToken (Load getenv sc zero_fileConfig) = []"
  using assms
  by (simp add: Load_def load_rules_def zero_fileConfig_def envInt_def envDuration_def envString_def
      envBool_def durationFromText_def chooseInt_def chooseInt32_def)

text \<open>The environment wins over the file and the file over the default, for a number and for
  a duration alike; an environment value that is no number leaves the others in force.\<close>

theorem environment_over_file_over_default:
  "rc_MaxBuckets (sc_Rules (Load getenv sc f)) =
     (case Atoi (TrimSpace (getenv ''STELLPULSAR_RULES_MAX_BUCKETS'')) of
        Inr n \<Rightarrow> n
      | Inl _ \<Rightarrow> if fr_MaxBuckets (fc_Rules f) \<noteq> 0 then fr_MaxBuckets (fc_Rules f) else 1000000)"
proof -
  have "\<exists>e. Atoi [] = Inl e" by (simp add: Atoi_def ParseInt_def parse_int_def parse_int_unsigned_def parse_uint_def)
  then show ?thesis
    by (auto simp: Load_def load_rules_def envInt_def chooseInt_def Let_def split: sum.split)
qed

subsection \<open>The files that are tried\<close>

lemma add_path_distinct: "distinct paths \<Longrightarrow> distinct (add_path path paths)"
  by (simp add: add_path_def)

lemma fold_distinct: "(\<And>x paths. distinct paths \<Longrightarrow> distinct (f x paths)) \<Longrightarrow> distinct paths \<Longrightarrow> distinct (fold f xs paths)"
  by (induction xs arbitrary: paths) auto

text \<open>No file is tried twice, there is always one to try, and a file that the environment
  names is the only one.\<close>

lemma candidate_paths:
  "distinct (candidateConfigPaths getenv frames cwd)" "candidateConfigPaths getenv frames cwd \<noteq> []"
  "TrimSpace (getenv ''STELLAR_CONFIG_FILE'') \<noteq> [] \<Longrightarrow>
   candidateConfigPaths getenv frames cwd = [TrimSpace (getenv ''STELLAR_CONFIG_FILE'')]"
proof -
  have dirs: "distinct (configPathsInDirs dirs) \<and> configPathsInDirs dirs \<noteq> []" for dirs
    using add_path_distinct by (auto simp: configPathsInDirs_def Let_def intro!: fold_distinct)
  then show "distinct (candidateConfigPaths getenv frames cwd)" "candidateConfigPaths getenv frames cwd \<noteq> []"
    unfolding candidateConfigPaths_def by (simp_all only: dirs split: list.split) simp_all
qed (simp add: candidateConfigPaths_def)

subsection \<open>The conversion to 32 bits\<close>

text \<open>C34: the instance's priority keeps the low 32 bits of what the environment gives, so it is
  the configured number exactly when that number fits; a larger one comes out as another.\<close>

theorem instance_priority_truncated:
  assumes "TrimSpace (getenv ''STELLPULSAR_INSTANCE_PRIORITY'') = FormatInt n"
  shows "ic_Priority (sc_Instance (Load getenv sc f)) = ucast n \<and>
    (sint (ic_Priority (sc_Instance (Load getenv sc f))) = sint n \<longleftrightarrow> - (2 ^ 31) \<le> sint n \<and> sint n < 2 ^ 31)"
proof -
  have p: "ic_Priority (sc_Instance (Load getenv sc f)) = ucast n"
    using assms by (simp add: Load_def envInt_def Atoi_def ParseInt_FormatInt)
  have "sint (ucast n :: int32) = signed_take_bit 31 (sint n)"
    by transfer (simp add: signed_take_bit_take_bit)
  then show ?thesis using p by (simp add: signed_take_bit_int_eq_self_iff)
qed

text \<open>A value that does not fit: the priority 2 ^ 32 + 1 comes out as 1.\<close>

definition large_priority :: int64 where "large_priority = 4294967297"

lemma instance_priority_truncated_witness:
  "ic_Priority (sc_Instance (Load (\<lambda>_. FormatInt large_priority)
     \<lparr>st_AppName = [], st_Zone = [], st_Version = [], st_Registry = None\<rparr> zero_fileConfig)) = 1"
  using instance_priority_truncated [of "\<lambda>_. FormatInt large_priority" large_priority]
  by (simp add: large_priority_def)

lemma Load_defaults_witness:
  "rc_MaxBuckets (sc_Rules (Load no_environment
     \<lparr>st_AppName = [], st_Zone = [], st_Version = [], st_Registry = None\<rparr> zero_fileConfig)) = 1000000"
  using Load_defaults [of no_environment "\<lparr>st_AppName = [], st_Zone = [], st_Version = [], st_Registry = None\<rparr>"]
  by (simp add: no_environment_def)

end
