(* ===== verification/GoTimeFormat.thy ===== *)
theory GoTimeFormat
  imports GoTimeText
begin

text \<open>
  Writing an instant as text: the date of an instant in UTC, and the layout \<open>RFC3339Nano\<close>,
  in which \<open>time.Time\<close> is marshalled into JSON. \<open>ParseRFC3339\<close> reads the text back as the
  same instant.
\<close>

subsection \<open>Dates\<close>

text \<open>
  Days counted from the first of March of a year that 400 divides fall into centuries, groups
  of four years and years, of which the last of its group has a day more.
\<close>

definition civil_from_days :: "int \<Rightarrow> int \<times> int \<times> int" where
  "civil_from_days z =
     (let era = (z + 719468) div 146097; doe = (z + 719468) mod 146097;
          c = doe div 36524 - doe div 36524 div 4; doc = doe - 36524 * c;
          q = doc div 1461; doq = doc - 1461 * q;
          yq = doq div 365 - doq div 365 div 4; doy = doq - 365 * yq;
          mp = (5 * doy + 2) div 153; m = (if mp < 10 then mp + 3 else mp - 9) in
      (era * 400 + c * 100 + q * 4 + yq + (if m \<le> 2 then 1 else 0), m,
       doy - (153 * mp + 2) div 5 + 1))"

lemma month_of_day:
  assumes "0 \<le> doy" and "doy \<le> (365 :: int)"
  defines "mp \<equiv> (5 * doy + 2) div 153"
  shows "0 \<le> mp" "mp \<le> 11" "1 \<le> doy - (153 * mp + 2) div 5 + 1"
    "doy - (153 * mp + 2) div 5 + 1 \<le> (if mp = 11 then 29 else if mp \<in> {1, 3, 6, 8} then 30 else 31)"
    "mp = 11 \<Longrightarrow> doy - (153 * mp + 2) div 5 + 1 = 29 \<longleftrightarrow> doy = 365"
proof -
  show b: "0 \<le> mp" "mp \<le> 11" using assms(1,2) by (simp_all add: mp_def)
  have q: "153 * mp \<le> 5 * doy + 2" "5 * doy + 2 < 153 * mp + 153"
    unfolding mp_def by presburger+
  have "mp = 0 \<or> mp = 1 \<or> mp = 2 \<or> mp = 3 \<or> mp = 4 \<or> mp = 5 \<or> mp = 6 \<or> mp = 7 \<or> mp = 8 \<or>
      mp = 9 \<or> mp = 10 \<or> mp = 11"
    using b by arith
  then show "1 \<le> doy - (153 * mp + 2) div 5 + 1"
    "doy - (153 * mp + 2) div 5 + 1 \<le> (if mp = 11 then 29 else if mp \<in> {1, 3, 6, 8} then 30 else 31)"
    "mp = 11 \<Longrightarrow> doy - (153 * mp + 2) div 5 + 1 = 29 \<longleftrightarrow> doy = 365"
    using q assms(1,2) by (elim disjE; simp)+
qed

lemma last_of_four:
  fixes n p :: int
  assumes "0 \<le> n" and "n \<le> 4 * p" and "0 < p"
  defines "c \<equiv> n div p - n div p div 4"
  shows "0 \<le> c" "c \<le> 3" "0 \<le> n - p * c" "n - p * c \<le> p" "n - p * c = p \<Longrightarrow> c = 3"
proof -
  define k where "k = n div p"
  have "n = k * p + n mod p" "0 \<le> n mod p" "n mod p < p" using assms(3) by (simp_all add: k_def)
  then have k: "k * p \<le> n" "n < k * p + p" by linarith+
  have "0 \<le> k" using assms(1,3) by (simp add: k_def pos_imp_zdiv_nonneg_iff)
  have "k * p < 5 * p" using assms(2,3) k by linarith
  then have "k < 5" using assms(3) by simp
  with \<open>0 \<le> k\<close> have "k = 0 \<or> k = 1 \<or> k = 2 \<or> k = 3 \<or> k = 4" by arith
  then have "k = c \<and> c \<le> 3 \<or> k = 4 \<and> c = 3" unfolding c_def k_def [symmetric] by auto
  then show "0 \<le> c" "c \<le> 3" "0 \<le> n - p * c" "n - p * c \<le> p" "n - p * c = p \<Longrightarrow> c = 3"
    using k \<open>0 \<le> k\<close> assms(2,3) by (auto simp: mult.commute)
qed

lemma civil_from_days:
  assumes "civil_from_days z = (y, m, d)"
  shows "days_from_civil y m d = z" "1 \<le> m" "m \<le> 12" "1 \<le> d" "d \<le> daysIn m y"
proof -
  define era doe where "era = (z + 719468) div 146097" and "doe = (z + 719468) mod 146097"
  define c doc where "c = doe div 36524 - doe div 36524 div 4" and "doc = doe - 36524 * c"
  define q doq where "q = doc div 1461" and "doq = doc - 1461 * q"
  define yq doy where "yq = doq div 365 - doq div 365 div 4" and "doy = doq - 365 * yq"
  define mp where "mp = (5 * doy + 2) div 153"
  have z: "z = era * 146097 + doe - 719468" by (simp add: era_def doe_def)
  have doe: "0 \<le> doe" "doe \<le> 146096" by (simp_all add: doe_def)
  have four: "doe \<le> 4 * 36524" "0 < (36524 :: int)" "0 < (365 :: int)" using doe by simp_all
  note c = last_of_four [OF doe(1) four(1,2), folded c_def, folded doc_def]
  have "doc = q * 1461 + doq" by (simp add: q_def doq_def)
  moreover have "0 \<le> doq" "doq < 1461" "0 \<le> q"
    using c(3) by (simp_all add: q_def doq_def minus_mult_div_eq_mod pos_imp_zdiv_nonneg_iff)
  ultimately have q: "0 \<le> q" "q \<le> 24" "0 \<le> doq" "doq \<le> 1460" "doq = 1460 \<Longrightarrow> q = 24 \<Longrightarrow> doc = 36524"
    using c(3,4) by simp_all
  have "doq \<le> 4 * 365" using q(4) by simp
  note yq = last_of_four [OF q(3) this four(3), folded yq_def, folded doy_def]
  have leap_day: "doy = 365 \<Longrightarrow> doq = 1460" using yq(5) by (simp add: doy_def)
  note month = month_of_day [OF yq(3,4), folded mp_def]
  have "y = era * 400 + c * 100 + q * 4 + yq + (if m \<le> 2 then 1 else 0) \<and>
    m = (if mp < 10 then mp + 3 else mp - 9) \<and> d = doy - (153 * mp + 2) div 5 + 1"
    using assms
    unfolding civil_from_days_def Let_def era_def [symmetric] doe_def [symmetric] c_def [symmetric]
      doc_def [symmetric] q_def [symmetric] doq_def [symmetric] yq_def [symmetric] doy_def [symmetric]
      mp_def [symmetric] prod.case prod.inject
    by (elim conjE) (intro conjI; hypsubst; rule refl)
  then have eqs: "y = era * 400 + c * 100 + q * 4 + yq + (if m \<le> 2 then 1 else 0)"
    "m = (if mp < 10 then mp + 3 else mp - 9)" "d = doy - (153 * mp + 2) div 5 + 1"
    by blast+
  show "1 \<le> m" "m \<le> 12" "1 \<le> d" using eqs(2,3) month(1-3) by (auto split: if_splits)
  have m: "(if 2 < m then m - 3 else m + 9) = mp" "m \<le> 2 \<longleftrightarrow> 10 \<le> mp"
    using eqs(2) month(1,2) by (auto split: if_splits)
  define yoe where "yoe = c * 100 + q * 4 + yq"
  have y: "(if m \<le> 2 then y - 1 else y) = era * 400 + yoe" using eqs(1) by (simp add: yoe_def)
  have "yoe = yq + (25 * c + q) * 4" "yoe = (q * 4 + yq) + c * 100" by (simp_all add: yoe_def)
  then have "yoe div 4 = 25 * c + q" "yoe div 100 = c"
    using q(1,2) yq(1,2) by (simp_all only: div_mult_self1)
  moreover have "0 \<le> yoe" "yoe < 400" using c(1,2) q(1,2) yq(1,2) by (simp_all add: yoe_def)
  ultimately have yoe: "0 \<le> yoe" "yoe < 400" "yoe div 4 = 25 * c + q" "yoe div 100 = c" by simp_all
  have "(era * 400 + yoe) div 400 = era" "(era * 400 + yoe) mod 400 = yoe"
    using yoe(1,2) by simp_all
  then show "days_from_civil y m d = z"
    unfolding days_from_civil_def y m(1) Let_def
    using yoe(3,4) by (simp add: z eqs(3) doy_def doq_def doc_def yoe_def)
  have leap: "leap_year y" if "doy = 365" "mp = 11"
  proof -
    have *: "yq = 3" "q = 24 \<Longrightarrow> c = 3" using yq(5) leap_day q(5) c(5) that by auto
    have "y = era * 400 + c * 100 + q * 4 + 4" using eqs(1) m(2) that(2) *(1) by simp
    then have y4: "y = (era * 100 + c * 25 + q + 1) * 4" "y = (q * 4 + 4) + (era * 4 + c) * 100" by simp_all
    have four: "y mod 4 = 0" by (simp only: y4(1) mod_mult_self2_is_0)
    show ?thesis
    proof (cases "q = 24")
      case True
      then have "y = (era + 1) * 400" using y4(1) *(2) by simp
      then have "y mod 400 = 0" by (simp only: mod_mult_self2_is_0)
      with four show ?thesis unfolding leap_year_def by blast
    next
      case False
      then have "y mod 100 = q * 4 + 4" using q(1,2) by (simp only: y4(2) mod_mult_self1) simp
      then have "y mod 100 \<noteq> 0" using q(1) by simp
      with four show ?thesis unfolding leap_year_def by blast
    qed
  qed
  show "d \<le> daysIn m y"
  proof (cases "mp = 11")
    case True
    then have "m = 2" using eqs(2) by simp
    moreover have "d = 29 \<longleftrightarrow> doy = 365" using month(5) True eqs(3) by simp
    moreover have "d \<le> 29" using month(4) True eqs(3) by simp
    ultimately show ?thesis using True leap by (cases "d = 29") (simp_all add: daysIn_def)
  next
    case False
    then show ?thesis using month(1,2,4) eqs(2,3) by (auto simp: daysIn_def split: if_splits)
  qed
qed

subsection \<open>Digits\<close>

text \<open>The low digits of a number, as many as are asked for: \<open>appendInt\<close> of a number that fits.\<close>

fun fixed_digits :: "nat \<Rightarrow> nat \<Rightarrow> string" where
  "fixed_digits 0 n = []"
| "fixed_digits (Suc w) n = fixed_digits w (n div 10) @ [digit_char (n mod 10)]"

lemma fixed_digits_length [simp]: "length (fixed_digits w n) = w"
  by (induction w arbitrary: n) simp_all

lemma fixed_digits_numeral:
  "fixed_digits (numeral k) n = fixed_digits (pred_numeral k) (n div 10) @ [digit_char (n mod 10)]"
  by (subst numeral_eq_Suc [of k]) (rule fixed_digits.simps(2))

lemma fixed_digits_are_digits: "\<forall>c \<in> set (fixed_digits w n). is_digit c"
  by (induction w arbitrary: n) auto

lemma digits_value_append: "digits_value (s @ t) = digits_value s * 10 ^ length t + digits_value t"
proof -
  have shift: "fold (\<lambda>c n. n * 10 + digit_val c) t a = a * 10 ^ length t + fold (\<lambda>c n. n * 10 + digit_val c) t 0" for a
  proof (induction t arbitrary: a)
    case (Cons c t)
    show ?case
      using Cons [of "a * 10 + digit_val c"] Cons [of "digit_val c"] by (simp add: algebra_simps)
  qed simp
  show ?thesis by (simp add: digits_value_def shift [of "fold (\<lambda>c n. n * 10 + digit_val c) s 0"])
qed

lemma digits_value_fixed: "n < 10 ^ w \<Longrightarrow> digits_value (fixed_digits w n) = n"
proof (induction w arbitrary: n)
  case (Suc w)
  then have "digits_value (fixed_digits w (n div 10)) = n div 10"
    by (simp add: less_mult_imp_div_less mult.commute)
  moreover have "digits_value [digit_char (n mod 10)] = n mod 10" by (simp add: digits_value_def)
  ultimately show ?case by (simp add: digits_value_append)
qed (simp add: digits_value_def)

lemma digits_value_zeros: "\<forall>c \<in> set s. c = CHR ''0'' \<Longrightarrow> digits_value s = 0"
  by (induction s rule: rev_induct) (auto simp: digits_value_append digits_value_def digit_val_def)

lemma strip_zeros_split:
  obtains zeros where "s = strip_zeros s @ zeros" "\<forall>c \<in> set zeros. c = CHR ''0''"
proof
  show "s = strip_zeros s @ rev (takeWhile (\<lambda>c. c = CHR ''0'') (rev s))"
    unfolding strip_zeros_def by (metis rev_append rev_rev_ident takeWhile_dropWhile_id)
  show "\<forall>c \<in> set (rev (takeWhile (\<lambda>c. c = CHR ''0'') (rev s))). c = CHR ''0''"
    by (auto dest: set_takeWhileD)
qed

lemma digits_value_strip:
  assumes "n < 10 ^ w"
  shows "digits_value (strip_zeros (fixed_digits w n)) * 10 ^ (w - length (strip_zeros (fixed_digits w n))) = n"
    and "length (strip_zeros (fixed_digits w n)) \<le> w"
    and "\<forall>c \<in> set (strip_zeros (fixed_digits w n)). is_digit c"
    and "strip_zeros (fixed_digits w n) = [] \<Longrightarrow> n = 0"
proof -
  obtain zeros where *: "fixed_digits w n = strip_zeros (fixed_digits w n) @ zeros" "\<forall>c \<in> set zeros. c = CHR ''0''"
    by (rule strip_zeros_split)
  have len: "w = length (strip_zeros (fixed_digits w n)) + length zeros"
    using arg_cong [OF *(1), of length] by simp
  then show "length (strip_zeros (fixed_digits w n)) \<le> w" by simp
  have "n = digits_value (strip_zeros (fixed_digits w n) @ zeros)"
    using digits_value_fixed [OF assms] *(1) by simp
  then have "n = digits_value (strip_zeros (fixed_digits w n)) * 10 ^ length zeros"
    using digits_value_zeros [OF *(2)] by (simp add: digits_value_append)
  moreover have "w - length (strip_zeros (fixed_digits w n)) = length zeros" using len by simp
  ultimately show "digits_value (strip_zeros (fixed_digits w n)) * 10 ^ (w - length (strip_zeros (fixed_digits w n))) = n"
    and "strip_zeros (fixed_digits w n) = [] \<Longrightarrow> n = 0"
    by (simp_all add: digits_value_def)
  show "\<forall>c \<in> set (strip_zeros (fixed_digits w n)). is_digit c"
    using fixed_digits_are_digits [of w n] *(1) by (metis Un_iff set_append)
qed

lemma two_digits_fixed: "n < 100 \<Longrightarrow> two_digits (fixed_digits 2 n @ t) = Some (int n, t)"
  by (simp add: two_digits_def numeral_2_eq_2 less_mult_imp_div_less)

lemma four_digits_fixed: "n < 10000 \<Longrightarrow> four_digits (fixed_digits 4 n @ t) = Some (int n, t)"
proof -
  assume n: "n < 10000"
  have "n div 10 div 10 div 10 mod 10 = n div 100 div 10 mod 10" "n div 10 div 10 mod 10 = n div 100 mod 10"
    "n div 10 mod 10 = n mod 100 div 10 mod 10" "n mod 10 = n mod 100 mod 10"
    using div_mult2_eq [of n 10 10] mod_mult2_eq [of n 10 10] by simp_all
  then have "fixed_digits 4 n = fixed_digits 2 (n div 100) @ fixed_digits 2 (n mod 100)"
    by (simp add: fixed_digits_numeral)
  moreover have digits: "int (n div 100) * 100 + int (n mod 100) = int n"
    by (metis div_mult_mod_eq of_nat_add of_nat_mult of_nat_numeral)
  ultimately show ?thesis
    using two_digits_fixed [of "n div 100" "fixed_digits 2 (n mod 100) @ t"] two_digits_fixed [of "n mod 100" t] n
    by (simp only: four_digits_def append_assoc) (simp add: digits)
qed

subsection \<open>Instants\<close>

definition fraction_text :: "nat \<Rightarrow> string" where
  "fraction_text ns = (if ns = 0 then [] else CHR ''.'' # strip_zeros (fixed_digits 9 ns))"

text \<open>\<open>Time.MarshalJSON\<close> refuses a year that does not have four digits.\<close>

definition FormatRFC3339Nano :: "time \<Rightarrow> string option" where
  "FormatRFC3339Nano t =
     (let ns = t mod 1000000000; s = t div 1000000000; days = s div 86400; sod = s mod 86400 in
      case civil_from_days days of
        (year, month, day) \<Rightarrow>
          (if year < 0 \<or> 9999 < year then None
           else Some (fixed_digits 4 (nat year) @ ''-'' @ fixed_digits 2 (nat month) @ ''-'' @
             fixed_digits 2 (nat day) @ ''T'' @ fixed_digits 2 (nat (sod div 3600)) @ '':'' @
             fixed_digits 2 (nat (sod div 60 mod 60)) @ '':'' @ fixed_digits 2 (nat (sod mod 60)) @
             fraction_text (nat ns) @ ''Z'')))"

lemma expect_char_same [simp]: "expect_char c (c # t) = Some t"
  by (simp add: expect_char_def)

lemma nanoseconds_fraction:
  assumes "n < 1000000000"
  shows "nanoseconds (fraction_text n @ CHR ''Z'' # t) = (int n, CHR ''Z'' # t)"
proof (cases "n = 0")
  case True
  then show ?thesis by (cases t) (simp_all add: nanoseconds_def fraction_text_def)
next
  case False
  let ?ds = "strip_zeros (fixed_digits 9 n)"
  have n: "n < 10 ^ 9" using assms by simp
  note ds = digits_value_strip [OF n]
  obtain d rest where rest: "?ds = d # rest" using ds(4) False by (cases ?ds) auto
  have Z: "\<not> is_digit CHR ''Z''" by (simp add: is_digit_def)
  have "takeWhile is_digit (?ds @ CHR ''Z'' # t) = ?ds" "dropWhile is_digit (?ds @ CHR ''Z'' # t) = CHR ''Z'' # t"
    using ds(3) Z by (auto simp: takeWhile_append dropWhile_append)
  moreover have "int (digits_value ?ds) * 10 ^ (9 - length ?ds) = int n"
    using arg_cong [OF ds(1), of int] by simp
  moreover have "is_digit d" using ds(3) rest by simp
  ultimately show ?thesis
    using ds(2) rest False by (simp add: nanoseconds_def fraction_text_def Let_def del: take_Suc_Cons)
qed

lemma one_or_two_digits_fixed: "n < 100 \<Longrightarrow> one_or_two_digits (fixed_digits 2 n @ t) = Some (int n, t)"
  by (simp add: one_or_two_digits_def two_digits_fixed)

lemma ParseRFC3339_parts:
  assumes "Y < 10000" and "1 \<le> M" "M \<le> 12" and "1 \<le> D" "int D \<le> daysIn (int M) (int Y)"
    and "h \<le> 23" "m \<le> 59" "s \<le> 59" and "n < 1000000000"
  shows "ParseRFC3339 (fixed_digits 4 Y @ ''-'' @ fixed_digits 2 M @ ''-'' @ fixed_digits 2 D @ ''T'' @
      fixed_digits 2 h @ '':'' @ fixed_digits 2 m @ '':'' @ fixed_digits 2 s @ fraction_text n @ ''Z'') =
    Some ((((days_from_civil (int Y) (int M) (int D) * 24 + int h) * 60 + int m) * 60 + int s) * 1000000000 + int n)"
proof -
  have "daysIn (int M) (int Y) \<le> 31" by (simp add: daysIn_def)
  then have D: "D < 100" "1 \<le> int D" "1 \<le> int M" "int M \<le> 12" using assms(2-5) by simp_all
  note f = four_digits_fixed [OF assms(1)] two_digits_fixed [OF D(1)] two_digits_fixed [of M] two_digits_fixed [of m]
    two_digits_fixed [of s] one_or_two_digits_fixed [of h] nanoseconds_fraction [OF assms(9), of "[]"]
  show ?thesis
    unfolding ParseRFC3339_def
    using assms(3,6-8) D(2-4) assms(5)
    by (simp add: f in_range_def zone_offset_def)
qed

lemma clock_sum:
  "x = d * 86400 + y \<Longrightarrow> (h * 60 + m) * 60 + s = y \<Longrightarrow> ((d * 24 + h) * 60 + m) * 60 + s = (x :: int)"
  by simp

lemma ParseRFC3339_Format:
  assumes "FormatRFC3339Nano t = Some s"
  shows "ParseRFC3339 s = Some t"
proof -
  define ns sec days sod where "ns = t mod 1000000000" and "sec = t div 1000000000"
    and "days = sec div 86400" and "sod = sec mod 86400"
  define h m c where "h = sod div 3600" and "m = sod div 60 mod 60" and "c = sod mod 60"
  obtain year month day where civil: "civil_from_days days = (year, month, day)" by (cases "civil_from_days days")
  note date = civil_from_days [OF civil]
  have s: "s = fixed_digits 4 (nat year) @ ''-'' @ fixed_digits 2 (nat month) @ ''-'' @
      fixed_digits 2 (nat day) @ ''T'' @ fixed_digits 2 (nat h) @ '':'' @ fixed_digits 2 (nat m) @ '':'' @
      fixed_digits 2 (nat c) @ fraction_text (nat ns) @ ''Z''" and year: "0 \<le> year" "year \<le> 9999"
    using assms civil
    unfolding FormatRFC3339Nano_def Let_def ns_def [symmetric] sec_def [symmetric] days_def [symmetric]
      sod_def [symmetric] h_def [symmetric] m_def [symmetric] c_def [symmetric]
    by (simp_all split: if_splits)
  have sod: "0 \<le> sod" "sod < 86400" by (simp_all add: sod_def)
  have "h = sod div 60 div 60" using zdiv_zmult2_eq [of 60 sod 60] by (simp add: h_def)
  then have sum: "(h * 60 + m) * 60 + c = sod" by (simp add: m_def c_def)
  have clock: "0 \<le> h" "h \<le> 23" "0 \<le> m" "m \<le> 59" "0 \<le> c" "c \<le> 59"
    using sod zdiv_mono1 [of sod 86399 3600] by (simp_all add: h_def m_def c_def pos_imp_zdiv_nonneg_iff)
  have ns: "0 \<le> ns" "ns < 1000000000" by (simp_all add: ns_def)
  have "sec = days * 86400 + sod" by (simp add: sod_def days_def)
  then have sec: "((days * 24 + h) * 60 + m) * 60 + c = sec" by (rule clock_sum) (rule sum)
  have t: "sec * 1000000000 + ns = t" by (simp add: sec_def ns_def)
  have n: "int (nat year) = year" "int (nat month) = month" "int (nat day) = day" "int (nat h) = h"
    "int (nat m) = m" "int (nat c) = c" "int (nat ns) = ns"
    using year date clock ns by simp_all
  have "ParseRFC3339 s = Some ((((days_from_civil (int (nat year)) (int (nat month)) (int (nat day)) * 24 +
      int (nat h)) * 60 + int (nat m)) * 60 + int (nat c)) * 1000000000 + int (nat ns))"
    unfolding s
    by (rule ParseRFC3339_parts) (use year date clock ns in \<open>simp_all add: nat_le_iff nat_less_iff\<close>)
  then show ?thesis by (simp only: n date(1) sec t)
qed

text \<open>An instant of the years 0 to 9999 has such a text.\<close>

lemma FormatRFC3339Nano_ok:
  "FormatRFC3339Nano t \<noteq> None \<longleftrightarrow> (case civil_from_days (t div 1000000000 div 86400) of (y, _) \<Rightarrow> 0 \<le> y \<and> y \<le> 9999)"
  by (auto simp: FormatRFC3339Nano_def Let_def split: prod.splits)

end
