(* ===== verification/JsonStrings.thy ===== *)
theory JsonStrings
  imports JsonStruct SHA256
begin

text \<open>
  Writing strings as \<open>json.Marshal\<close> does, with its escapes for HTML and JavaScript. The scanner
  of \<open>Json\<close> reads what is written back as the string, with bytes that are no UTF-8 replaced.
\<close>

definition unicode_text :: "nat \<Rightarrow> string" where
  "unicode_text n =
     [CHR 0x5C, CHR ''u'', hex_digit (n div 4096), hex_digit (n div 256 mod 16),
      hex_digit (n div 16 mod 16), hex_digit (n mod 16)]"

definition html_safe :: "char \<Rightarrow> bool" where
  "html_safe c \<longleftrightarrow> 32 \<le> (of_char c :: nat) \<and> c \<notin> {CHR 0x22, CHR 0x5C, CHR ''<'', CHR ''>'', CHR ''&''}"

definition escape_byte :: "char \<Rightarrow> string" where
  "escape_byte c =
     (if html_safe c then [c]
      else if c \<in> {CHR 0x22, CHR 0x5C} then [CHR 0x5C, c]
      else if c = CHR 0x08 then [CHR 0x5C, CHR ''b'']
      else if c = CHR 0x0C then [CHR 0x5C, CHR ''f'']
      else if c = CHR 0x0A then [CHR 0x5C, CHR ''n'']
      else if c = CHR 0x0D then [CHR 0x5C, CHR ''r'']
      else if c = CHR 0x09 then [CHR 0x5C, CHR ''t'']
      else unicode_text (of_char c))"

text \<open>The separators U+2028 and U+2029 are escaped for JavaScript.\<close>

definition escape_rune :: "string \<Rightarrow> string" where
  "escape_rune p =
     (if p = [CHR 0xE2, CHR 0x80, CHR 0xA8] then unicode_text 8232
      else if p = [CHR 0xE2, CHR 0x80, CHR 0xA9] then unicode_text 8233 else p)"

lemma utf8_len_le: "utf8_len s \<le> length s"
  by (auto simp: utf8_len_def split: list.splits)

function encode_chars :: "string \<Rightarrow> string" where
  "encode_chars [] = []"
| "encode_chars (c # s) =
     (if (of_char c :: nat) < 128 then escape_byte c @ encode_chars s
      else if utf8_len (c # s) = 0 then unicode_text 65533 @ encode_chars s
      else escape_rune (take (utf8_len (c # s)) (c # s)) @ encode_chars (drop (utf8_len (c # s) - 1) s))"
  by pat_completeness auto
termination by (relation "measure length") auto

definition string_text :: "string \<Rightarrow> string" where
  "string_text s = CHR 0x22 # encode_chars s @ [CHR 0x22]"

text \<open>What reading it back gives: bytes that are no UTF-8 have become replacement characters.\<close>

function utf8_repair :: "string \<Rightarrow> string" where
  "utf8_repair [] = []"
| "utf8_repair (c # s) =
     (if (of_char c :: nat) < 128 then c # utf8_repair s
      else if utf8_len (c # s) = 0 then replacement @ utf8_repair s
      else take (utf8_len (c # s)) (c # s) @ utf8_repair (drop (utf8_len (c # s) - 1) s))"
  by pat_completeness auto
termination by (relation "measure length") auto

declare encode_chars.simps(2) [simp del] utf8_repair.simps(2) [simp del]

definition utf8_valid :: "string \<Rightarrow> bool" where
  "utf8_valid s \<longleftrightarrow> utf8_repair s = s"

lemma utf8_valid_ascii: "\<forall>c \<in> set s. (of_char c :: nat) < 128 \<Longrightarrow> utf8_valid s"
  by (induction s) (simp_all add: utf8_valid_def utf8_repair.simps)

lemma hex_val_digit [simp]:
  assumes "d < 16"
  shows "hex_val (hex_digit d) = Some d"
proof -
  have "list_all (\<lambda>d. hex_val (hex_digit d) = Some d) [0..<16]" by code_simp
  with assms show ?thesis by (simp add: list_all_iff)
qed

lemma hex4_unicode_text:
  assumes "n < 65536"
  shows "hex4 (hex_digit (n div 4096) # hex_digit (n div 256 mod 16) # hex_digit (n div 16 mod 16) #
    hex_digit (n mod 16) # t) = Some (n, t)"
proof -
  have "n div 16 div 16 = n div 256" "n div 256 div 16 = n div 4096"
    using div_mult2_eq [of n 16 16] div_mult2_eq [of n 256 16] by simp_all
  then have "n div 4096 * 16 + n div 256 mod 16 = n div 256" "n div 256 * 16 + n div 16 mod 16 = n div 16"
    "n div 16 * 16 + n mod 16 = n"
    by (metis div_mult_mod_eq)+
  moreover have "n div 4096 < 16" using assms by (simp add: less_mult_imp_div_less)
  ultimately show ?thesis by simp
qed

lemma json_chars_backslash:
  "e \<noteq> CHR ''u'' \<Longrightarrow> simple_escape e = Some d \<Longrightarrow> json_chars (CHR 0x5C # e # t) = prepend [d] (json_chars t)"
  "json_chars (CHR 0x5C # CHR ''u'' # t) =
     (case unicode_escape t of None \<Rightarrow> None | Some (u, t') \<Rightarrow> prepend u (json_chars t'))"
  by (subst json_chars_unfold, simp)+

lemma json_chars_unicode:
  assumes "n < 55296 \<or> 57343 < n" and "n < 65536"
  shows "json_chars (unicode_text n @ t) = prepend (utf8_encode n) (json_chars t)"
proof -
  have "unicode_escape (hex_digit (n div 4096) # hex_digit (n div 256 mod 16) # hex_digit (n div 16 mod 16) #
      hex_digit (n mod 16) # t) = Some (utf8_encode n, t)"
    using assms(1) by (simp add: unicode_escape_def hex4_unicode_text [OF assms(2)] del: hex4.simps)
  then show ?thesis by (simp add: unicode_text_def json_chars_backslash(2))
qed

lemma json_chars_escape_byte:
  assumes "(of_char c :: nat) < 128"
  shows "json_chars (escape_byte c @ t) = prepend [c] (json_chars t)"
proof (cases "html_safe c")
  case True
  then have "json_chars (c # t) = prepend [c] (json_chars t)"
    using assms by (subst json_chars_unfold) (auto simp: html_safe_def)
  with True show ?thesis by (simp add: escape_byte_def)
next
  case False
  have "json_chars (unicode_text (of_char c) @ t) = prepend [c] (json_chars t)"
    using json_chars_unicode [of "of_char c" t] assms by (simp add: utf8_encode_def)
  with False show ?thesis
    by (simp add: escape_byte_def json_chars_backslash(1) simple_escape_def)
qed

lemma utf8_len_cases:
  assumes "0 < utf8_len s"
  obtains (two) c d r where "s = c # d # r" "utf8_len s = 2"
    | (three) c d e r where "s = c # d # e # r" "utf8_len s = 3"
    | (four) c d e f r where "s = c # d # e # f # r" "utf8_len s = 4"
proof -
  consider (a) c d r where "s = c # d # r" "utf8_len s = 2"
    | (b) c d e r where "s = c # d # e # r" "utf8_len s = 3"
    | (c) c d e f r where "s = c # d # e # f # r" "utf8_len s = 4"
    using assms by (auto simp: utf8_len_def split: list.splits if_splits)
  then show thesis
  proof cases
    case a
    then show thesis by (rule two)
  next
    case b
    then show thesis by (rule three)
  next
    case c
    then show thesis by (rule four)
  qed
qed

lemma utf8_len_prefix:
  assumes "0 < utf8_len s"
  shows "utf8_len (take (utf8_len s) s @ t) = utf8_len s"
proof -
  have "\<exists>p r. s = p @ r \<and> length p = utf8_len s \<and> (\<forall>t. utf8_len (p @ t) = length p)"
  proof -
    show ?thesis
      using assms
    proof (cases rule: utf8_len_cases)
      case (two c d r)
      then have "\<forall>t. utf8_len ([c, d] @ t) = 2"
        by (auto simp: utf8_len_def split: list.splits if_splits)
      with two show ?thesis by (intro exI [of _ "[c, d]"] exI [of _ r]) simp
    next
      case (three c d e r)
      then have "\<forall>t. utf8_len ([c, d, e] @ t) = 3"
        by (auto simp: utf8_len_def split: list.splits if_splits)
      with three show ?thesis by (intro exI [of _ "[c, d, e]"] exI [of _ r]) simp
    next
      case (four c d e f r)
      then have "\<forall>t. utf8_len ([c, d, e, f] @ t) = 4"
        by (auto simp: utf8_len_def split: list.splits if_splits)
      with four show ?thesis by (intro exI [of _ "[c, d, e, f]"] exI [of _ r]) simp
    qed
  qed
  then show ?thesis by force
qed


lemma json_chars_separators:
  "json_chars (unicode_text 8232 @ t) = prepend [CHR 0xE2, CHR 0x80, CHR 0xA8] (json_chars t)"
  "json_chars (unicode_text 8233 @ t) = prepend [CHR 0xE2, CHR 0x80, CHR 0xA9] (json_chars t)"
proof -
  have "utf8_encode 8232 = [CHR 0xE2, CHR 0x80, CHR 0xA8]" "utf8_encode 8233 = [CHR 0xE2, CHR 0x80, CHR 0xA9]"
    by (simp_all add: utf8_encode_def char_of_def bit_0)
  then show "json_chars (unicode_text 8232 @ t) = prepend [CHR 0xE2, CHR 0x80, CHR 0xA8] (json_chars t)"
    "json_chars (unicode_text 8233 @ t) = prepend [CHR 0xE2, CHR 0x80, CHR 0xA9] (json_chars t)"
    using json_chars_unicode [of 8232 t] json_chars_unicode [of 8233 t] by simp_all
qed

lemma json_chars_escape_rune:
  "json_chars (p @ t) = prepend p (json_chars t) \<Longrightarrow> json_chars (escape_rune p @ t) = prepend p (json_chars t)"
  by (simp add: escape_rune_def json_chars_separators)

lemma json_chars_rune:
  assumes "\<not> (of_char c :: nat) < 128" and "0 < utf8_len (c # s)"
  shows "json_chars (escape_rune (take (utf8_len (c # s)) (c # s)) @ t) =
    prepend (take (utf8_len (c # s)) (c # s)) (json_chars t)"
proof (rule json_chars_escape_rune)
  obtain p where p: "take (utf8_len (c # s)) (c # s) = c # p" using assms(2) by (cases "utf8_len (c # s)") simp_all
  have "length (take (utf8_len (c # s)) (c # s)) = utf8_len (c # s)" using utf8_len_le [of "c # s"] by simp
  then have "utf8_len (c # s) = Suc (length p)" unfolding p by (simp only: length_Cons)
  then have "utf8_len (c # p @ t) = Suc (length p)"
    using utf8_len_prefix [OF assms(2), of t] unfolding p by (simp only: append_Cons)
  then show "json_chars (take (utf8_len (c # s)) (c # s) @ t) =
      prepend (take (utf8_len (c # s)) (c # s)) (json_chars t)"
    using assms(1) unfolding p append_Cons by (subst json_chars_unfold) auto
qed

lemma json_chars_encode: "json_chars (encode_chars s @ CHR 0x22 # t) = Some (utf8_repair s, t)"
proof (induction s rule: encode_chars.induct)
  case 1
  show ?case by (simp add: json_chars_unfold)
next
  case (2 c s)
  have lost: "utf8_encode 65533 = replacement" by (simp add: utf8_encode_def replacement_def char_of_def bit_0)
  consider (ascii) "(of_char c :: nat) < 128" | (bad) "\<not> (of_char c :: nat) < 128" "utf8_len (c # s) = 0"
    | (rune) "\<not> (of_char c :: nat) < 128" "0 < utf8_len (c # s)" by blast
  then show ?case
  proof cases
    case ascii
    then show ?thesis
      using "2.IH"(1) by (simp add: encode_chars.simps utf8_repair.simps json_chars_escape_byte prepend_def)
  next
    case bad
    then show ?thesis
      using "2.IH"(2) json_chars_unicode [of 65533]
      by (simp add: encode_chars.simps utf8_repair.simps lost prepend_def)
  next
    case rune
    then have nz: "utf8_len (c # s) \<noteq> 0" by simp
    have "encode_chars (c # s) = escape_rune (take (utf8_len (c # s)) (c # s)) @
        encode_chars (drop (utf8_len (c # s) - 1) s)"
      "utf8_repair (c # s) = take (utf8_len (c # s)) (c # s) @ utf8_repair (drop (utf8_len (c # s) - 1) s)"
      using rune by (simp_all only: encode_chars.simps utf8_repair.simps if_False nz)
    then show ?thesis
      using "2.IH"(3) [OF rune(1) nz] json_chars_rune [OF rune] by (simp add: prepend_def)
  qed
qed

end
