(* ===== verification/JsonTexts.thy ===== *)
theory JsonTexts
  imports JsonStrings GoTimeFormat
begin

text \<open>
  Writing numbers, arrays and objects as \<open>json.Marshal\<close> does. Each text that is written is one
  value to the scanner of \<open>Json\<close>, wherever it stands in a document, and an array or an object
  falls into the raw values of \<open>JsonStruct\<close> that it was written from.
\<close>

subsection \<open>Texts of values\<close>

text \<open>
  A text of nesting \<open>k\<close> is read as one value, of which it is the whole, in front of a comma, a
  closing bracket or the end; likewise the elements of an array and the members of an object
  up to their closing bracket.
\<close>

definition separated :: "string \<Rightarrow> bool" where
  "separated t \<longleftrightarrow> t = [] \<or> hd t \<in> {CHR '','', CHR '']'', CHR ''}''}"

lemma separated_simps [simp]:
  "separated []" "separated (CHR '','' # t)" "separated (CHR '']'' # t)" "separated (CHR ''}'' # t)"
  by (simp_all add: separated_def)

definition value_text :: "nat \<Rightarrow> string \<Rightarrow> bool" where
  "value_text k q \<longleftrightarrow> q \<noteq> [] \<and> \<not> json_ws (hd q) \<and>
     (\<forall>t d n. separated t \<longrightarrow> d + k \<le> max_nesting \<longrightarrow> 2 * length (q @ t) < n \<longrightarrow>
       (\<exists>v. json_value n d (q @ t) = Some (v, t)))"

definition elements_text :: "nat \<Rightarrow> string \<Rightarrow> bool" where
  "elements_text k q \<longleftrightarrow> q \<noteq> [] \<and> \<not> json_ws (hd q) \<and> hd q \<noteq> CHR '']'' \<and>
     (\<forall>t d n. d + k \<le> max_nesting \<longrightarrow> 2 * length (q @ t) + 1 < n \<longrightarrow>
       (\<exists>vs. json_elements n d (q @ t) = Some (vs, t)))"

definition members_text :: "nat \<Rightarrow> string \<Rightarrow> bool" where
  "members_text k q \<longleftrightarrow> q \<noteq> [] \<and> \<not> json_ws (hd q) \<and> hd q \<noteq> CHR ''}'' \<and>
     (\<forall>t d n. d + k \<le> max_nesting \<longrightarrow> 2 * length (q @ t) + 1 < n \<longrightarrow>
       (\<exists>ms. json_members n d (q @ t) = Some (ms, t)))"

lemma skip_ws_fix: "q \<noteq> [] \<Longrightarrow> \<not> json_ws (hd q) \<Longrightarrow> skip_ws (q @ t) = q @ t"
  by (cases q) (simp_all add: skip_ws_def)

lemma skip_ws_cons [simp]: "\<not> json_ws c \<Longrightarrow> skip_ws (c # t) = c # t"
  by (simp add: skip_ws_def)

lemma json_ws_punctuation [simp]:
  "\<not> json_ws CHR '','' " "\<not> json_ws CHR '':''" "\<not> json_ws CHR '']''" "\<not> json_ws CHR ''}''"
  "\<not> json_ws CHR ''[''" "\<not> json_ws CHR ''{''" "\<not> json_ws CHR 0x22"
  by (simp_all add: json_ws_def)

lemma value_textD:
  "value_text k q \<Longrightarrow> separated t \<Longrightarrow> d + k \<le> max_nesting \<Longrightarrow> 2 * length (q @ t) < n \<Longrightarrow>
   \<exists>v. json_value n d (q @ t) = Some (v, t)"
  by (simp add: value_text_def)

lemma value_text_start: "value_text k q \<Longrightarrow> q \<noteq> [] \<and> \<not> json_ws (hd q) \<and> skip_ws (q @ t) = q @ t"
  by (simp add: value_text_def skip_ws_fix)

lemma value_text_mono: "value_text k q \<Longrightarrow> k \<le> k' \<Longrightarrow> value_text k' q"
  by (simp add: value_text_def)

lemma no_value_starts_with_bracket: "json_value n d (CHR '']'' # t) = None"
  by (cases n) (simp_all add: json_number_def minus_part_def int_part_def is_digit_def)

lemma value_text_not_bracket:
  assumes "value_text k q" and "k \<le> max_nesting"
  shows "hd q \<noteq> CHR '']''"
proof
  assume b: "hd q = CHR '']''"
  obtain v where "json_value (2 * length q + 1) 0 q = Some (v, [])"
    using value_textD [OF assms(1), of "[]" 0 "2 * length q + 1"] assms(2) by (auto simp del: json_value.simps)
  moreover obtain r where "q = CHR '']'' # r" using b assms(1) by (cases q) (auto simp: value_text_def)
  ultimately show False using no_value_starts_with_bracket by simp
qed

lemma elements_text_one:
  assumes "value_text k q" and "k \<le> max_nesting"
  shows "elements_text k (q @ '']'')"
  unfolding elements_text_def
proof (intro conjI allI impI)
  fix t d n assume d: "d + k \<le> max_nesting" and n: "2 * length ((q @ '']'') @ t) + 1 < n"
  then obtain m where m: "n = Suc m" by (cases n) auto
  obtain v where "json_value m d (q @ CHR '']'' # t) = Some (v, CHR '']'' # t)"
    using value_textD [OF assms(1), of "CHR '']'' # t" d m] d n m by (auto simp del: json_value.simps)
  then show "\<exists>vs. json_elements n d ((q @ '']'') @ t) = Some (vs, t)" by (simp add: m del: json_value.simps)
qed (use assms value_text_start [OF assms(1)] value_text_not_bracket [OF assms] in auto)

lemma elements_text_more:
  assumes "value_text k q" and "k \<le> max_nesting" and "elements_text k es"
  shows "elements_text k (q @ CHR '','' # es)"
  unfolding elements_text_def
proof (intro conjI allI impI)
  fix t d n assume d: "d + k \<le> max_nesting" and n: "2 * length ((q @ CHR '','' # es) @ t) + 1 < n"
  then obtain m where m: "n = Suc m" by (cases n) auto
  obtain v where v: "json_value m d (q @ CHR '','' # es @ t) = Some (v, CHR '','' # es @ t)"
    using value_textD [OF assms(1), of "CHR '','' # es @ t" d m] d n m by (auto simp del: json_value.simps)
  have "2 * length (es @ t) + 1 < m" using n m by simp
  then obtain vs where "json_elements m d (es @ t) = Some (vs, t)"
    using assms(3) d unfolding elements_text_def by blast
  moreover have "skip_ws (es @ t) = es @ t" using assms(3) by (intro skip_ws_fix) (auto simp: elements_text_def)
  ultimately show "\<exists>vs. json_elements n d ((q @ CHR '','' # es) @ t) = Some (vs, t)"
    using v by (simp add: m del: json_value.simps)
qed (use assms value_text_start [OF assms(1)] value_text_not_bracket [OF assms(1,2)] in auto)

lemma value_text_array:
  assumes "elements_text k es"
  shows "value_text (Suc k) (CHR ''['' # es)"
  unfolding value_text_def
proof (intro conjI allI impI)
  fix t d n assume d: "d + Suc k \<le> max_nesting" and n: "2 * length ((CHR ''['' # es) @ t) < n"
  then obtain m where m: "n = Suc m" by (cases n) auto
  obtain e r where e: "es = e # r" "\<not> json_ws e" "e \<noteq> CHR '']''" using assms by (cases es) (auto simp: elements_text_def)
  have "2 * length (es @ t) + 1 < m" using n m by simp
  moreover have "Suc d + k \<le> max_nesting" using d by simp
  ultimately obtain vs where "json_elements m (Suc d) (es @ t) = Some (vs, t)"
    using assms unfolding elements_text_def by blast
  then show "\<exists>v. json_value n d ((CHR ''['' # es) @ t) = Some (v, t)" using e d by (simp add: m)
qed simp_all

lemma value_text_object:
  assumes "members_text k ms"
  shows "value_text (Suc k) (CHR ''{'' # ms)"
  unfolding value_text_def
proof (intro conjI allI impI)
  fix t d n assume d: "d + Suc k \<le> max_nesting" and n: "2 * length ((CHR ''{'' # ms) @ t) < n"
  then obtain m where m: "n = Suc m" by (cases n) auto
  obtain e r where e: "ms = e # r" "\<not> json_ws e" "e \<noteq> CHR ''}''" using assms by (cases ms) (auto simp: members_text_def)
  have "2 * length (ms @ t) + 1 < m" using n m by simp
  moreover have "Suc d + k \<le> max_nesting" using d by simp
  ultimately obtain vs where "json_members m (Suc d) (ms @ t) = Some (vs, t)"
    using assms unfolding members_text_def by blast
  then show "\<exists>v. json_value n d ((CHR ''{'' # ms) @ t) = Some (v, t)" using e d by (simp add: m)
qed simp_all

lemma value_text_empty: "value_text 1 ''[]''" "value_text 1 ''{}''"
  unfolding value_text_def
  by (auto simp: gr0_conv_Suc dest!: less_imp_Suc_add)


subsection \<open>Numbers\<close>

text \<open>A number literal is read as itself in front of what does not continue it.\<close>

definition after_number :: "string \<Rightarrow> bool" where
  "after_number t \<longleftrightarrow>
     t = [] \<or> \<not> is_digit (hd t) \<and> hd t \<notin> {CHR ''.'', CHR ''e'', CHR ''E'', CHR ''+'', CHR ''-''}"

lemma separated_after_number: "separated t \<Longrightarrow> after_number t"
  by (auto simp: separated_def after_number_def is_digit_def)

lemma digits_of_append:
  assumes "\<forall>c \<in> set ds. is_digit c" and "t = [] \<or> \<not> is_digit (hd t)"
  shows "digits_of (ds @ t) = ds" "after_digits (ds @ t) = t"
  using assms by (cases t; simp add: digits_of_def after_digits_def takeWhile_append dropWhile_append)+

lemma digits_split:
  "s = digits_of s @ after_digits s" "\<forall>c \<in> set (digits_of s). is_digit c"
  "after_digits s = [] \<or> \<not> is_digit (hd (after_digits s))"
proof -
  show "s = digits_of s @ after_digits s" "\<forall>c \<in> set (digits_of s). is_digit c"
    by (auto simp: digits_of_def after_digits_def dest: set_takeWhileD)
  show "after_digits s = [] \<or> \<not> is_digit (hd (after_digits s))"
    using hd_dropWhile [of is_digit s] by (auto simp: after_digits_def)
qed

lemma exp_part_split:
  assumes "exp_part s = Some (e, t)"
  shows "s = e @ t" and "after_number u \<Longrightarrow> exp_part (e @ u) = Some (e, u)"
    and "e = [] \<or> hd e \<in> {CHR ''e'', CHR ''E''}"
proof -
  have "s = e @ t \<and> (after_number u \<longrightarrow> exp_part (e @ u) = Some (e, u)) \<and>
      (e = [] \<or> hd e \<in> {CHR ''e'', CHR ''E''})"
  proof (cases "s = [] \<or> hd s \<notin> {CHR ''e'', CHR ''E''}")
    case True
    then have "e = [] \<and> t = s" using assms by (cases s) (auto simp: exp_part_def)
    then show ?thesis by (cases u) (auto simp: exp_part_def after_number_def)
  next
    case False
    then obtain c r where c: "s = c # r" "c \<in> {CHR ''e'', CHR ''E''}" by (cases s) auto
    obtain sg r' where sg: "exp_sign r = (sg, r')" by (cases "exp_sign r")
    then have r: "r = sg @ r'" by (auto simp: exp_sign_def split: list.splits if_splits)
    from assms c sg have e: "digits_of r' \<noteq> []" "e = c # sg @ digits_of r'" "t = after_digits r'"
      by (auto simp: exp_part_def split: if_splits)
    have sign: "exp_sign (sg @ digits_of r' @ u) = (sg, digits_of r' @ u)"
    proof (cases "sg = []")
      case True
      obtain d ds where d: "digits_of r' = d # ds" using e(1) by (cases "digits_of r'") auto
      have "is_digit d" using digits_split(2) [of r'] d by simp
      then have "d \<noteq> CHR ''+''" "d \<noteq> CHR ''-''" using sign_not_digit by auto
      then show ?thesis using True d by (simp add: exp_sign_def)
    next
      case False
      then show ?thesis using sg by (auto simp: exp_sign_def split: list.splits if_splits)
    qed
    have "exp_part (e @ u) = Some (e, u)" if "after_number u"
    proof -
      have "digits_of (digits_of r' @ u) = digits_of r'" "after_digits (digits_of r' @ u) = u"
        using that digits_split(2) [of r'] by (auto intro!: digits_of_append simp: after_number_def)
      then show ?thesis using c(2) e sign by (auto simp: exp_part_def)
    qed
    moreover have "s = e @ t" using c(1) r e(2,3) digits_split(1) [of r'] by simp
    ultimately show ?thesis using e(2) c(2) by simp
  qed
  then show "s = e @ t" and "after_number u \<Longrightarrow> exp_part (e @ u) = Some (e, u)"
    and "e = [] \<or> hd e \<in> {CHR ''e'', CHR ''E''}" by blast+
qed

text \<open>In front of an exponent or of what does not continue a number.\<close>

definition after_fraction :: "string \<Rightarrow> bool" where
  "after_fraction t \<longleftrightarrow> t = [] \<or> \<not> is_digit (hd t) \<and> hd t \<noteq> CHR ''.''"

lemma frac_part_split:
  assumes "frac_part s = Some (f, t)"
  shows "s = f @ t" and "after_fraction u \<Longrightarrow> frac_part (f @ u) = Some (f, u)" and "f = [] \<or> hd f = CHR ''.''"
proof -
  have "s = f @ t \<and> (after_fraction u \<longrightarrow> frac_part (f @ u) = Some (f, u)) \<and> (f = [] \<or> hd f = CHR ''.'')"
  proof (cases "s = [] \<or> hd s \<noteq> CHR ''.''")
    case True
    then have "f = [] \<and> t = s" using assms by (cases s) (auto simp: frac_part_def)
    then show ?thesis by (cases u) (auto simp: frac_part_def after_fraction_def)
  next
    case False
    then obtain r where r: "s = CHR ''.'' # r" by (cases s) auto
    from assms r have f: "digits_of r \<noteq> []" "f = CHR ''.'' # digits_of r" "t = after_digits r"
      by (auto simp: frac_part_def split: if_splits)
    have "frac_part (f @ u) = Some (f, u)" if "after_fraction u"
    proof -
      have "digits_of (digits_of r @ u) = digits_of r" "after_digits (digits_of r @ u) = u"
        using that digits_split(2) [of r] by (auto intro!: digits_of_append simp: after_fraction_def)
      then show ?thesis using f by (simp add: frac_part_def)
    qed
    moreover have "s = f @ t" using r f(2,3) digits_split(1) [of r] by simp
    ultimately show ?thesis using f(2) by simp
  qed
  then show "s = f @ t" and "after_fraction u \<Longrightarrow> frac_part (f @ u) = Some (f, u)" and "f = [] \<or> hd f = CHR ''.''"
    by blast+
qed

lemma int_part_split:
  assumes "int_part s = Some (i, t)"
  shows "s = i @ t" and "u = [] \<or> \<not> is_digit (hd u) \<Longrightarrow> int_part (i @ u) = Some (i, u)"
    and "i \<noteq> [] \<and> is_digit (hd i)"
proof -
  obtain c r where c: "s = c # r" using assms by (cases s) (simp_all add: int_part_def)
  have zero: "is_digit CHR ''0''" by (simp add: is_digit_def)
  have "s = i @ t \<and> (u = [] \<or> \<not> is_digit (hd u) \<longrightarrow> int_part (i @ u) = Some (i, u)) \<and> i \<noteq> [] \<and> is_digit (hd i)"
  proof (cases "c = CHR ''0''")
    case True
    then show ?thesis using assms c zero by (auto simp: int_part_def)
  next
    case False
    then have d: "is_digit c" "i = digits_of s" "t = after_digits s"
      using assms c by (auto simp: int_part_def split: if_splits)
    then obtain ds where ds: "i = c # ds" using c by (simp add: digits_of_def)
    have "int_part (i @ u) = Some (i, u)" if "u = [] \<or> \<not> is_digit (hd u)"
    proof -
      have "digits_of (i @ u) = i" "after_digits (i @ u) = u"
        using that digits_split(2) [of s] d(2) by (auto intro!: digits_of_append)
      then show ?thesis using False d(1) ds by (simp add: int_part_def)
    qed
    moreover have "s = i @ t" using digits_split(1) [of s] d by simp
    ultimately show ?thesis using d(1) ds by simp
  qed
  then show "s = i @ t" and "u = [] \<or> \<not> is_digit (hd u) \<Longrightarrow> int_part (i @ u) = Some (i, u)"
    and "i \<noteq> [] \<and> is_digit (hd i)" by blast+
qed

lemma json_number_split:
  assumes "json_number s = Some (l, t)"
  shows "s = l @ t" and "after_number u \<Longrightarrow> json_number (l @ u) = Some (l, u)"
    and "l \<noteq> [] \<and> (is_digit (hd l) \<or> hd l = CHR ''-'')"
proof -
  obtain m s1 where m: "minus_part s = (m, s1)" by (cases "minus_part s")
  with assms obtain i s2 f s3 e where parts: "int_part s1 = Some (i, s2)" "frac_part s2 = Some (f, s3)"
    "exp_part s3 = Some (e, t)" "l = m @ i @ f @ e"
    by (auto simp: json_number_def split: option.splits)
  have s: "s = m @ s1" "m = [] \<or> m = ''-''"
    using m by (auto simp: minus_part_def split: list.splits if_splits)
  note i = int_part_split [OF parts(1)] and f = frac_part_split [OF parts(2)] and e = exp_part_split [OF parts(3)]
  show "s = l @ t" using s(1) i(1) f(1) e(1) parts(4) by simp
  have start: "is_digit (hd i)" "i \<noteq> []" using i(3) by simp_all
  then show "l \<noteq> [] \<and> (is_digit (hd l) \<or> hd l = CHR ''-'')" using parts(4) s(2) by auto
  assume u: "after_number u"
  have no_digit: "\<not> is_digit CHR ''e''" "\<not> is_digit CHR ''E''" "\<not> is_digit CHR ''.''" by (simp_all add: is_digit_def)
  have fr: "after_fraction (e @ u)"
    using e(3) u no_digit by (cases e) (auto simp: after_fraction_def after_number_def)
  have ir: "f @ e @ u = [] \<or> \<not> is_digit (hd (f @ e @ u))"
    using f(3) fr no_digit by (cases f) (auto simp: after_fraction_def)
  have "hd i \<noteq> CHR ''-''" using start(1) sign_not_digit by auto
  then have "minus_part (m @ i @ f @ e @ u) = (m, i @ f @ e @ u)"
    using s(2) start(2) by (cases i) (auto simp: minus_part_def)
  then show "json_number (l @ u) = Some (l, u)"
    using i(2) [OF ir] f(2) [OF fr] e(2) [OF u] parts(4) by (simp add: json_number_def)
qed

lemma value_text_number:
  assumes "json_number s = Some (l, t)"
  shows "value_text 0 l"
  unfolding value_text_def
proof (intro conjI allI impI)
  note l = json_number_split [OF assms]
  show "l \<noteq> []" "\<not> json_ws (hd l)"
    using l(3) by (auto simp: json_ws_def is_digit_def)
  fix u d n assume u: "separated u" and "2 * length (l @ u) < n"
  then obtain m where m: "n = Suc m" by (cases n) auto
  obtain c r where c: "l = c # r" "is_digit c \<or> c = CHR ''-''" using l(3) by (cases l) auto
  then have "c \<notin> {CHR 0x22, CHR ''['', CHR ''{'', CHR ''n'', CHR ''t'', CHR ''f''}" by (auto simp: is_digit_def)
  then show "\<exists>v. json_value n d (l @ u) = Some (v, u)"
    using l(2) [OF separated_after_number [OF u]] c(1) by (simp add: m)
qed

lemma dec_digits_zero: "hd (dec_digits n) = CHR ''0'' \<Longrightarrow> n = 0"
proof (induction n rule: dec_digits.induct)
  case (1 n)
  show ?case
  proof (cases "n < 10")
    case True
    then have "digit_val (digit_char n) = n" by simp
    moreover have "digit_val CHR ''0'' = 0" by (simp add: digit_val_def)
    moreover have "digit_char n = CHR ''0''" using "1.prems" True by (subst (asm) dec_digits.simps) simp
    ultimately show ?thesis by simp
  next
    case False
    then have "n div 10 = 0" using 1 by (subst (asm) (2) dec_digits.simps) simp
    with False show ?thesis by simp
  qed
qed

lemma json_number_FormatInt: "json_number (FormatInt w) = Some (FormatInt w, [])"
proof -
  have "int_part (dec_digits n) = Some (dec_digits n, [])" for n
  proof -
    obtain c r where c: "dec_digits n = c # r" by (meson dec_digits_nonempty neq_Nil_conv)
    have all: "\<forall>c \<in> set (dec_digits n). is_digit c" by (rule dec_digits_are_digits)
    show ?thesis
    proof (cases "c = CHR ''0''")
      case True
      then have "n = 0" using dec_digits_zero [of n] c by simp
      then have "r = []" using c by (subst (asm) dec_digits.simps) simp
      then show ?thesis using True c by (simp add: int_part_def)
    next
      case False
      then show ?thesis
        using c all digits_of_append [of "dec_digits n" "[]"] by (simp add: int_part_def)
    qed
  qed
  moreover have "minus_part (dec_digits n) = ([], dec_digits n)" for n
  proof -
    obtain c r where c: "dec_digits n = c # r" by (meson dec_digits_nonempty neq_Nil_conv)
    then have "is_digit c" using dec_digits_are_digits [of n] by simp
    then have "c \<noteq> CHR ''-''" using sign_not_digit by auto
    then show ?thesis by (simp add: c minus_part_def)
  qed
  moreover have "minus_part (CHR ''-'' # r) = (''-'', r)" "frac_part [] = Some ([], [])" "exp_part [] = Some ([], [])" for r
    by (simp_all add: minus_part_def frac_part_def exp_part_def)
  ultimately show ?thesis
    by (simp add: FormatInt_def format_int_def json_number_def)
qed

lemma value_text_FormatInt: "value_text 0 (FormatInt w)"
  by (rule value_text_number [OF json_number_FormatInt])

lemma value_text_null: "value_text 0 null"
  unfolding value_text_def null_def
  by (auto simp: gr0_conv_Suc json_ws_def dest!: less_imp_Suc_add)

lemma value_text_string: "value_text 0 (string_text s)"
  unfolding value_text_def string_text_def
  using json_chars_encode [of s] by (auto simp: gr0_conv_Suc dest!: less_imp_Suc_add)


subsection \<open>Arrays and objects\<close>

fun comma_join :: "string list \<Rightarrow> string" where
  "comma_join [] = []"
| "comma_join [s] = s"
| "comma_join (s # t # ss) = s @ CHR '','' # comma_join (t # ss)"

definition array_text :: "string list \<Rightarrow> string" where
  "array_text raws = CHR ''['' # comma_join raws @ '']''"

definition member_text :: "string \<times> string \<Rightarrow> string" where
  "member_text m = string_text (fst m) @ CHR '':'' # snd m"

definition object_text :: "(string \<times> string) list \<Rightarrow> string" where
  "object_text ms = CHR ''{'' # comma_join (map member_text ms) @ ''}''"

lemma raw_value_text:
  assumes "value_text k q" and "k \<le> max_nesting" and "separated t"
  shows "raw_value (q @ t) = Some (q, t)"
  using value_textD [OF assms(1,3), of 0 "2 * length (q @ t) + 1"] assms(2)
  by (auto simp: raw_value_def simp del: json_value.simps)

lemma elements_text_join:
  assumes "raws \<noteq> []" and "\<forall>raw \<in> set raws. value_text k raw" and "k \<le> max_nesting"
  shows "elements_text k (comma_join raws @ '']'')"
  using assms
  by (induction raws rule: comma_join.induct) (simp_all add: elements_text_one elements_text_more)

lemma raw_elements_join:
  assumes "raws \<noteq> []" and "\<forall>raw \<in> set raws. value_text k raw" and "k \<le> max_nesting"
  shows "raw_elements (comma_join raws @ '']'') = Some raws"
  using assms
proof (induction raws rule: comma_join.induct)
  case (2 s)
  then have "raw_value (s @ '']'') = Some (s, '']'')" by (intro raw_value_text) simp_all
  then show ?case by (subst raw_elements.simps) simp
next
  case (3 s t ss)
  let ?rest = "comma_join (t # ss) @ '']''"
  have "raw_value (s @ CHR '','' # ?rest) = Some (s, CHR '','' # ?rest)"
    using "3.prems" by (intro raw_value_text [of k]) simp_all
  moreover have "skip_ws ?rest = ?rest"
    using elements_text_join [of "t # ss" k] "3.prems" skip_ws_fix [of ?rest "[]"] by (simp add: elements_text_def)
  ultimately show ?case using 3 by (subst raw_elements.simps) simp
qed simp

lemma value_text_array_text:
  assumes "\<forall>raw \<in> set raws. value_text k raw" and "k \<le> max_nesting"
  shows "value_text (Suc k) (array_text raws)"
proof (cases "raws = []")
  case True
  then show ?thesis using value_text_mono [OF value_text_empty(1)] by (simp add: array_text_def)
next
  case False
  then show ?thesis using elements_text_join [OF False assms] by (simp add: array_text_def value_text_array)
qed

lemma raw_array_text:
  assumes "\<forall>raw \<in> set raws. value_text k raw" and "k \<le> max_nesting"
  shows "raw_array (array_text raws) = Some raws"
proof (cases "raws = []")
  case True
  then show ?thesis by (simp add: array_text_def raw_array_def)
next
  case False
  let ?es = "comma_join raws @ '']''"
  have es: "?es \<noteq> []" "\<not> json_ws (hd ?es)" "hd ?es \<noteq> CHR '']''"
    using elements_text_join [OF False assms] unfolding elements_text_def by blast+
  then have "skip_ws ?es = ?es" "expect_char CHR '']'' ?es = None"
    using skip_ws_fix [of ?es "[]"] by (auto simp: expect_char_def split: list.split)
  then show ?thesis using raw_elements_join [OF False assms] by (simp add: array_text_def raw_array_def)
qed

lemma member_text_reads:
  assumes "value_text k raw" and "k \<le> max_nesting" and "separated t"
  shows "raw_member (member_text (name, raw) @ t) = Some ((utf8_repair name, raw), skip_ws t)"
  using json_chars_encode [of name "CHR '':'' # raw @ t"] value_text_start [OF assms(1)] raw_value_text [OF assms]
  by (simp add: raw_member_def member_text_def string_text_def)

text \<open>A member with any text of its key.\<close>

lemma members_text_one:
  assumes key: "\<And>u. \<exists>name. json_chars (kt @ u) = Some (name, u)" and "value_text k raw" and "k \<le> max_nesting"
  shows "members_text k (CHR 0x22 # kt @ CHR '':'' # raw @ ''}'')"
  unfolding members_text_def
proof (intro conjI allI impI)
  fix t d n assume d: "d + k \<le> max_nesting" and n: "2 * length ((CHR 0x22 # kt @ CHR '':'' # raw @ ''}'') @ t) + 1 < n"
  then obtain m where m: "n = Suc m" by (cases n) auto
  obtain name where "json_chars (kt @ CHR '':'' # raw @ CHR ''}'' # t) = Some (name, CHR '':'' # raw @ CHR ''}'' # t)"
    using key by blast
  moreover obtain v where "json_value m d (raw @ CHR ''}'' # t) = Some (v, CHR ''}'' # t)"
    using value_textD [OF assms(2), of "CHR ''}'' # t" d m] d n m by (auto simp del: json_value.simps)
  ultimately show "\<exists>ms. json_members n d ((CHR 0x22 # kt @ CHR '':'' # raw @ ''}'') @ t) = Some (ms, t)"
    using value_text_start [OF assms(2), of "CHR ''}'' # t"] by (simp add: m del: json_value.simps)
qed simp_all

lemma members_text_more:
  assumes key: "\<And>u. \<exists>name. json_chars (kt @ u) = Some (name, u)" and "value_text k raw" and "k \<le> max_nesting"
    and "members_text k ms"
  shows "members_text k (CHR 0x22 # kt @ CHR '':'' # raw @ CHR '','' # ms)"
  unfolding members_text_def
proof (intro conjI allI impI)
  fix t d n assume d: "d + k \<le> max_nesting"
    and n: "2 * length ((CHR 0x22 # kt @ CHR '':'' # raw @ CHR '','' # ms) @ t) + 1 < n"
  then obtain m where m: "n = Suc m" by (cases n) auto
  let ?rest = "raw @ CHR '','' # ms @ t"
  obtain name where "json_chars (kt @ CHR '':'' # ?rest) = Some (name, CHR '':'' # ?rest)" using key by blast
  moreover obtain v where "json_value m d ?rest = Some (v, CHR '','' # ms @ t)"
    using value_textD [OF assms(2), of "CHR '','' # ms @ t" d m] d n m by (auto simp del: json_value.simps)
  moreover have "2 * length (ms @ t) + 1 < m" using n m by simp
  then obtain ms' where "json_members m d (ms @ t) = Some (ms', t)"
    using assms(4) d unfolding members_text_def by blast
  moreover have "skip_ws (ms @ t) = ms @ t" using assms(4) by (intro skip_ws_fix) (auto simp: members_text_def)
  ultimately show "\<exists>vs. json_members n d ((CHR 0x22 # kt @ CHR '':'' # raw @ CHR '','' # ms) @ t) = Some (vs, t)"
    using value_text_start [OF assms(2), of "CHR '','' # ms @ t"] by (simp add: m del: json_value.simps)
qed simp_all

lemma member_text_start: "\<exists>r. member_text m @ t = CHR 0x22 # r"
  by (simp add: member_text_def string_text_def)

lemma members_join_start: "ms \<noteq> [] \<Longrightarrow> \<exists>r. comma_join (map member_text ms) @ t = CHR 0x22 # r"
proof (cases ms)
  case (Cons m ms')
  then show ?thesis using member_text_start [of m] by (cases ms') simp_all
qed simp

lemma members_text_join:
  assumes "ms \<noteq> []" and "\<forall>m \<in> set ms. value_text k (snd m)" and "k \<le> max_nesting"
  shows "members_text k (comma_join (map member_text ms) @ ''}'')"
  using assms(1,2)
proof (induction ms)
  case (Cons m ms)
  let ?key = "encode_chars (fst m) @ [CHR 0x22]"
  have key: "\<exists>name. json_chars (?key @ u) = Some (name, u)" for u using json_chars_encode [of "fst m" u] by simp
  have raw: "value_text k (snd m)" using Cons.prems by simp
  show ?case
  proof (cases ms)
    case Nil
    then show ?thesis
      using members_text_one [of ?key, OF key raw assms(3)] by (simp add: member_text_def string_text_def)
  next
    case (Cons m' ms')
    then have "members_text k (comma_join (map member_text ms) @ ''}'')" using Cons.IH Cons.prems by simp
    from members_text_more [of ?key, OF key raw assms(3) this] show ?thesis
      by (simp add: member_text_def [of m] string_text_def Cons)
  qed
qed simp

lemma raw_members_join:
  assumes "ms \<noteq> []" and "\<forall>m \<in> set ms. value_text k (snd m)" and "k \<le> max_nesting"
  shows "raw_members (comma_join (map member_text ms) @ ''}'') = Some (map (apfst utf8_repair) ms)"
  using assms(1,2)
proof (induction ms)
  case (Cons m ms)
  obtain name raw where m: "m = (name, raw)" "value_text k raw" using Cons.prems(2) by (cases m) auto
  show ?case
  proof (cases ms)
    case Nil
    then show ?thesis
      using member_text_reads [OF m(2) assms(3), of "''}''" name] by (subst raw_members.simps) (simp add: m(1))
  next
    case (Cons m' ms')
    let ?rest = "comma_join (map member_text ms) @ ''}''"
    obtain r where "?rest = CHR 0x22 # r" using members_join_start [of ms] Cons by blast
    then have "skip_ws ?rest = ?rest" by simp
    moreover have "raw_members ?rest = Some (map (apfst utf8_repair) ms)"
      using Cons.IH Cons.prems(2) Cons by simp
    moreover have "comma_join (map member_text (m # ms)) @ ''}'' = member_text (name, raw) @ CHR '','' # ?rest"
      using Cons m by simp
    ultimately show ?thesis
      using member_text_reads [OF m(2) assms(3), of "CHR '','' # ?rest" name]
      by (subst raw_members.simps) (simp add: m(1))
  qed
qed simp

lemma value_text_object_text:
  assumes "\<forall>m \<in> set ms. value_text k (snd m)" and "k \<le> max_nesting"
  shows "value_text (Suc k) (object_text ms)"
proof (cases "ms = []")
  case True
  then show ?thesis using value_text_mono [OF value_text_empty(2)] by (simp add: object_text_def)
next
  case False
  then show ?thesis using members_text_join [OF False assms] by (simp add: object_text_def value_text_object)
qed

lemma raw_object_text:
  assumes "\<forall>m \<in> set ms. value_text k (snd m)" and "k \<le> max_nesting"
  shows "raw_object (object_text ms) = Some (map (apfst utf8_repair) ms)"
proof (cases "ms = []")
  case True
  then show ?thesis by (simp add: object_text_def raw_object_def)
next
  case False
  obtain r where r: "comma_join (map member_text ms) @ ''}'' = CHR 0x22 # r"
    using members_join_start [OF False] by blast
  then show ?thesis
    using raw_members_join [OF False assms] by (simp add: object_text_def raw_object_def expect_char_def)
qed

end
