(* ===== verification/JsonCompact.thy ===== *)
theory JsonCompact
  imports JsonTexts
begin

text \<open>
  What \<open>json.Marshal\<close> does with a \<open>json.RawMessage\<close>: a text that is one JSON value is written
  without its white space and with the escapes for HTML and JavaScript, and any other is an
  error. The compacted text is one value again, of the same nesting.
\<close>

subsection \<open>The end of a string\<close>

text \<open>What follows the closing quote, as the scanner finds it byte by byte.\<close>

function string_end :: "string \<Rightarrow> string option" where
  "string_end [] = None"
| "string_end (c # s) =
     (if c = CHR 0x22 then Some s
      else if (of_char c :: nat) < 32 then None
      else if c = CHR 0x5C then
        (case s of
           [] \<Rightarrow> None
         | e # s1 \<Rightarrow>
             (if e = CHR ''u'' then (case hex4 s1 of None \<Rightarrow> None | Some (_, s2) \<Rightarrow> string_end s2)
              else if simple_escape e = None then None else string_end s1))
      else string_end s)"
  by pat_completeness auto
termination by (relation "measure length") (auto dest: hex4_shorter)

declare string_end.simps(2) [simp del]

lemma string_end_high:
  assumes "128 \<le> (of_char c :: nat)"
  shows "string_end (c # s) = string_end s"
proof -
  have "c \<noteq> CHR 0x22" "c \<noteq> CHR 0x5C" "\<not> (of_char c :: nat) < 32" using assms by auto
  then show ?thesis by (simp add: string_end.simps)
qed

lemma string_end_highs: "\<forall>c \<in> set p. 128 \<le> (of_char c :: nat) \<Longrightarrow> string_end (p @ s) = string_end s"
  by (induction p) (simp_all add: string_end_high)

lemma byte_between_high: "byte_between lo hi c \<Longrightarrow> 128 \<le> lo \<Longrightarrow> 128 \<le> (of_char c :: nat)"
  by (simp add: byte_between_def)

lemma utf8_bytes4:
  assumes "utf8_len (c # d # e # f # r) = 4"
  shows "128 \<le> (of_char c :: nat) \<and> 128 \<le> (of_char d :: nat) \<and> 128 \<le> (of_char e :: nat) \<and> 128 \<le> (of_char f :: nat)"
proof -
  have "((c = CHR 0xF0 \<and> byte_between 144 191 d) \<or> (c = CHR 0xF4 \<and> byte_between 128 143 d)
                \<or> (byte_between 241 243 c \<and> byte_between 128 191 d))
                \<and> byte_between 128 191 e \<and> byte_between 128 191 f"
    using assms unfolding utf8_len_def list.case by (simp split: if_splits)
  then show ?thesis by (elim conjE disjE) (simp_all add: byte_between_high)
qed

lemma utf8_bytes3:
  assumes "utf8_len (c # d # e # r) = 3"
  shows "128 \<le> (of_char c :: nat) \<and> 128 \<le> (of_char d :: nat) \<and> 128 \<le> (of_char e :: nat)"
proof -
  have "((c = CHR 0xE0 \<and> byte_between 160 191 d) \<or> (c = CHR 0xED \<and> byte_between 128 159 d)
                \<or> ((byte_between 225 236 c \<or> byte_between 238 239 c) \<and> byte_between 128 191 d))
                \<and> byte_between 128 191 e"
    using assms unfolding utf8_len_def list.case by (cases r) (simp_all split: if_splits)
  then show ?thesis by (elim conjE disjE) (simp_all add: byte_between_high)
qed

lemma utf8_bytes2:
  assumes "utf8_len (c # d # r) = 2"
  shows "128 \<le> (of_char c :: nat) \<and> 128 \<le> (of_char d :: nat)"
proof -
  have "byte_between 194 223 c \<and> byte_between 128 191 d"
    using assms unfolding utf8_len_def list.case by (simp split: if_splits list.splits)
  then show ?thesis by (elim conjE disjE) (simp_all add: byte_between_high)
qed

lemma utf8_len_high: "\<forall>c \<in> set (take (utf8_len s) s). 128 \<le> (of_char c :: nat)"
proof -
  have "\<exists>p r. s = p @ r \<and> length p = utf8_len s \<and> (\<forall>c \<in> set p. 128 \<le> (of_char c :: nat))"
  proof -
    consider "utf8_len s = 0" | "0 < utf8_len s" by blast
    then show ?thesis
    proof cases
      case 1
      then show ?thesis by (intro exI [of _ "[]"] exI [of _ s]) simp
    next
      case 2
      then show ?thesis
      proof (cases rule: utf8_len_cases)
        case (two c d r)
        with utf8_bytes2 [of c d r] show ?thesis by (intro exI [of _ "[c, d]"] exI [of _ r]) simp
      next
        case (three c d e r)
        with utf8_bytes3 [of c d e r] show ?thesis by (intro exI [of _ "[c, d, e]"] exI [of _ r]) simp
      next
        case (four c d e f r)
        with utf8_bytes4 [of c d e f r] show ?thesis by (intro exI [of _ "[c, d, e, f]"] exI [of _ r]) simp
      qed
    qed
  qed
  then obtain p r where p: "s = p @ r" "length p = utf8_len s" "\<forall>c \<in> set p. 128 \<le> (of_char c :: nat)"
    by blast
  then have "take (utf8_len s) s = p" by (metis append_eq_conv_conj)
  with p(3) show ?thesis by simp
qed

lemma string_end_rune:
  assumes "0 < utf8_len (c # s)"
  shows "string_end (c # s) = string_end (drop (utf8_len (c # s) - 1) s)"
proof -
  have "drop (utf8_len (c # s)) (c # s) = drop (utf8_len (c # s) - 1) s"
    using assms by (simp only: drop_Cons') (simp only: neq0_conv [symmetric] if_False)
  then show ?thesis
    using string_end_highs [OF utf8_len_high [of "c # s"], of "drop (utf8_len (c # s)) (c # s)"]
    unfolding append_take_drop_id by simp
qed

lemma string_end_unicode:
  "string_end (CHR 0x5C # CHR ''u'' # s) = (case hex4 s of None \<Rightarrow> None | Some (_, s2) \<Rightarrow> string_end s2)"
  by (simp add: string_end.simps del: hex4.simps)

lemma unicode_escape_end:
  "(case unicode_escape s of None \<Rightarrow> None | Some (u, t) \<Rightarrow> string_end t) = string_end (CHR 0x5C # CHR ''u'' # s)"
  unfolding unicode_escape_def string_end_unicode
  by (auto simp: string_end_unicode split: option.splits list.splits prod.splits)

lemma json_chars_end: "map_option snd (json_chars s) = string_end s"
proof (induction s rule: length_induct)
  case (1 s)
  have IH: "map_option snd (json_chars r) = string_end r" if "length r < length s" for r
    using "1.IH" that by blast
  have pre: "map_option snd (prepend p r) = map_option snd r" for p and r :: "(string \<times> string) option"
    by (cases r) (auto simp: prepend_def)
  show ?case
  proof (cases s)
    case Nil
    then show ?thesis by (simp add: json_chars_unfold)
  next
    case (Cons c r)
    consider (quote) "c = CHR 0x22" | (control) "c \<noteq> CHR 0x22" "(of_char c :: nat) < 32"
      | (escape) "c = CHR 0x5C" | (plain) "c \<noteq> CHR 0x22" "c \<noteq> CHR 0x5C" "\<not> (of_char c :: nat) < 32" "(of_char c :: nat) < 128"
      | (high) "\<not> (of_char c :: nat) < 128" by blast
    then show ?thesis
    proof cases
      case escape
      show ?thesis
      proof (cases r)
        case Nil
        then show ?thesis using Cons escape by (simp add: json_chars_unfold string_end.simps)
      next
        case (Cons e r')
        note s = \<open>s = c # r\<close> Cons escape
        show ?thesis
        proof (cases "e = CHR ''u''")
          case True
          have "map_option snd (json_chars s) =
              (case unicode_escape r' of None \<Rightarrow> None | Some (u, t) \<Rightarrow> string_end t)"
            using IH unicode_escape_shorter
            by (fastforce simp: s True json_chars_backslash(2) pre split: option.split)
          then show ?thesis by (simp only: unicode_escape_end) (simp add: s True)
        next
          case False
          then show ?thesis
            using IH [of r'] by (simp add: s json_chars_unfold string_end.simps pre split: option.split)
        qed
      qed
    next
      case high
      then have c: "c \<noteq> CHR 0x22" "c \<noteq> CHR 0x5C" "\<not> (of_char c :: nat) < 32" "128 \<le> (of_char c :: nat)" by auto
      show ?thesis
      proof (cases "utf8_len (c # r) = 0")
        case True
        then show ?thesis using c IH [of r] Cons by (simp add: json_chars_unfold pre string_end_high)
      next
        case False
        have "json_chars (c # r) = prepend (take (utf8_len (c # r)) (c # r)) (json_chars (drop (utf8_len (c # r) - 1) r))"
          using c False by (subst json_chars_unfold) (simp only: if_False not_less simp_thms, simp)
        then show ?thesis
          using IH [of "drop (utf8_len (c # r) - 1) r"] False Cons string_end_rune [of c r] by (simp add: pre)
      qed
    qed (use Cons IH [of r] in \<open>simp_all add: json_chars_unfold string_end.simps pre\<close>)
  qed
qed

lemma json_chars_string_end: "(\<exists>v. json_chars s = Some (v, t)) \<longleftrightarrow> string_end s = Some t"
  using json_chars_end [of s] by (cases "json_chars s") auto


subsection \<open>Compacting\<close>

text \<open>\<open>appendCompact\<close>, with whether the position is inside a string.\<close>

function compact :: "bool \<Rightarrow> string \<Rightarrow> string" where
  "compact inside [] = []"
| "compact inside (c # s) =
     (if \<not> inside then (if json_ws c then compact False s else c # compact (c = CHR 0x22) s)
      else if c = CHR 0x22 then c # compact False s
      else if c = CHR 0x5C then (case s of [] \<Rightarrow> [c] | e # s' \<Rightarrow> c # e # compact True s')
      else if c \<in> {CHR ''<'', CHR ''>'', CHR ''&''} then unicode_text (of_char c) @ compact True s
      else if c = CHR 0xE2 \<and> HasPrefix s [CHR 0x80, CHR 0xA8] then unicode_text 8232 @ compact True (drop 2 s)
      else if c = CHR 0xE2 \<and> HasPrefix s [CHR 0x80, CHR 0xA9] then unicode_text 8233 @ compact True (drop 2 s)
      else c # compact True s)"
  by pat_completeness auto
termination by (relation "measure (\<lambda>(_, s). length s)") auto

declare compact.simps(2) [simp del]

text \<open>The rest \<open>p\<close> of a string with its closing quote, and what it becomes.\<close>

definition string_part :: "string \<Rightarrow> string \<Rightarrow> bool" where
  "string_part p q \<longleftrightarrow> p \<noteq> [] \<and> last p = CHR 0x22 \<and>
     (\<forall>t. compact True (p @ t) = q @ compact False t) \<and> (\<forall>t. string_end (q @ t) = Some t)"

lemma string_part_quote: "string_part [CHR 0x22] [CHR 0x22]"
  by (simp add: string_part_def compact.simps string_end.simps)

lemma string_part_plain:
  assumes "string_part p q" and "c \<notin> {CHR 0x22, CHR 0x5C, CHR ''<'', CHR ''>'', CHR ''&''}"
    and "32 \<le> (of_char c :: nat)"
    and "c = CHR 0xE2 \<Longrightarrow> \<not> HasPrefix (p @ t) [CHR 0x80, CHR 0xA8] \<and> \<not> HasPrefix (p @ t) [CHR 0x80, CHR 0xA9]"
  shows "string_part (c # p) (c # q)"
proof -
  have "\<not> HasPrefix (p @ u) [CHR 0x80, CHR 0xA8] \<and> \<not> HasPrefix (p @ u) [CHR 0x80, CHR 0xA9]"
    if "c = CHR 0xE2" for u
    using assms(4) [OF that] assms(1) by (cases p; cases "tl p") (auto simp: string_part_def)
  then have "compact True (c # p @ u) = c # compact True (p @ u)" for u
    using assms(2) by (subst compact.simps) (simp; blast)
  moreover have "string_end (c # q @ u) = string_end (q @ u)" for u
    using assms(2,3) by (simp add: string_end.simps)
  ultimately show ?thesis using assms(1) by (simp add: string_part_def)
qed

lemma string_end_unicode_text:
  assumes "n < 65536"
  shows "string_end (unicode_text n @ t) = string_end t"
  using hex4_unicode_text [OF assms, of t] by (simp add: unicode_text_def string_end_unicode del: hex4.simps)

lemma string_part_html:
  assumes "string_part p q" and "c \<in> {CHR ''<'', CHR ''>'', CHR ''&''}"
  shows "string_part (c # p) (unicode_text (of_char c) @ q)"
proof -
  have "compact True (c # p @ u) = unicode_text (of_char c) @ compact True (p @ u)" for u
    using assms(2) by (auto simp: compact.simps)
  moreover have "(of_char c :: nat) < 65536" using assms(2) by auto
  ultimately show ?thesis using assms(1) by (simp add: string_part_def string_end_unicode_text)
qed

lemma string_part_separator:
  assumes "string_part p q" and "(c, n) = (CHR 0xA8, 8232) \<or> (c, n) = (CHR 0xA9, 8233)"
  shows "string_part (CHR 0xE2 # CHR 0x80 # c # p) (unicode_text n @ q)"
proof -
  have "compact True (CHR 0xE2 # CHR 0x80 # c # p @ u) = unicode_text n @ compact True (p @ u)" for u
    using assms(2) by (auto simp: compact.simps)
  moreover have "n < 65536" using assms(2) by auto
  ultimately show ?thesis using assms(1) by (simp add: string_part_def string_end_unicode_text)
qed

lemma string_part_escape:
  assumes "string_part p q" and "e \<noteq> CHR ''u''" and "simple_escape e \<noteq> None"
  shows "string_part (CHR 0x5C # e # p) (CHR 0x5C # e # q)"
proof -
  have "compact True (CHR 0x5C # e # p @ u) = CHR 0x5C # e # compact True (p @ u)" for u
    by (simp add: compact.simps)
  moreover have "string_end (CHR 0x5C # e # q @ u) = string_end (q @ u)" for u
    using assms(2,3) by (auto simp: string_end.simps)
  ultimately show ?thesis using assms(1) by (simp add: string_part_def)
qed

lemma hex_val_plain:
  assumes "hex_val c = Some v"
  shows "c \<notin> {CHR 0x22, CHR 0x5C, CHR ''<'', CHR ''>'', CHR ''&'', CHR 0xE2}" "32 \<le> (of_char c :: nat)"
  using assms by (auto simp: hex_val_def Let_def split: if_splits)

lemma hex4_split:
  assumes "hex4 s = Some (r, t)"
  obtains a b c d where "s = a # b # c # d # t" "\<And>u. hex4 (a # b # c # d # u) = Some (r, u)"
    "hex_val a \<noteq> None" "hex_val b \<noteq> None" "hex_val c \<noteq> None" "hex_val d \<noteq> None"
  using assms by (cases s rule: hex4.cases) (auto split: option.splits)

lemma string_part_unicode:
  assumes "string_part p q" and "\<And>u. hex4 (a # b # c # d # u) = Some (r, u)"
    and "hex_val a \<noteq> None" "hex_val b \<noteq> None" "hex_val c \<noteq> None" "hex_val d \<noteq> None"
  shows "string_part (CHR 0x5C # CHR ''u'' # a # b # c # d # p) (CHR 0x5C # CHR ''u'' # a # b # c # d # q)"
proof -
  have hex: "compact True (x # u) = x # compact True u" if "hex_val x \<noteq> None" for x u
  proof -
    have "x \<notin> {CHR 0x22, CHR 0x5C, CHR ''<'', CHR ''>'', CHR ''&'', CHR 0xE2}" using that hex_val_plain(1) by blast
    then show ?thesis by (subst compact.simps) simp
  qed
  have "compact True (CHR 0x5C # CHR ''u'' # a # b # c # d # p @ u) =
      CHR 0x5C # CHR ''u'' # a # b # c # d # compact True (p @ u)" for u
    using hex assms(3-6) by (subst compact.simps) simp
  moreover have "string_end (CHR 0x5C # CHR ''u'' # a # b # c # d # q @ u) = string_end (q @ u)" for u
    by (simp add: string_end_unicode assms(2) del: hex4.simps)
  ultimately show ?thesis using assms(1) by (simp add: string_part_def)
qed

lemma string_end_part:
  assumes "string_end s = Some t"
  obtains p q where "s = p @ t" "string_part p q"
proof -
  have "\<exists>p q. s = p @ t \<and> string_part p q"
    using assms
  proof (induction s rule: length_induct)
    case (1 s)
    have IH: "\<exists>p q. r = p @ t \<and> string_part p q" if "string_end r = Some t" "length r < length s" for r
      using "1.IH" that by blast
    obtain c r where s: "s = c # r" using "1.prems" by (cases s) auto
    consider (quote) "c = CHR 0x22" | (escape) "c = CHR 0x5C"
      | (html) "c \<in> {CHR ''<'', CHR ''>'', CHR ''&''}"
      | (separator) d n r' where "c = CHR 0xE2" "r = CHR 0x80 # d # r'" "(d, n :: nat) = (CHR 0xA8, 8232) \<or> (d, n) = (CHR 0xA9, 8233)"
      | (plain) "c \<notin> {CHR 0x22, CHR 0x5C, CHR ''<'', CHR ''>'', CHR ''&''}"
          "c = CHR 0xE2 \<Longrightarrow> \<not> HasPrefix r [CHR 0x80, CHR 0xA8] \<and> \<not> HasPrefix r [CHR 0x80, CHR 0xA9]"
      by (auto simp: HasPrefix_iff)
    then show ?case
    proof cases
      case quote
      then have "s = [CHR 0x22] @ t" using "1.prems" s by (simp add: string_end.simps)
      then show ?thesis using string_part_quote by blast
    next
      case escape
      then obtain e r1 where r: "r = e # r1" using "1.prems" s by (cases r) (auto simp: string_end.simps)
      show ?thesis
      proof (cases "e = CHR ''u''")
        case True
        then obtain v r2 where "hex4 r1 = Some (v, r2)" and r2: "string_end r2 = Some t"
          using "1.prems" s escape r by (auto simp: string_end_unicode simp del: hex4.simps split: option.splits)
        then obtain a b c' d where hex: "r1 = a # b # c' # d # r2" "\<And>u. hex4 (a # b # c' # d # u) = Some (v, u)"
          "hex_val a \<noteq> None" "hex_val b \<noteq> None" "hex_val c' \<noteq> None" "hex_val d \<noteq> None"
          using hex4_split by blast
        obtain p q where "r2 = p @ t" "string_part p q" using IH [OF r2] s r hex(1) by auto
        with string_part_unicode [OF this(2) hex(2-6)] s escape r True hex(1) show ?thesis by auto
      next
        case False
        then have "simple_escape e \<noteq> None" "string_end r1 = Some t"
          using "1.prems" s escape r by (auto simp: string_end.simps split: if_splits)
        then show ?thesis using IH [of r1] s r escape string_part_escape [OF _ False] by fastforce
      qed
    next
      case html
      then have "string_end r = Some t" using "1.prems" s by (auto simp: string_end.simps)
      then show ?thesis using IH [of r] s string_part_html [OF _ html] by fastforce
    next
      case (separator d n r')
      then have "string_end r' = Some t" using "1.prems" s by (auto simp: string_end_high)
      then obtain p q where "r' = p @ t" "string_part p q" using IH [of r'] s separator by auto
      with string_part_separator [OF this(2) separator(3)] separator(1,2) s show ?thesis by auto
    next
      case plain
      then have c: "32 \<le> (of_char c :: nat)" "string_end r = Some t"
        using "1.prems" s by (auto simp: string_end.simps split: if_splits)
      then obtain p q where p: "r = p @ t" "string_part p q" using IH [of r] s by auto
      from string_part_plain [OF p(2) plain(1) c(1), of t] plain(2) p(1) s show ?thesis by auto
    qed
  qed
  then show thesis using that by blast
qed


subsection \<open>Values\<close>

text \<open>The arrays and objects that are open at the innermost value.\<close>

fun json_nest :: "json \<Rightarrow> nat" where
  "json_nest (JArray vs) = Suc (foldr max (map json_nest vs) 0)"
| "json_nest (JObject ms) = Suc (foldr max (map (\<lambda>m. json_nest (snd m)) ms) 0)"
| "json_nest _ = 0"

definition compacts :: "string \<Rightarrow> string \<Rightarrow> bool" where
  "compacts p q \<longleftrightarrow> (\<forall>t. compact False (p @ t) = q @ compact False t)"

lemma compacts_append: "compacts p q \<Longrightarrow> compacts p' q' \<Longrightarrow> compacts (p @ p') (q @ q')"
  by (simp add: compacts_def)

lemma compacts_ws: "compacts (takeWhile json_ws s) []"
proof -
  have "\<forall>c \<in> set p. json_ws c \<Longrightarrow> compact False (p @ t) = compact False t" for p t
    by (induction p) (simp_all add: compact.simps)
  then show ?thesis by (auto simp: compacts_def dest: set_takeWhileD)
qed

lemma compacts_char: "\<not> json_ws c \<Longrightarrow> c \<noteq> CHR 0x22 \<Longrightarrow> compacts [c] [c]"
  by (simp add: compacts_def compact.simps)

lemma compacts_plain: "\<forall>c \<in> set p. \<not> json_ws c \<and> c \<noteq> CHR 0x22 \<Longrightarrow> compacts p p"
  by (induction p) (simp_all add: compacts_def compact.simps)

lemma compacts_string: "string_part p q \<Longrightarrow> compacts (CHR 0x22 # p) (CHR 0x22 # q)"
  by (simp add: compacts_def string_part_def compact.simps)

lemma ws_split: "s = takeWhile json_ws s @ skip_ws s"
  by (simp add: skip_ws_def)

lemma json_chars_part:
  assumes "json_chars s = Some (v, t)"
  obtains p q where "s = p @ t" "compacts (CHR 0x22 # p) (CHR 0x22 # q)" "\<And>u. \<exists>w. json_chars (q @ u) = Some (w, u)"
proof -
  have "string_end s = Some t" using assms json_chars_string_end by blast
  then obtain p q where p: "s = p @ t" "string_part p q" by (rule string_end_part)
  from p(2) have "\<And>u. \<exists>w. json_chars (q @ u) = Some (w, u)"
    by (simp add: json_chars_string_end string_part_def)
  with p show thesis using that compacts_string by blast
qed

definition number_char :: "char \<Rightarrow> bool" where
  "number_char c \<longleftrightarrow> is_digit c \<or> c \<in> {CHR ''-'', CHR ''+'', CHR ''.'', CHR ''e'', CHR ''E''}"

lemma json_number_chars:
  assumes "json_number s = Some (l, t)"
  shows "\<forall>c \<in> set l. number_char c"
proof -
  obtain m s1 where m: "minus_part s = (m, s1)" by (cases "minus_part s")
  with assms obtain i s2 f s3 e where parts: "int_part s1 = Some (i, s2)" "frac_part s2 = Some (f, s3)"
    "exp_part s3 = Some (e, t)" "l = m @ i @ f @ e"
    by (auto simp: json_number_def split: option.splits)
  have digits: "number_char c" if "c \<in> set (digits_of u)" for c u
    using that digits_split(2) [of u] by (simp add: number_char_def)
  have "\<forall>c \<in> set m. number_char c"
    using m by (auto simp: minus_part_def number_char_def split: list.splits if_splits)
  moreover have "\<forall>c \<in> set i. number_char c"
    using parts(1) digits by (auto simp: int_part_def number_char_def is_digit_def [of "CHR ''0''"] split: list.splits if_splits)
  moreover have "\<forall>c \<in> set f. number_char c"
    using parts(2) digits by (fastforce simp: frac_part_def number_char_def split: list.splits if_splits)
  moreover have "\<forall>c \<in> set e. number_char c"
    using parts(3) digits by (fastforce simp: exp_part_def exp_sign_def number_char_def split: list.splits if_splits)
  ultimately show ?thesis using parts(4) by auto
qed

lemma json_number_plain:
  assumes "json_number s = Some (l, t)"
  shows "\<forall>c \<in> set l. \<not> json_ws c \<and> c \<noteq> CHR 0x22"
  using json_number_chars [OF assms] by (auto simp: number_char_def json_ws_def is_digit_def)

lemma elements_text_mono: "elements_text k q \<Longrightarrow> k \<le> k' \<Longrightarrow> elements_text k' q"
  by (simp add: elements_text_def)

lemma members_text_mono: "members_text k q \<Longrightarrow> k \<le> k' \<Longrightarrow> members_text k' q"
  by (simp add: members_text_def)

text \<open>What the scanner has read as one value, as elements or as members.\<close>

definition value_part :: "nat \<Rightarrow> string \<Rightarrow> json \<Rightarrow> string \<Rightarrow> bool" where
  "value_part d s v t \<longleftrightarrow> d + json_nest v \<le> max_nesting \<and>
     (\<exists>p q. s = p @ t \<and> compacts p q \<and> value_text (json_nest v) q)"

definition elements_part :: "nat \<Rightarrow> string \<Rightarrow> json list \<Rightarrow> string \<Rightarrow> bool" where
  "elements_part d s vs t \<longleftrightarrow> d + foldr max (map json_nest vs) 0 \<le> max_nesting \<and>
     (\<exists>p q. s = p @ t \<and> compacts p q \<and> elements_text (foldr max (map json_nest vs) 0) q)"

definition members_part :: "nat \<Rightarrow> string \<Rightarrow> (string \<times> json) list \<Rightarrow> string \<Rightarrow> bool" where
  "members_part d s ms t \<longleftrightarrow> d + foldr max (map (\<lambda>m. json_nest (snd m)) ms) 0 \<le> max_nesting \<and>
     (\<exists>p q. s = p @ t \<and> compacts p q \<and> members_text (foldr max (map (\<lambda>m. json_nest (snd m)) ms) 0) q)"

lemma value_part_string:
  assumes "json_chars r = Some (v, t)" and "d \<le> max_nesting"
  shows "value_part d (CHR 0x22 # r) (JString v) t"
proof -
  obtain p q where p: "r = p @ t" "compacts (CHR 0x22 # p) (CHR 0x22 # q)" "\<And>u. \<exists>w. json_chars (q @ u) = Some (w, u)"
    using json_chars_part [OF assms(1)] by blast
  have "value_text 0 (CHR 0x22 # q)"
    unfolding value_text_def
  proof (intro conjI allI impI)
    fix u d n assume "2 * length ((CHR 0x22 # q) @ u) < n"
    then obtain m where m: "n = Suc m" by (cases n) auto
    obtain w where "json_chars (q @ u) = Some (w, u)" using p(3) by blast
    then show "\<exists>v. json_value n d ((CHR 0x22 # q) @ u) = Some (v, u)" by (simp add: m)
  qed simp_all
  then show ?thesis using p(1,2) assms(2) by (force simp: value_part_def)
qed

lemma value_part_number:
  assumes "json_number s = Some (l, t)" and "d \<le> max_nesting"
  shows "value_part d s (JNumber l) t"
  using json_number_split(1) [OF assms(1)] value_text_number [OF assms(1)] assms(2)
    compacts_plain [OF json_number_plain [OF assms(1)]]
  by (auto simp: value_part_def)

lemma value_text_literal:
  assumes "w = ''null'' \<or> w = ''true'' \<or> w = ''false''"
  shows "value_text 0 w"
  unfolding value_text_def
proof (intro conjI allI impI)
  fix t d n assume "2 * length (w @ t) < n"
  then obtain m where m: "n = Suc m" by (cases n) auto
  show "\<exists>v. json_value n d (w @ t) = Some (v, t)" using assms by (elim disjE) (simp_all add: m)
qed (use assms in \<open>auto simp: json_ws_def\<close>)

lemma value_part_literal:
  assumes "HasPrefix s w" and "w = ''null'' \<or> w = ''true'' \<or> w = ''false''" and "json_nest v = 0" and "d \<le> max_nesting"
  shows "value_part d s v (drop (length w) s)"
proof -
  have "s = w @ drop (length w) s" using assms(1) by (auto simp: HasPrefix_iff)
  moreover have "compacts w w" using assms(2) by (intro compacts_plain) (auto simp: json_ws_def)
  ultimately show ?thesis using assms(3,4) value_text_literal [OF assms(2)] by (auto simp: value_part_def)
qed

lemma value_part_array:
  assumes "elements_part (Suc d) (skip_ws r) vs t"
  shows "value_part d (CHR ''['' # r) (JArray vs) t"
proof -
  obtain p q where p: "skip_ws r = p @ t" "compacts p q" "elements_text (foldr max (map json_nest vs) 0) q"
    using assms by (auto simp: elements_part_def)
  have "CHR ''['' # r = ([CHR ''[''] @ takeWhile json_ws r @ p) @ t" using p(1) ws_split [of r] by simp
  moreover have "compacts ([CHR ''[''] @ takeWhile json_ws r @ p) ([CHR ''[''] @ [] @ q)"
    by (intro compacts_append compacts_char compacts_ws p(2)) simp_all
  moreover have "value_text (json_nest (JArray vs)) ([CHR ''[''] @ [] @ q)" using value_text_array [OF p(3)] by simp
  moreover have "d + json_nest (JArray vs) \<le> max_nesting" using assms by (simp add: elements_part_def)
  ultimately show ?thesis unfolding value_part_def by blast
qed

lemma value_part_object:
  assumes "members_part (Suc d) (skip_ws r) ms t"
  shows "value_part d (CHR ''{'' # r) (JObject ms) t"
proof -
  obtain p q where p: "skip_ws r = p @ t" "compacts p q"
    "members_text (foldr max (map (\<lambda>m. json_nest (snd m)) ms) 0) q"
    using assms by (auto simp: members_part_def)
  have "CHR ''{'' # r = ([CHR ''{''] @ takeWhile json_ws r @ p) @ t" using p(1) ws_split [of r] by simp
  moreover have "compacts ([CHR ''{''] @ takeWhile json_ws r @ p) ([CHR ''{''] @ [] @ q)"
    by (intro compacts_append compacts_char compacts_ws p(2)) simp_all
  moreover have "value_text (json_nest (JObject ms)) ([CHR ''{''] @ [] @ q)" using value_text_object [OF p(3)] by simp
  moreover have "d + json_nest (JObject ms) \<le> max_nesting" using assms by (simp add: members_part_def)
  ultimately show ?thesis unfolding value_part_def by blast
qed

lemma value_part_empty:
  assumes "skip_ws r = b # t" and "(a, b, v) = (CHR ''['', CHR '']'', JArray []) \<or> (a, b, v) = (CHR ''{'', CHR ''}'', JObject [])"
    and "d < max_nesting"
  shows "value_part d (a # r) v t"
proof -
  have "a # r = ([a] @ takeWhile json_ws r @ [b]) @ t" using assms(1) ws_split [of r] by simp
  moreover have "compacts ([a] @ takeWhile json_ws r @ [b]) ([a] @ [] @ [b])"
    using assms(2) by (intro compacts_append compacts_ws) (auto intro!: compacts_char)
  moreover have "value_text (json_nest v) ([a] @ [] @ [b])" using assms(2) value_text_empty by auto
  moreover have "d + json_nest v \<le> max_nesting" using assms(2,3) by auto
  ultimately show ?thesis unfolding value_part_def by blast
qed


text \<open>Every value the scanner reads compacts to a text of one value.\<close>

lemma elements_part_one:
  assumes "value_part d s v r" and "skip_ws r = CHR '']'' # t"
  shows "elements_part d s [v] t"
proof -
  obtain p q where p: "s = p @ r" "compacts p q" "value_text (json_nest v) q" and d: "d + json_nest v \<le> max_nesting"
    using assms(1) by (auto simp: value_part_def)
  have "s = (p @ takeWhile json_ws r @ '']'') @ t" using p(1) assms(2) ws_split [of r] by simp
  moreover have "compacts (p @ takeWhile json_ws r @ '']'') (q @ [] @ '']'')"
    by (intro compacts_append p(2) compacts_ws compacts_char) simp_all
  moreover have "elements_text (foldr max (map json_nest [v]) 0) (q @ [] @ '']'')"
    using elements_text_one [OF p(3)] d by simp
  moreover have "d + foldr max (map json_nest [v]) 0 \<le> max_nesting" using d by simp
  ultimately show ?thesis unfolding elements_part_def by blast
qed

lemma elements_part_more:
  assumes "value_part d s v r" and "skip_ws r = CHR '','' # u" and "elements_part d (skip_ws u) vs t"
  shows "elements_part d s (v # vs) t"
proof -
  obtain p q where p: "s = p @ r" "compacts p q" "value_text (json_nest v) q" and d: "d + json_nest v \<le> max_nesting"
    using assms(1) by (auto simp: value_part_def)
  let ?k = "foldr max (map json_nest vs) 0" and ?m = "foldr max (map json_nest (v # vs)) 0"
  obtain p' q' where p': "skip_ws u = p' @ t" "compacts p' q'" "elements_text ?k q'" and d': "d + ?k \<le> max_nesting"
    using assms(3) by (auto simp: elements_part_def)
  have m: "d + ?m \<le> max_nesting" using d d' by simp
  have "s = (p @ takeWhile json_ws r @ '','' @ takeWhile json_ws u @ p') @ t"
    using p(1) p'(1) assms(2) ws_split [of r] ws_split [of u] by simp
  moreover have "compacts (p @ takeWhile json_ws r @ '','' @ takeWhile json_ws u @ p') (q @ [] @ '','' @ [] @ q')"
    by (intro compacts_append p(2) p'(2) compacts_ws compacts_char) simp_all
  moreover have "elements_text ?m (q @ [] @ '','' @ [] @ q')"
    using elements_text_more [OF value_text_mono [OF p(3)] _ elements_text_mono [OF p'(3)], of ?m] m by simp
  ultimately show ?thesis using m unfolding elements_part_def by blast
qed

lemma members_part_one:
  assumes "json_chars r = Some (name, r1)" and "skip_ws r1 = CHR '':'' # r2"
    and "value_part d (skip_ws r2) v r3" and "skip_ws r3 = CHR ''}'' # t"
  shows "members_part d (CHR 0x22 # r) [(name, v)] t"
proof -
  obtain p q where p: "r = p @ r1" "compacts (CHR 0x22 # p) (CHR 0x22 # q)" "\<And>u. \<exists>w. json_chars (q @ u) = Some (w, u)"
    using json_chars_part [OF assms(1)] by blast
  obtain p' q' where p': "skip_ws r2 = p' @ r3" "compacts p' q'" "value_text (json_nest v) q'"
    and d: "d + json_nest v \<le> max_nesting"
    using assms(3) by (auto simp: value_part_def)
  have "CHR 0x22 # r = ((CHR 0x22 # p) @ takeWhile json_ws r1 @ '':'' @ takeWhile json_ws r2 @ p' @
      takeWhile json_ws r3 @ ''}'') @ t"
    using p(1) p'(1) assms(2,4) ws_split [of r1] ws_split [of r2] ws_split [of r3] by simp
  moreover have "compacts ((CHR 0x22 # p) @ takeWhile json_ws r1 @ '':'' @ takeWhile json_ws r2 @ p' @
      takeWhile json_ws r3 @ ''}'') ((CHR 0x22 # q) @ [] @ '':'' @ [] @ q' @ [] @ ''}'')"
    by (intro compacts_append p(2) p'(2) compacts_ws compacts_char) simp_all
  moreover have "members_text (foldr max (map (\<lambda>m. json_nest (snd m)) [(name, v)]) 0)
      ((CHR 0x22 # q) @ [] @ '':'' @ [] @ q' @ [] @ ''}'')"
    using members_text_one [OF p(3) p'(3)] d by simp
  moreover have "d + foldr max (map (\<lambda>m. json_nest (snd m)) [(name, v)]) 0 \<le> max_nesting" using d by simp
  ultimately show ?thesis unfolding members_part_def by blast
qed

lemma members_part_more:
  assumes "json_chars r = Some (name, r1)" and "skip_ws r1 = CHR '':'' # r2"
    and "value_part d (skip_ws r2) v r3" and "skip_ws r3 = CHR '','' # r4" and "members_part d (skip_ws r4) ms t"
  shows "members_part d (CHR 0x22 # r) ((name, v) # ms) t"
proof -
  obtain p q where p: "r = p @ r1" "compacts (CHR 0x22 # p) (CHR 0x22 # q)" "\<And>u. \<exists>w. json_chars (q @ u) = Some (w, u)"
    using json_chars_part [OF assms(1)] by blast
  obtain p' q' where p': "skip_ws r2 = p' @ r3" "compacts p' q'" "value_text (json_nest v) q'"
    and d: "d + json_nest v \<le> max_nesting"
    using assms(3) by (auto simp: value_part_def)
  let ?k = "foldr max (map (\<lambda>m. json_nest (snd m)) ms) 0"
  let ?m = "foldr max (map (\<lambda>m. json_nest (snd m)) ((name, v) # ms)) 0"
  obtain p'' q'' where p'': "skip_ws r4 = p'' @ t" "compacts p'' q''" "members_text ?k q''" and d': "d + ?k \<le> max_nesting"
    using assms(5) by (auto simp: members_part_def)
  have m: "d + ?m \<le> max_nesting" using d d' by simp
  have "CHR 0x22 # r = ((CHR 0x22 # p) @ takeWhile json_ws r1 @ '':'' @ takeWhile json_ws r2 @ p' @
      takeWhile json_ws r3 @ '','' @ takeWhile json_ws r4 @ p'') @ t"
    using p(1) p'(1) p''(1) assms(2,4) ws_split [of r1] ws_split [of r2] ws_split [of r3] ws_split [of r4] by simp
  moreover have "compacts ((CHR 0x22 # p) @ takeWhile json_ws r1 @ '':'' @ takeWhile json_ws r2 @ p' @
      takeWhile json_ws r3 @ '','' @ takeWhile json_ws r4 @ p'')
      ((CHR 0x22 # q) @ [] @ '':'' @ [] @ q' @ [] @ '','' @ [] @ q'')"
    by (intro compacts_append p(2) p'(2) p''(2) compacts_ws compacts_char) simp_all
  moreover have "members_text ?m ((CHR 0x22 # q) @ [] @ '':'' @ [] @ q' @ [] @ '','' @ [] @ q'')"
    using members_text_more [OF p(3) value_text_mono [OF p'(3)] _ members_text_mono [OF p''(3)], of ?m] m by simp
  ultimately show ?thesis using m unfolding members_part_def by blast
qed

lemma json_value_part:
  "(\<forall>d s v t. d \<le> max_nesting \<longrightarrow> json_value n d s = Some (v, t) \<longrightarrow> value_part d s v t) \<and>
   (\<forall>d s vs t. d \<le> max_nesting \<longrightarrow> json_elements n d s = Some (vs, t) \<longrightarrow> elements_part d s vs t) \<and>
   (\<forall>d s ms t. d \<le> max_nesting \<longrightarrow> json_members n d s = Some (ms, t) \<longrightarrow> members_part d s ms t)"
proof (induction n)
  case (Suc n)
  then have IH: "d \<le> max_nesting \<Longrightarrow> json_value n d s = Some (v, t) \<Longrightarrow> value_part d s v t"
      "d \<le> max_nesting \<Longrightarrow> json_elements n d s = Some (vs, t) \<Longrightarrow> elements_part d s vs t"
      "d \<le> max_nesting \<Longrightarrow> json_members n d s = Some (ms, t) \<Longrightarrow> members_part d s ms t" for d s v t vs ms
    by blast+
  have "value_part d s v t" if d: "d \<le> max_nesting" and v: "json_value (Suc n) d s = Some (v, t)" for d s v t
  proof -
    obtain c r where s: "s = c # r" using v by (cases s) auto
    have array: "value_part d (CHR ''['' # r) (JArray vs) u"
      if "skip_ws r = e # r'" "json_elements n (Suc d) (e # r') = Some (vs, u)" "\<not> max_nesting \<le> d" for e r' vs u
      using that by (intro value_part_array IH(2)) simp_all
    have object: "value_part d (CHR ''{'' # r) (JObject ms) u"
      if "skip_ws r = e # r'" "json_members n (Suc d) (e # r') = Some (ms, u)" "\<not> max_nesting \<le> d" for e r' ms u
      using that by (intro value_part_object IH(3)) simp_all
    have literal: "HasPrefix r ''ull'' \<Longrightarrow> value_part d (CHR ''n'' # r) JNull (drop 3 r)"
      "HasPrefix r ''rue'' \<Longrightarrow> value_part d (CHR ''t'' # r) (JBool True) (drop 3 r)"
      "HasPrefix r ''alse'' \<Longrightarrow> value_part d (CHR ''f'' # r) (JBool False) (drop 4 r)"
      using value_part_literal [of "CHR ''n'' # r" "''null''" JNull d] d
        value_part_literal [of "CHR ''t'' # r" "''true''" "JBool True" d]
        value_part_literal [of "CHR ''f'' # r" "''false''" "JBool False" d] by (simp_all add: eval_nat_numeral)
    show ?thesis
      using v unfolding s
      by (auto split: if_splits list.splits
          intro: value_part_string [OF _ d] value_part_number [OF _ d] value_part_empty array object literal)
  qed
  moreover have "elements_part d s vs t" if d: "d \<le> max_nesting" and v: "json_elements (Suc n) d s = Some (vs, t)" for d s vs t
    using v by (auto split: option.splits list.splits if_splits dest!: IH(1,2) [OF d]
        intro: elements_part_one elements_part_more)
  moreover have "members_part d s ms t" if d: "d \<le> max_nesting" and v: "json_members (Suc n) d s = Some (ms, t)" for d s ms t
    using v by (auto split: option.splits list.splits if_splits dest!: IH(1,3) [OF d])
      (blast intro: members_part_one members_part_more)+
  ultimately show ?case by blast
qed simp


lemma compact_text:
  assumes "json_decode raw = Some v"
  shows "value_text (json_nest v) (compact False raw)"
proof -
  obtain r where r: "json_value (2 * length raw + 1) 0 (skip_ws raw) = Some (v, r)" "skip_ws r = []"
    using assms by (auto simp: json_decode_def simp del: json_value.simps split: option.splits if_splits)
  have "value_part 0 (skip_ws raw) v r" using json_value_part [of "2 * length raw + 1"] r(1) by blast
  then obtain p q where p: "skip_ws raw = p @ r" "compacts p q" "value_text (json_nest v) q"
    by (auto simp: value_part_def)
  have "compact False r = []" using compacts_ws [of r] ws_split [of r] r(2) unfolding compacts_def
    by (metis append_Nil2 append_Nil compact.simps(1))
  moreover have "compact False raw = compact False (skip_ws raw)"
    using compacts_ws [of raw] ws_split [of raw] unfolding compacts_def by (metis append_Nil)
  ultimately show ?thesis using p by (simp add: compacts_def)
qed

end
