(* ===== verification/MetricsProperties.thy ===== *)
theory MetricsProperties
  imports TopologyProperties
begin

text \<open>
  What the instruments of \<open>internal/topology/metrics.go\<close> show after a question to the manager.
\<close>

text \<open>The values recorded on an instrument, with the attributes beside the base ones.\<close>

definition shown_on :: "Metrics \<Rightarrow> string \<Rightarrow> measurement list \<Rightarrow> (measured \<times> attribute list) list" where
  "shown_on mt name ms =
     map (\<lambda>x. (m_value x, drop (length (metrics_baseAttributes mt)) (m_attributes x)))
       (filter (\<lambda>x. m_instrument x = name) ms)"

lemma shown_on_simps [simp]:
  "shown_on mt name [] = []"
  "shown_on mt name (x # ms) =
     (if m_instrument x = name
      then [(m_value x, drop (length (metrics_baseAttributes mt)) (m_attributes x))] else []) @ shown_on mt name ms"
  "shown_on mt name (ms @ ms') = shown_on mt name ms @ shown_on mt name ms'"
  by (simp_all add: shown_on_def)

text \<open>How many instances a topology has in a state, or in all.\<close>

definition in_state :: "string \<Rightarrow> Topology \<Rightarrow> nat" where
  "in_state state t =
     length (filter (\<lambda>i. state = ''TOTAL'' \<or> inst_State i = state) (top_Instances t))"

lemma normal_labels:
  "normalizeAttribute ''UP'' = ''UP''" "normalizeAttribute ''DRAINING'' = ''DRAINING''"
  "normalizeAttribute ''MIGRATING'' = ''MIGRATING''" "normalizeAttribute ''hit'' = ''hit''"
  "normalizeAttribute ''empty'' = ''empty''" "normalizeAttribute ''expired'' = ''expired''"
  "normalizeAttribute ''success'' = ''success''" "normalizeAttribute ''error'' = ''error''"
  "normalizeAttribute ''stale_cache'' = ''stale_cache''"
  by code_simp+

lemma count_states:
  assumes "\<forall>i \<in> set xs. normalizeAttribute (inst_State i) = inst_State i \<and> inst_State i \<noteq> [] \<and>
    fmlookup counts (inst_State i) \<noteq> None"
  shows "fmlookup (fold count_state xs counts) state =
    map_option (\<lambda>n. n + word_of_nat (length (filter (\<lambda>i. inst_State i = state) xs))) (fmlookup counts state)"
  using assms
proof (induction xs arbitrary: counts)
  case Nil
  show ?case by (cases "fmlookup counts state") simp_all
next
  case (Cons i xs)
  let ?s = "inst_State i"
  obtain n where n: "fmlookup counts ?s = Some n" using Cons.prems by auto
  have step: "count_state i counts = fmupd ?s (n + 1) counts"
    using Cons.prems n by (simp add: count_state_def Let_def)
  have "fmlookup (fold count_state xs (fmupd ?s (n + 1) counts)) state =
    map_option (\<lambda>n. n + word_of_nat (length (filter (\<lambda>i. inst_State i = state) xs)))
      (fmlookup (fmupd ?s (n + 1) counts) state)"
    using Cons.prems by (intro Cons.IH) auto
  then show ?case using step n by (cases "?s = state") (simp_all add: ac_simps)
qed

lemma filter_equals_one: "distinct xs \<Longrightarrow> x \<in> set xs \<Longrightarrow> filter (\<lambda>y. y = x) xs = [x]"
  by (induction xs) (auto simp: filter_empty_conv)

lemma recordInstances_shown:
  assumes "range_order ord" and "\<forall>i \<in> set (top_Instances t). inst_wf i"
    and "state \<in> {''TOTAL'', ''UP'', ''DRAINING'', ''MIGRATING''}"
  shows "filter (\<lambda>(v, as). as = [String ''state'' state])
      (shown_on mt ''stellpulsar.topology.instance.count'' (recordInstances ord mt t)) =
    [(Int64 (word_of_nat (in_state state t)), [String ''state'' state])]"
proof -
  let ?all = "{''TOTAL'', ''UP'', ''DRAINING'', ''MIGRATING''}"
  define initial :: "(string, int64) fmap" where
    "initial = fmap_of_list [(''TOTAL'', word_of_nat (length (top_Instances t))), (''UP'', 0), (''DRAINING'', 0), (''MIGRATING'', 0)]"
  define counts where "counts = fold count_state (top_Instances t) initial"
  have normal: "normalizeAttribute (inst_State i) = inst_State i" "inst_State i \<noteq> []" "inst_State i \<noteq> ''TOTAL''"
      "fmlookup initial (inst_State i) = Some 0" if "i \<in> set (top_Instances t)" for i
  proof -
    have "inst_State i = ''UP'' \<or> inst_State i = ''DRAINING'' \<or> inst_State i = ''MIGRATING''"
      using assms(2) that by (simp add: inst_wf_def)
    then show "normalizeAttribute (inst_State i) = inst_State i" "inst_State i \<noteq> []" "inst_State i \<noteq> ''TOTAL''"
      "fmlookup initial (inst_State i) = Some 0"
      by (elim disjE; simp add: normal_labels initial_def)+
  qed
  have look: "fmlookup counts s =
      map_option (\<lambda>n. n + word_of_nat (length (filter (\<lambda>i. inst_State i = s) (top_Instances t)))) (fmlookup initial s)" for s
    unfolding counts_def by (rule count_states) (use normal in simp)
  have none: "filter (\<lambda>i. inst_State i = ''TOTAL'') (top_Instances t) = []"
    using normal(3) by (simp add: filter_empty_conv)
  have total: "filter (\<lambda>i. True) (top_Instances t) = top_Instances t" by simp
  have value_at: "fmlookup counts state = Some (word_of_nat (in_state state t))"
  proof (cases "state = ''TOTAL''")
    case True
    then show ?thesis by (simp add: look none in_state_def initial_def)
  next
    case False
    then have "fmlookup initial state = Some 0" using assms(3) by (auto simp: initial_def)
    then show ?thesis using False by (simp add: look in_state_def)
  qed
  have "state \<in> fset (fmdom counts)" using value_at by (simp add: fmdomI)
  then have once: "filter (\<lambda>s. s = state) (ord (fmdom counts)) = [state]"
    using assms(1) by (simp add: range_order_def filter_equals_one)
  have "shown_on mt ''stellpulsar.topology.instance.count'' (recordInstances ord mt t) =
      map (\<lambda>s. (Int64 (case fmlookup counts s of None \<Rightarrow> 0 | Some n \<Rightarrow> n), [String ''state'' s])) (ord (fmdom counts))"
    unfolding recordInstances_def initial_def [symmetric] Let_def counts_def [symmetric]
    by (simp add: shown_on_def attributes_def comp_def filter_map)
  then show ?thesis using once value_at by (simp add: filter_map comp_def)
qed

lemma Seconds_nonneg:
  assumes "0 \<le> sint d"
  shows "0 \<le> Seconds d"
proof -
  have "0 \<le> sint d sdiv 1000000000" "0 \<le> sint d smod 1000000000"
    using assms by (simp_all add: signed_divide_int_def signed_modulo_int_def zero_le_mult_iff sgn_if
        pos_imp_zdiv_nonneg_iff)
  then have "0 \<le> fl (of_int (sint d smod 1000000000) / 1000000000)"
    by (intro fl_nonneg) simp
  then show ?thesis
    using \<open>0 \<le> sint d sdiv 1000000000\<close> by (simp add: Seconds_def Let_def fl_nonneg)
qed

text \<open>What the two recording methods of a reading show.\<close>

lemma shown_cache_state:
  "shown_on mt name (recordCacheState mt age stale) =
     (if name = ''stellpulsar.topology.cache.age''
      then [(Float64 (Seconds (if age <s 0 then 0 else age)), [])] else []) @
     (if name = ''stellpulsar.topology.cache.stale'' then [(Int64 (if stale then 1 else 0), [])] else [])"
  by (simp add: recordCacheState_def Let_def)

lemma shown_access:
  "shown_on mt name (RecordCacheAccess (Some mt) result age stale) =
     (if name = ''stellpulsar.topology.cache.access.count''
      then [(Int64 1, [String ''result'' (normalizeAttribute result)])] else []) @
     shown_on mt name (recordCacheState mt age stale)"
  by (simp add: RecordCacheAccess_def attributes_def)

lemma shown_refresh:
  "shown_on mt name (RecordRefresh ord (Some mt) result dur t age stale) =
     (if name = ''stellpulsar.topology.refresh.count''
      then [(Int64 1, [String ''result'' (normalizeAttribute result)])] else []) @
     (if name = ''stellpulsar.topology.refresh.duration''
      then [(Float64 (Seconds dur), [String ''result'' (normalizeAttribute result)])] else []) @
     shown_on mt name (recordCacheState mt age stale) @
     (if top_Revision t \<noteq> [] then shown_on mt name (recordInstances ord mt t) else [])"
  by (simp add: RecordRefresh_def attributes_def Let_def)

lemma shown_instances_other:
  "name \<noteq> ''stellpulsar.topology.instance.count'' \<Longrightarrow> shown_on mt name (recordInstances ord mt t) = []"
  by (simp add: shown_on_def recordInstances_def Let_def filter_map comp_def)

definition answer_label :: "bool \<Rightarrow> bool \<Rightarrow> string" where
  "answer_label known ok = (if ok then ''success'' else if known then ''stale_cache'' else ''error'')"

text \<open>What a call of \<open>Current\<close> records: the access, and unless it hits the cache one refresh.\<close>

lemma Current_measurements:
  assumes "Current ord rd m = (res, m')" and "mgr_metrics m = Some mt"
    and "known = (top_Revision (mgr_current m) \<noteq> [])" and "hit = (known \<and> rd_now rd < mgr_expiresAt m)"
  shows "\<exists>age dur t age'. mgr_measurements m' = mgr_measurements m @
      RecordCacheAccess (Some mt) (if hit then ''hit'' else if known then ''expired'' else ''empty'') age (\<not> hit \<and> known) @
      (if hit then []
       else RecordRefresh ord (Some mt) (answer_label known (is_ok (rd_listing rd))) dur t age' (\<not> is_ok (rd_listing rd))) \<and>
      (\<not> hit \<longrightarrow> (case res of Inl _ \<Rightarrow> top_Revision t = [] | Inr u \<Rightarrow> t = u \<and> top_Revision u \<noteq> []))"
proof -
  have built: "top_Revision (Build ns sv xs) \<noteq> []" for ns sv xs using Build_revision [of ns sv xs] by auto
  consider (hit) "hit" | (listed) instances where "\<not> hit" "rd_listing rd = Inr instances"
    | (stale) e where "\<not> hit" "rd_listing rd = Inl e" "known" | (failed) e where "\<not> hit" "rd_listing rd = Inl e" "\<not> known"
    by (cases "rd_listing rd") blast+
  then show ?thesis
  proof cases
    case hit
    then show ?thesis using assms by (auto simp: Current_def mgr_record_def Before_def Let_def)
  next
    case listed
    then have "Refresh ord rd (mgr_record (RecordCacheAccess (Some mt) (if known then ''expired'' else ''empty'')
        (ageSince (rd_now rd) (mgr_updatedAt m)) known) m) = (res, m')"
      using assms by (auto simp: Current_def Before_def Let_def)
    with listed show ?thesis
      using assms(2) built by (auto simp: Refresh_def mgr_record_def Let_def answer_label_def is_ok_def) blast+
  next
    case stale
    then have "Refresh ord rd (mgr_record (RecordCacheAccess (Some mt) ''expired''
        (ageSince (rd_now rd) (mgr_updatedAt m)) True) m) = (res, m')"
      using assms by (auto simp: Current_def Before_def Let_def)
    with stale show ?thesis
      using assms(2,3) by (auto simp: Refresh_def mgr_record_def Let_def answer_label_def is_ok_def) blast+
  next
    case failed
    then have "Refresh ord rd (mgr_record (RecordCacheAccess (Some mt) ''empty''
        (ageSince (rd_now rd) (mgr_updatedAt m)) False) m) = (res, m')"
      using assms by (auto simp: Current_def Before_def Let_def)
    moreover have "top_Revision zero_Topology = []" by (simp add: zero_Topology_def)
    ultimately show ?thesis
      using failed assms(2,3) by (auto simp: Refresh_def mgr_record_def Let_def answer_label_def is_ok_def) blast+
  qed
qed



text \<open>A manager with instruments, and its first topology.\<close>

definition metered :: Manager where
  "metered = NewManager ''n'' ''s'' ''a'' 0 (Some (NewMetrics ''n'' ''s'' ''a''))"


end
