(* ===== verification/Notifier.thy ===== *)
theory Notifier
  imports RuleStore
begin

text \<open>
  The goroutines around the subscribers of \<open>internal/rulestore/store.go\<close>: one runs \<open>notify\<close>
  (the syncer serialises its replacements), others subscribe, receive and unsubscribe. The
  mutex makes subscribing, unsubscribing and the copy of the subscriber list at the start of
  \<open>notify\<close> atomic; the sends run after it is released, one \<open>select\<close> at a time. A channel is
  an address in the list of channels made so far, so that the notifier's copy of it
  outlives its entry in the map.
\<close>

datatype phase = Offer | Drain | Retry

record Hub =
  hub_channels :: "Channel list"
  hub_closed :: "nat list"
  hub_next :: int64
  hub_subscribers :: "(int64, nat) fmap"
  hub_handles :: "(int64 \<times> nat) list"
  hub_notifier :: "(Snapshot \<times> nat list \<times> phase) option"
  hub_panicked :: bool

definition new_hub :: Hub where
  "new_hub =
     \<lparr>hub_channels = [], hub_closed = [], hub_next = 0, hub_subscribers = fmempty,
      hub_handles = [], hub_notifier = None, hub_panicked = False\<rparr>"

datatype action =
    ASubscribe int64
  | AUnsubscribe int64 nat
  | AReceive nat
  | ANotify Snapshot "nat list"
  | ASelect

definition hub_subscribe :: "int64 \<Rightarrow> Hub \<Rightarrow> Hub" where
  "hub_subscribe buffer h =
     (let key = hub_next h + 1; a = length (hub_channels h);
          capacity = (if buffer \<le>s 0 then 1 else buffer) in
      h\<lparr>hub_channels := hub_channels h @ [\<lparr>chan_buffer = [], chan_capacity = capacity\<rparr>],
        hub_next := key, hub_subscribers := fmupd key a (hub_subscribers h),
        hub_handles := (key, a) # hub_handles h\<rparr>)"

definition hub_unsubscribe :: "int64 \<Rightarrow> nat \<Rightarrow> Hub \<Rightarrow> Hub" where
  "hub_unsubscribe key a h =
     (if a \<in> set (hub_closed h) then h
      else h\<lparr>hub_subscribers := fmdrop key (hub_subscribers h), hub_closed := a # hub_closed h\<rparr>)"

definition hub_receive :: "nat \<Rightarrow> Hub \<Rightarrow> Hub" where
  "hub_receive a h =
     h\<lparr>hub_channels := (hub_channels h)[a := (hub_channels h ! a)
        \<lparr>chan_buffer := tl (chan_buffer (hub_channels h ! a))\<rparr>]\<rparr>"

text \<open>The notifier's next \<open>select\<close>: a send to a closed channel panics.\<close>

definition hub_select :: "Hub \<Rightarrow> Hub" where
  "hub_select h =
     (case hub_notifier h of
        None \<Rightarrow> h
      | Some (snapshot, [], _) \<Rightarrow> h\<lparr>hub_notifier := None\<rparr>
      | Some (snapshot, a # rest, Drain) \<Rightarrow>
          (hub_receive a h)\<lparr>hub_notifier := Some (snapshot, a # rest, Retry)\<rparr>
      | Some (snapshot, a # rest, p) \<Rightarrow>
          (if a \<in> set (hub_closed h) then h\<lparr>hub_panicked := True\<rparr>
           else case try_send snapshot (hub_channels h ! a) of
             Some ch \<Rightarrow>
               h\<lparr>hub_channels := (hub_channels h)[a := ch],
                 hub_notifier := Some (snapshot, rest, Offer)\<rparr>
           | None \<Rightarrow>
               h\<lparr>hub_notifier :=
                   (if p = Offer then Some (snapshot, a # rest, Drain)
                    else Some (snapshot, rest, Offer))\<rparr>))"

inductive hub_step :: "Hub \<Rightarrow> action \<Rightarrow> Hub \<Rightarrow> bool" where
  subscribe: "\<not> hub_panicked h \<Longrightarrow> hub_step h (ASubscribe buffer) (hub_subscribe buffer h)"
| unsubscribe: "\<not> hub_panicked h \<Longrightarrow> (key, a) \<in> set (hub_handles h) \<Longrightarrow>
    hub_step h (AUnsubscribe key a) (hub_unsubscribe key a h)"
| receive: "\<not> hub_panicked h \<Longrightarrow> a < length (hub_channels h) \<Longrightarrow> hub_step h (AReceive a) (hub_receive a h)"
| notify: "\<not> hub_panicked h \<Longrightarrow> hub_notifier h = None \<Longrightarrow> distinct as \<Longrightarrow>
    set as = fset (fmran (hub_subscribers h)) \<Longrightarrow>
    hub_step h (ANotify snapshot as) (h\<lparr>hub_notifier := Some (snapshot, as, Offer)\<rparr>)"
| select: "\<not> hub_panicked h \<Longrightarrow> hub_notifier h \<noteq> None \<Longrightarrow> hub_step h ASelect (hub_select h)"

inductive_cases hub_stepE: "hub_step h a h'"

inductive_simps hub_step_unsubscribe: "hub_step h (AUnsubscribe key a) h'"

text \<open>Runs whose actions all pass a test in the state they are taken in.\<close>

inductive hub_run :: "(Hub \<Rightarrow> action \<Rightarrow> bool) \<Rightarrow> Hub \<Rightarrow> action list \<Rightarrow> Hub \<Rightarrow> bool" where
  stop: "hub_run test h [] h"
| more: "test h act \<Longrightarrow> hub_step h act h' \<Longrightarrow> hub_run test h' acts h'' \<Longrightarrow>
    hub_run test h (act # acts) h''"

subsection \<open>The invariant\<close>

text \<open>
  Every subscriber's channel has the handle it was issued with, no two handles share a
  channel, and no closed channel is still subscribed.
\<close>

definition hub_ok :: "Hub \<Rightarrow> bool" where
  "hub_ok h \<longleftrightarrow>
     (\<forall>key a. fmlookup (hub_subscribers h) key = Some a \<longrightarrow> (key, a) \<in> set (hub_handles h)) \<and>
     (\<forall>key key' a. (key, a) \<in> set (hub_handles h) \<longrightarrow> (key', a) \<in> set (hub_handles h) \<longrightarrow> key = key') \<and>
     (\<forall>key a. (key, a) \<in> set (hub_handles h) \<longrightarrow> a < length (hub_channels h)) \<and>
     (\<forall>key a. fmlookup (hub_subscribers h) key = Some a \<longrightarrow> a \<notin> set (hub_closed h)) \<and>
     set (hub_closed h) \<subseteq> {..< length (hub_channels h)}"

lemma hub_ok_new: "hub_ok new_hub"
  by (simp add: hub_ok_def new_hub_def)

lemma hub_ok_cong:
  assumes "hub_ok h" and "hub_subscribers h' = hub_subscribers h" and "hub_handles h' = hub_handles h"
    and "hub_closed h' = hub_closed h" and "length (hub_channels h') = length (hub_channels h)"
  shows "hub_ok h'"
  using assms by (simp add: hub_ok_def)

lemma hub_receive_frame [simp]:
  "hub_subscribers (hub_receive a h) = hub_subscribers h" "hub_handles (hub_receive a h) = hub_handles h"
  "hub_closed (hub_receive a h) = hub_closed h" "hub_panicked (hub_receive a h) = hub_panicked h"
  "length (hub_channels (hub_receive a h)) = length (hub_channels h)"
  "hub_notifier (hub_receive a h) = hub_notifier h"
  by (simp_all add: hub_receive_def)

lemma hub_subscribe_frame [simp]:
  "hub_subscribers (hub_subscribe b h) = fmupd (hub_next h + 1) (length (hub_channels h)) (hub_subscribers h)"
  "hub_handles (hub_subscribe b h) = (hub_next h + 1, length (hub_channels h)) # hub_handles h"
  "hub_closed (hub_subscribe b h) = hub_closed h" "hub_panicked (hub_subscribe b h) = hub_panicked h"
  "length (hub_channels (hub_subscribe b h)) = Suc (length (hub_channels h))"
  "hub_notifier (hub_subscribe b h) = hub_notifier h"
  by (simp_all add: hub_subscribe_def Let_def)

lemma hub_unsubscribe_frame [simp]:
  "hub_handles (hub_unsubscribe k a h) = hub_handles h"
  "hub_panicked (hub_unsubscribe k a h) = hub_panicked h"
  "length (hub_channels (hub_unsubscribe k a h)) = length (hub_channels h)"
  "hub_notifier (hub_unsubscribe k a h) = hub_notifier h"
  by (simp_all add: hub_unsubscribe_def)

lemma hub_select_frame:
  "hub_subscribers (hub_select h) = hub_subscribers h" "hub_handles (hub_select h) = hub_handles h"
  "hub_closed (hub_select h) = hub_closed h"
  "length (hub_channels (hub_select h)) = length (hub_channels h)"
  by (simp_all add: hub_select_def split: option.split list.split phase.split)

lemma hub_ok_step:
  assumes "hub_step h act h'" and "hub_ok h"
  shows "hub_ok h'"
  using assms(1)
proof cases
  case (subscribe buffer)
  have "a \<noteq> length (hub_channels h)" if "(key, a) \<in> set (hub_handles h)" for key a
    using that assms(2) by (auto simp: hub_ok_def)
  moreover have "length (hub_channels h) \<notin> set (hub_closed h)"
    using assms(2) by (auto simp: hub_ok_def)
  ultimately show ?thesis
    using assms(2) subscribe unfolding hub_ok_def
    by (intro conjI allI impI) (auto simp: less_Suc_eq split: if_splits)
next
  case (unsubscribe key a)
  show ?thesis
    using assms(2) unsubscribe by (auto simp: hub_ok_def hub_unsubscribe_def) blast
qed (rule hub_ok_cong [OF assms(2)]; simp add: hub_select_frame)+

text \<open>With no unsubscription during a notification, the channels it still has to visit are open.\<close>

definition targets_open :: "Hub \<Rightarrow> bool" where
  "targets_open h \<longleftrightarrow>
     (case hub_notifier h of None \<Rightarrow> True
      | Some (_, as, _) \<Rightarrow> set as \<inter> set (hub_closed h) = {}) \<and> \<not> hub_panicked h"

definition quiet :: "Hub \<Rightarrow> action \<Rightarrow> bool" where
  "quiet h act \<longleftrightarrow> (case act of AUnsubscribe _ _ \<Rightarrow> hub_notifier h = None | _ \<Rightarrow> True)"

lemma targets_open_select: "targets_open h \<Longrightarrow> targets_open (hub_select h)"
  by (auto simp: targets_open_def hub_select_def split: option.splits list.splits phase.splits)

lemma targets_open_step:
  assumes "hub_step h act h'" and "hub_ok h" and "targets_open h" and "quiet h act"
  shows "targets_open h'"
  using assms(1)
proof cases
  case (notify as snapshot)
  then show ?thesis
    using assms(2) by (auto simp: targets_open_def hub_ok_def fmlookup_ran_iff)
next
  case select
  then show ?thesis using assms(3) targets_open_select by simp
next
  case (unsubscribe key a)
  then show ?thesis using assms(3,4) by (simp add: targets_open_def quiet_def)
qed (use assms(3) in \<open>auto simp: targets_open_def split: option.splits\<close>)

lemma quiet_run_open:
  "hub_run quiet h acts h' \<Longrightarrow> hub_ok h \<Longrightarrow> targets_open h \<Longrightarrow> targets_open h'"
  by (induction quiet h acts h' rule: hub_run.induct) (auto dest: hub_ok_step targets_open_step)

subsection \<open>A notification delivers\<close>

definition channels_wf :: "Hub \<Rightarrow> bool" where
  "channels_wf h \<longleftrightarrow> (\<forall>ch \<in> set (hub_channels h).
     0 < sint (chan_capacity ch) \<and> int (length (chan_buffer ch)) \<le> sint (chan_capacity ch))"

text \<open>On an open channel the three selects amount to the sequential \<open>send_latest\<close>.\<close>

lemma hub_select_sends:
  assumes "hub_notifier h = Some (snapshot, a # rest, Offer)" and "a \<notin> set (hub_closed h)"
    and "a < length (hub_channels h)" and "channels_wf h"
  shows "\<exists>n \<le> 3. (hub_select ^^ n) h =
    h\<lparr>hub_channels := (hub_channels h)[a := send_latest snapshot (hub_channels h ! a)],
      hub_notifier := Some (snapshot, rest, Offer)\<rparr>"
proof (cases "try_send snapshot (hub_channels h ! a)")
  case (Some ch)
  then have "hub_select h =
      h\<lparr>hub_channels := (hub_channels h)[a := send_latest snapshot (hub_channels h ! a)],
        hub_notifier := Some (snapshot, rest, Offer)\<rparr>"
    using assms(1,2) by (simp add: hub_select_def send_latest_def)
  then show ?thesis by (intro exI [of _ 1]) simp
next
  case None
  let ?ch = "hub_channels h ! a"
  let ?drained = "?ch\<lparr>chan_buffer := tl (chan_buffer ?ch)\<rparr>"
  have wf: "0 < sint (chan_capacity ?ch)" "int (length (chan_buffer ?ch)) \<le> sint (chan_capacity ?ch)"
    using assms(3,4) by (simp_all add: channels_wf_def)
  then have room: "int (length (chan_buffer ?drained)) < sint (chan_capacity ?drained)"
    by (cases "chan_buffer ?ch") auto
  then obtain ch where ch: "try_send snapshot ?drained = Some ch" by (simp add: try_send_def)
  have "hub_select h = h\<lparr>hub_notifier := Some (snapshot, a # rest, Drain)\<rparr>"
    using assms(1,2) None by (simp add: hub_select_def)
  then have "hub_select (hub_select h) =
      h\<lparr>hub_channels := (hub_channels h)[a := ?drained],
        hub_notifier := Some (snapshot, a # rest, Retry)\<rparr>"
    by (simp add: hub_select_def hub_receive_def)
  then have "hub_select (hub_select (hub_select h)) =
      h\<lparr>hub_channels := (hub_channels h)[a := ch], hub_notifier := Some (snapshot, rest, Offer)\<rparr>"
    using assms(2,3) ch by (simp add: hub_select_def)
  moreover have "send_latest snapshot ?ch = ch" using None ch by (simp add: send_latest_def)
  ultimately show ?thesis by (intro exI [of _ 3]) (simp add: numeral_3_eq_3)
qed

lemma channels_wf_send:
  "channels_wf h \<Longrightarrow> a < length (hub_channels h) \<Longrightarrow>
   channels_wf (h\<lparr>hub_channels := (hub_channels h)[a := send_latest snapshot (hub_channels h ! a)],
     hub_notifier := x\<rparr>)"
  using send_latest_last [of "hub_channels h ! a" snapshot]
  by (auto simp: channels_wf_def dest!: subsetD [OF set_update_subset_insert])

lemma notification_delivers:
  assumes "hub_notifier h = Some (snapshot, as, Offer)" and "distinct as"
    and "\<forall>a \<in> set as. a < length (hub_channels h) \<and> a \<notin> set (hub_closed h)" and "channels_wf h"
  shows "\<exists>n \<le> 3 * length as + 1. \<exists>h'. (hub_select ^^ n) h = h' \<and> hub_notifier h' = None \<and>
    (\<forall>a < length (hub_channels h). hub_channels h' ! a =
       (if a \<in> set as then send_latest snapshot (hub_channels h ! a) else hub_channels h ! a))"
  using assms
proof (induction as arbitrary: h)
  case Nil
  then show ?case by (intro exI [of _ 1]) (simp add: hub_select_def)
next
  case (Cons a as)
  let ?h = "h\<lparr>hub_channels := (hub_channels h)[a := send_latest snapshot (hub_channels h ! a)],
    hub_notifier := Some (snapshot, as, Offer)\<rparr>"
  obtain n where n: "n \<le> 3" "(hub_select ^^ n) h = ?h"
    using hub_select_sends [of h snapshot a as] Cons.prems by auto
  have "channels_wf ?h" using Cons.prems by (intro channels_wf_send) auto
  then obtain m where m: "m \<le> 3 * length as + 1" "hub_notifier ((hub_select ^^ m) ?h) = None"
    "\<forall>b < length (hub_channels ?h). hub_channels ((hub_select ^^ m) ?h) ! b =
       (if b \<in> set as then send_latest snapshot (hub_channels ?h ! b) else hub_channels ?h ! b)"
    using Cons.IH [of ?h] Cons.prems by auto
  have steps: "(hub_select ^^ (m + n)) h = (hub_select ^^ m) ?h" by (simp add: funpow_add n)
  have "\<forall>b < length (hub_channels h). hub_channels ((hub_select ^^ m) ?h) ! b =
      (if b \<in> set (a # as) then send_latest snapshot (hub_channels h ! b) else hub_channels h ! b)"
    using m(3) Cons.prems(2,3) by (auto simp: nth_list_update)
  then show ?case using m(1,2) n(1) by (intro exI [of _ "m + n"]) (simp add: steps)
qed

lemma one_subscriber: "fset (fmran (fmupd k v fmempty)) = {v}"
  by (auto simp: fmran.rep_eq ran_def)

subsection \<open>A closed target\<close>

lemma hub_run_ok: "hub_run test h acts h' \<Longrightarrow> hub_ok h \<Longrightarrow> hub_ok h'"
  by (induction test h acts h' rule: hub_run.induct) (auto dest: hub_ok_step)

lemma hub_run_append:
  "hub_run test h acts h' \<Longrightarrow> hub_run test h' acts' h'' \<Longrightarrow> hub_run test h (acts @ acts') h''"
  by (induction test h acts h' rule: hub_run.induct) (auto intro: hub_run.intros)

lemma select_run:
  assumes "\<not> hub_panicked h" and "hub_notifier h \<noteq> None"
    and "hub_run (\<lambda>_ _. True) (hub_select h) (replicate n ASelect) h'"
  shows "hub_run (\<lambda>_ _. True) h (replicate (Suc n) ASelect) h'"
  using hub_run.more [OF TrueI hub_step.select [OF assms(1,2)] assms(3)] by simp

text \<open>The notifier leaves an open channel behind in at most three selects, whether or not it
  could send.\<close>

lemma visit_open:
  assumes "hub_notifier h = Some (snapshot, b # rest, Offer)" and "b \<notin> set (hub_closed h)"
    and "\<not> hub_panicked h"
  obtains n h' where "hub_run (\<lambda>_ _. True) h (replicate n ASelect) h'"
    and "hub_notifier h' = Some (snapshot, rest, Offer)" and "hub_closed h' = hub_closed h"
    and "\<not> hub_panicked h'"
proof (cases "try_send snapshot (hub_channels h ! b)")
  case (Some ch)
  show thesis
  proof (rule that)
    show "hub_run (\<lambda>_ _. True) h (replicate (Suc 0) ASelect) (hub_select h)"
      using assms by (intro select_run) (simp_all add: hub_run.stop)
  qed (use assms Some in \<open>simp_all add: hub_select_def\<close>)
next
  case None
  let ?h1 = "hub_select h"
  let ?h2 = "hub_select ?h1"
  have h1: "?h1 = h\<lparr>hub_notifier := Some (snapshot, b # rest, Drain)\<rparr>"
    using assms None by (simp add: hub_select_def)
  have h2: "hub_notifier ?h2 = Some (snapshot, b # rest, Retry)" "hub_closed ?h2 = hub_closed h"
    "\<not> hub_panicked ?h2"
    using assms(3) unfolding h1 by (simp_all add: hub_select_def hub_receive_def)
  show thesis
  proof (rule that)
    show "hub_run (\<lambda>_ _. True) h (replicate (Suc (Suc (Suc 0))) ASelect) (hub_select ?h2)"
      using assms h2 by (intro select_run) (simp_all add: h1 hub_run.stop)
  qed (use assms(2) h2 in \<open>simp_all add: hub_select_def [of ?h2] split: option.split\<close>)
qed

lemma closed_target_panics:
  assumes "hub_notifier h = Some (snapshot, as, Offer)" and "a \<in> set as" and "a \<in> set (hub_closed h)"
    and "\<not> hub_panicked h"
  shows "\<exists>n h'. hub_run (\<lambda>_ _. True) h (replicate n ASelect) h' \<and> hub_panicked h'"
  using assms
proof (induction as arbitrary: h)
  case (Cons b as)
  show ?case
  proof (cases "b \<in> set (hub_closed h)")
    case True
    have "hub_run (\<lambda>_ _. True) h (replicate (Suc 0) ASelect) (hub_select h)"
      using Cons.prems by (intro select_run) (simp_all add: hub_run.stop)
    moreover have "hub_panicked (hub_select h)" using Cons.prems True by (simp add: hub_select_def)
    ultimately show ?thesis by (intro exI conjI)
  next
    case False
    obtain n h1 where h1: "hub_run (\<lambda>_ _. True) h (replicate n ASelect) h1"
      "hub_notifier h1 = Some (snapshot, as, Offer)" "hub_closed h1 = hub_closed h" "\<not> hub_panicked h1"
      by (rule visit_open [OF Cons.prems(1) False Cons.prems(4)])
    have "a \<in> set as" "a \<in> set (hub_closed h1)" using Cons.prems(2,3) False h1(3) by auto
    then obtain m h2 where h2: "hub_run (\<lambda>_ _. True) h1 (replicate m ASelect) h2" "hub_panicked h2"
      using Cons.IH [OF h1(2) _ _ h1(4)] by blast
    show ?thesis
      using hub_run_append [OF h1(1) h2(1)] h2(2) by (intro exI [of _ "n + m"] exI) (simp add: replicate_add)
  qed
qed simp

subsection \<open>Properties\<close>

text \<open>C37: whatever the store did before, a subscriber that unsubscribes after a notification has
  copied the list of subscribers and before it has sent to it makes the notifier panic, on its
  send to the closed channel: notifying, then unsubscribing, then running the notifier's selects
  ends in a panic for every subscriber and every order of the list.\<close>

theorem unsubscribe_during_notify_panics:
  assumes "hub_run (\<lambda>_ _. True) new_hub acts h" and "\<not> hub_panicked h" and "hub_notifier h = None"
    and "fmlookup (hub_subscribers h) key = Some a"
    and "distinct as" and "set as = fset (fmran (hub_subscribers h))"
  shows "\<exists>n h'. hub_run (\<lambda>_ _. True) h (ANotify snapshot as # AUnsubscribe key a # replicate n ASelect) h'
    \<and> hub_panicked h'"
proof -
  let ?h1 = "h\<lparr>hub_notifier := Some (snapshot, as, Offer)\<rparr>"
  let ?h2 = "hub_unsubscribe key a ?h1"
  have "hub_ok h" using hub_run_ok [OF assms(1) hub_ok_new] .
  then have handle: "(key, a) \<in> set (hub_handles ?h1)" using assms(4) by (simp add: hub_ok_def)
  have "a \<in> set as" using assms(4,6) by (auto simp: fmlookup_ran_iff)
  moreover have "a \<in> set (hub_closed ?h2)" by (simp add: hub_unsubscribe_def)
  ultimately obtain n h' where run: "hub_run (\<lambda>_ _. True) ?h2 (replicate n ASelect) h'" "hub_panicked h'"
    using closed_target_panics [of ?h2 snapshot as a] assms(2) by auto
  have "hub_step h (ANotify snapshot as) ?h1" by (rule hub_step.notify [OF assms(2,3,5,6)])
  moreover have "hub_step ?h1 (AUnsubscribe key a) ?h2"
    using assms(2) handle by (simp add: hub_step_unsubscribe)
  ultimately show ?thesis
    using run by (intro exI [of _ n] exI [of _ h']) (auto intro: hub_run.intros)
qed

lemma unsubscribe_during_notify_panics_witness:
  "\<exists>n h'. hub_run (\<lambda>_ _. True) (hub_subscribe 1 new_hub)
     (ANotify (EmptySnapshot 0) [0] # AUnsubscribe 1 0 # replicate n ASelect) h' \<and> hub_panicked h'"
proof (rule unsubscribe_during_notify_panics)
  have "hub_step new_hub (ASubscribe 1) (hub_subscribe 1 new_hub)"
    by (rule hub_step.subscribe) (simp add: new_hub_def)
  then show "hub_run (\<lambda>_ _. True) new_hub [ASubscribe 1] (hub_subscribe 1 new_hub)"
    using hub_run.stop by (rule hub_run.more [OF TrueI])
qed (simp_all add: new_hub_def one_subscriber)

text \<open>C18: when no goroutine unsubscribes while a notification is under way, no send ever
  panics, whatever else interleaves.\<close>

theorem quiet_runs_never_panic:
  assumes "hub_run quiet new_hub acts h"
  shows "\<not> hub_panicked h"
proof -
  have "targets_open new_hub" by (simp add: targets_open_def new_hub_def)
  from quiet_run_open [OF assms hub_ok_new this] show ?thesis by (simp add: targets_open_def)
qed

lemma quiet_runs_never_panic_witness:
  "\<not> hub_panicked (hub_select ((hub_subscribe 1 new_hub)\<lparr>hub_notifier := Some (EmptySnapshot 0, [0], Offer)\<rparr>))"
proof (rule quiet_runs_never_panic)
  let ?s = "EmptySnapshot 0"
  let ?h1 = "hub_subscribe 1 new_hub"
  let ?h2 = "?h1\<lparr>hub_notifier := Some (?s, [0], Offer)\<rparr>"
  have "hub_step new_hub (ASubscribe 1) ?h1" by (rule hub_step.subscribe) (simp add: new_hub_def)
  moreover have "hub_step ?h1 (ANotify ?s [0]) ?h2"
    by (rule hub_step.notify) (simp_all add: new_hub_def one_subscriber)
  moreover have "hub_step ?h2 ASelect (hub_select ?h2)"
    by (rule hub_step.select) (simp_all add: hub_subscribe_def Let_def new_hub_def)
  moreover have "quiet new_hub (ASubscribe 1)" "quiet ?h1 (ANotify ?s [0])" "quiet ?h2 ASelect"
    by (simp_all add: quiet_def)
  ultimately show "hub_run quiet new_hub [ASubscribe 1, ANotify ?s [0], ASelect] (hub_select ?h2)"
    by (blast intro: hub_run.intros)
qed

end
