(* ===== verification/RuleExchange.thy ===== *)
theory RuleExchange
  imports GrpcProperties
begin

text \<open>
  The unary calls about rules put together: a client fetches rules with \<open>GetRuleSnapshot\<close> and
  later asks with \<open>ValidateRuleSnapshot\<close>, or over its session, whether they still hold. The
  client is not part of the repository; all that is assumed of it is that the digest it sends
  of a rule has the fields it was given.
\<close>

definition client_digest :: "RateLimitRule \<Rightarrow> RuleDigest" where
  "client_digest r =
     \<lparr>Dig_ApplicationCode = RLRule_ApplicationCode r, Dig_RuleId = RLRule_RuleId r,
      Dig_Revision = RLRule_Revision r, Dig_Checksum = RLRule_Checksum r,
      Dig_SchemaVersion = RLRule_SchemaVersion r\<rparr>"

lemma client_digest_toProtoRule [simp]: "client_digest (toProtoRule rule) = toDigest rule"
  by (simp add: client_digest_def toProtoRule_def toDigest_def)

lemma toDigest_fields [simp]:
  "Dig_ApplicationCode (toDigest rule) = rule_ApplicationCode rule" "Dig_RuleId (toDigest rule) = rule_RuleID rule"
  "Dig_Revision (toDigest rule) = Revision rule" "Dig_Checksum (toDigest rule) = rule_Checksum rule"
  by (simp_all add: toDigest_def)

text \<open>A rule without a version has no revision, which does not parse and so is not compared.\<close>

lemma own_revision_not_older:
  "ParseInt (Revision rule) = (v, err) \<Longrightarrow> err = None \<Longrightarrow> v = rule_SnapshotVersion rule"
proof (cases "rule_SnapshotVersion rule = 0")
  case True
  then show "ParseInt (Revision rule) = (v, err) \<Longrightarrow> err = None \<Longrightarrow> v = rule_SnapshotVersion rule"
    by (auto simp: Revision_def ParseInt_def parse_int_def)
qed (simp add: Revision_def ParseInt_FormatInt)

lemma validateDigest_own:
  assumes "FindRule st (rule_ApplicationCode rule) (rule_RuleID rule) = (rule, True)"
  shows "validateDigest st (toDigest rule) =
    \<lparr>ValResult_ClientDigest = Some (toDigest rule), ValResult_ServerDigest = Some (toDigest rule),
     ValResult_Status = RULE_VALIDATION_STATUS_MATCHED, ValResult_Message = ''matched''\<rparr>"
  using own_revision_not_older [of rule]
  by (auto simp: validateDigest_def assms Let_def split: prod.split)

lemma listed_rule_found:
  assumes "store_wf st" and "range_order ord" and "rule \<in> set (Rules ord st app ks)"
  shows "FindRule st (rule_ApplicationCode rule) (rule_RuleID rule) = (rule, True)"
    and "rule_ApplicationCode rule = app"
proof -
  have found: "FindRule st app (rule_RuleID rule) = (rule, True)"
    using assms(3) store.listed_iff [OF assms(1,2)] by blast
  then show "rule_ApplicationCode rule = app" by (rule FindRule_id(3) [OF assms(1)])
  with found show "FindRule st (rule_ApplicationCode rule) (rule_RuleID rule) = (rule, True)" by simp
qed

lemma listed_application_trimmed:
  assumes "store_wf st" and "FindRule st app k = (rule, True)"
  shows "TrimSpace app = app"
proof -
  obtain snapshot a where "store_current st = Some snapshot" "fmlookup (snap_Apps snapshot) app = Some a"
    using assms(2) by (auto simp: FindRule_iff rule_at_def split: option.splits)
  then show ?thesis using assms(1) by (auto simp: store_wf_def snapshot_wf_def app_wf_def)
qed

lemma own_digests_unchanged:
  assumes "store_wf st" and "range_order ord" and "range_order ord'"
  shows "changedDigests ord' st app (map toDigest (Rules ord st app [])) = []"
proof -
  note listed = listed_rule_found [OF assms(1,2)]
  have same_code: "chooseString [app, app] = app" if "rule \<in> set (Rules ord st app [])" for rule
    using listed [OF that] listed_application_trimmed [OF assms(1)] by auto
  have "list_all (agrees st app) (map toDigest (Rules ord st app []))"
    using listed same_code by (force simp: list_all_iff agrees_def simp del: chooseString.simps)
  moreover have "seen_key (rule_ApplicationCode rule) (rule_RuleID rule) \<in>
      set (snd (changed_loop st app (map toDigest (Rules ord st app []))))"
    if "rule \<in> set (Rules ord' st app [])" for rule
  proof -
    have "rule \<in> set (Rules ord st app [])"
      using that store.listed_iff [OF assms(1,2)] store.listed_iff [OF assms(1,3)] by blast
    then show ?thesis
      using listed same_code
      by (force simp: changed_loop_seen simp del: chooseString.simps)
  qed
  ultimately show ?thesis
    using changed_loop_empty [of st app "map toDigest (Rules ord st app [])"]
    by (auto simp: changedDigests_def filter_empty_conv split: prod.split)
qed

lemma overall_status_matched: "set statuses \<subseteq> {RULE_VALIDATION_STATUS_MATCHED} \<Longrightarrow>
    overall_status statuses = RULE_VALIDATION_STATUS_MATCHED"
  by (subst overall_status_def) (auto simp: filter_empty_conv Let_def)

text \<open>C30: while the rules stay as they are, whatever a client has fetched is confirmed: the digests
  of the rules of a snapshot response all match, in an overall result that matches, and a
  client that has fetched all rules of its application is told of no change.\<close>

theorem fetched_rules_validate:
  assumes "store_wf st" and "range_order ord" and "range_order ord'"
    and "GetRuleSnapshot ord md st st now request s = Inr response"
    and "ValReq_GetRuleDigests validation = map client_digest (SnapRes_Rules response)"
  shows "ValidateRuleSnapshot md st validation s =
      Inr \<lparr>ValRes_ApplicationCode = ValReq_GetApplicationCode validation,
           ValRes_Status = RULE_VALIDATION_STATUS_MATCHED,
           ValRes_Results = map (\<lambda>r.
             \<lparr>ValResult_ClientDigest = Some (client_digest r), ValResult_ServerDigest = Some (client_digest r),
              ValResult_Status = RULE_VALIDATION_STATUS_MATCHED, ValResult_Message = ''matched''\<rparr>)
             (SnapRes_Rules response)\<rparr> \<and>
    (SnapReq_GetRuleIds request = [] \<longrightarrow>
      changedDigests ord' st (SnapRes_ApplicationCode response) (ValReq_GetRuleDigests validation) = [])"
proof -
  let ?app = "SnapReq_GetApplicationCode request"
  let ?rules = "Rules ord st ?app (SnapReq_GetRuleIds request)"
  have response: "authorize md s = None" "SnapRes_ApplicationCode response = ?app"
    "SnapRes_Rules response = map toProtoRule ?rules"
    using assms(4) by (auto simp: GetRuleSnapshot_def Let_def split: option.splits)
  then have digests: "ValReq_GetRuleDigests validation = map toDigest ?rules" using assms(5) by simp
  have results: "map (validateDigest st) (map toDigest ?rules) = map (\<lambda>r.
      \<lparr>ValResult_ClientDigest = Some (client_digest r), ValResult_ServerDigest = Some (client_digest r),
       ValResult_Status = RULE_VALIDATION_STATUS_MATCHED, ValResult_Message = ''matched''\<rparr>)
      (SnapRes_Rules response)"
    using listed_rule_found(1) [OF assms(1,2)] by (simp add: response(3) validateDigest_own)
  have "overall_status (map ValResult_Status (map (validateDigest st) (map toDigest ?rules))) =
      RULE_VALIDATION_STATUS_MATCHED"
    unfolding results by (rule overall_status_matched) auto
  then show ?thesis
    using own_digests_unchanged [OF assms(1,2,3), of ?app] response(2)
    by (simp add: ValidateRuleSnapshot_overall response(1) digests results [symmetric] Let_def del: map_map)
qed

lemma fetched_rules_validate_witness:
  "\<exists>response. GetRuleSnapshot sample_ord None (sample_store (sample_rule 3 60)) (sample_store (sample_rule 3 60)) 50
      (Some \<lparr>SnapReq_ApplicationCode = ''shop'', SnapReq_RuleIds = [], SnapReq_KnownRevision = []\<rparr>)
      (sample_server []) = (Inr response :: string rpc_error + GetRuleSnapshotResponse) \<and>
    length (SnapRes_Rules response) = 1 \<and>
    changedDigests sample_ord (sample_store (sample_rule 3 60)) ''shop''
      (map client_digest (SnapRes_Rules response)) = []"
proof -
  let ?st = "sample_store (sample_rule 3 60)"
  let ?request = "Some \<lparr>SnapReq_ApplicationCode = ''shop'', SnapReq_RuleIds = [], SnapReq_KnownRevision = []\<rparr>"
  let ?response = "\<lparr>SnapRes_ApplicationCode = ''shop'', SnapRes_Revision = FormatInt 7, SnapRes_Checksum = ''sum'',
      SnapRes_Rules = map toProtoRule (Rules sample_ord ?st ''shop'' [])\<rparr>"
  have wf: "store_wf ?st"
    unfolding sample_store_def by (rule NewStore_wf) (rule sample_snapshot_wf)
  have current: "store_current ?st = Some (sample_snapshot (sample_rule 3 60))"
    by (simp add: sample_store_def NewStore_def Replace_def ReplaceWithContext_def cacheSnapshot_def notify_def Let_def)
  have call: "GetRuleSnapshot sample_ord None ?st ?st 50 ?request (sample_server []) =
      (Inr ?response :: string rpc_error + GetRuleSnapshotResponse)"
    by (simp add: GetRuleSnapshot_def authorize_def sample_server_def Store_Snapshot_def current
        SnapReq_GetApplicationCode_def SnapReq_GetRuleIds_def sample_snapshot_def Let_def)
  have "length (Rules sample_ord ?st ''shop'' []) = 1"
    by (simp add: Rules_def current sample_snapshot_def range_values_def sample_ord_def)
  moreover have "changedDigests sample_ord ?st (SnapRes_ApplicationCode ?response)
      (map client_digest (SnapRes_Rules ?response)) = []"
    using fetched_rules_validate [OF wf sample_ord_range sample_ord_range call,
        of "Some \<lparr>ValReq_ApplicationCode = ''shop'', ValReq_RuleDigests = map client_digest (SnapRes_Rules ?response)\<rparr>"]
    unfolding ValReq_GetRuleDigests_def SnapReq_GetRuleIds_def option.case ValidateRuleSnapshotRequest.simps
      GetRuleSnapshotRequest.simps
    by blast
  ultimately show ?thesis using call by (intro exI [of _ ?response]) simp
qed

end
