(* ===== verification/RuleProperties.thy ===== *)
theory RuleProperties
  imports RuleRefinement
begin

definition example_content :: "string \<Rightarrow> string" where
  \<open>example_content k = ''{"limit":[{"id":"'' @ k @ ''","quota":5,"window":9}]}''\<close>

definition example_config :: "string \<Rightarrow> string \<Rightarrow> PublishedConfig" where
  "example_config cid k =
     \<lparr>pc_ApplicationCode = ''shop'', pc_ConfigID = cid, pc_RuleName = ''x'',
      pc_RuleType = ''r'', pc_Content = example_content k, pc_ContentChecksum = ''s'' @ cid,
      pc_AggregateChecksum = [], pc_RuleCount = 1\<rparr>"

definition example_raw :: "string \<Rightarrow> string" where
  \<open>example_raw k = ''{"id":"'' @ k @ ''","quota":5,"window":9}''\<close>

definition example_rule :: "int64 \<Rightarrow> string \<Rightarrow> string \<Rightarrow> Rule" where
  "example_rule v cid k =
     \<lparr>rule_ApplicationCode = ''shop'', rule_ConfigID = cid, rule_RuleID = k, rule_Name = ''x'',
      rule_SnapshotVersion = v, rule_Checksum = ''s'' @ cid, rule_SchemaVersion = [],
      rule_Algorithm = ''fixed_window'', rule_Quota = 5, rule_WindowSeconds = 9, rule_Burst = 0,
      rule_Dimensions = None, rule_FailPolicy = ''fail_closed'', rule_Attributes = None,
      rule_Raw = Some (example_raw k)\<rparr>"

definition example_limit :: "string \<Rightarrow> string" where
  "example_limit k = ''['' @ example_raw k @ '']''"

text \<open>The texts of the example, scanned.\<close>

definition example_json :: "string \<Rightarrow> json" where
  "example_json k = JObject [(''id'', JString k), (''quota'', JNumber ''5''), (''window'', JNumber ''9'')]"

lemma example_values_1:
  "json_value (2 * length (example_content ''a'') + 1) 0 (example_content ''a'') =
    Some (JObject [(''limit'', JArray [example_json ''a''])], [])"
  by code_simp

lemma example_values_2:
  "json_value (2 * length (example_content ''b'') + 1) 0 (example_content ''b'') =
    Some (JObject [(''limit'', JArray [example_json ''b''])], [])"
  by code_simp

lemma example_values_3:
  "json_value (2 * length (example_limit ''a'') + 1) 0 (example_limit ''a'') = Some (JArray [example_json ''a''], [])"
  by code_simp

lemma example_values_4:
  "json_value (2 * length (example_limit ''b'') + 1) 0 (example_limit ''b'') = Some (JArray [example_json ''b''], [])"
  by code_simp

lemma example_values_5:
  "json_value (2 * length (example_raw ''a'') + 1) 0 (example_raw ''a'') = Some (example_json ''a'', [])"
  by code_simp

lemma example_values_6:
  "json_value (2 * length (example_raw ''b'') + 1) 0 (example_raw ''b'') = Some (example_json ''b'', [])"
  by code_simp

lemmas example_values =
  example_values_1 example_values_2 example_values_3 example_values_4 example_values_5
  example_values_6

lemma example_objects_1:
  "raw_object (example_content ''a'') = Some [(''limit'', example_limit ''a'')]"
  by code_simp

lemma example_objects_2:
  "raw_object (example_content ''b'') = Some [(''limit'', example_limit ''b'')]"
  by code_simp

lemma example_objects_3:
  "raw_array (example_limit ''a'') = Some [example_raw ''a'']"
  by code_simp

lemma example_objects_4:
  "raw_array (example_limit ''b'') = Some [example_raw ''b'']"
  by code_simp

lemmas example_objects =
  example_objects_1 example_objects_2 example_objects_3 example_objects_4

lemma example_members_1:
  "raw_object (example_raw ''a'') = Some [(''id'', [CHR 0x22, CHR ''a'', CHR 0x22]), (''quota'', ''5''), (''window'', ''9'')]"
  by code_simp

lemma example_members_2:
  "raw_object (example_raw ''b'') = Some [(''id'', [CHR 0x22, CHR ''b'', CHR 0x22]), (''quota'', ''5''), (''window'', ''9'')]"
  by code_simp

lemma example_members_3:
  "json_decode [CHR 0x22, CHR ''a'', CHR 0x22] = Some (JString ''a'')"
  by code_simp

lemma example_members_4:
  "json_decode [CHR 0x22, CHR ''b'', CHR 0x22] = Some (JString ''b'')"
  by code_simp

lemmas example_members =
  example_members_1 example_members_2 example_members_3 example_members_4

lemma example_starts:
  "\<not> json_ws (hd (example_content k))" "\<not> json_ws (hd (example_limit k))" "\<not> json_ws (hd (example_raw k))"
  "example_content k \<noteq> null" "example_limit k \<noteq> null" "example_raw k \<noteq> null"
  by (simp_all add: example_content_def example_limit_def example_raw_def json_ws_def null_def)

lemma example_texts:
  assumes "k = ''a'' \<or> k = ''b''"
  shows "raw_map (example_content k) = Some (fmap_of_list [(''limit'', example_limit k)])"
    "raw_list (example_limit k) = Some [example_raw k]"
    "raw_map (example_raw k) =
       Some (fmap_of_list [(''window'', ''9''), (''quota'', ''5''), (''id'', CHR 0x22 # k @ [CHR 0x22])])"
    "decode_into f (CHR 0x22 # k @ [CHR 0x22]) = f (JString k)"
proof -
  note content = example_values(1,2) [THEN scan_whole(1) [OF _ example_starts(1)]]
  note limit = example_values(3,4) [THEN scan_whole(1) [OF _ example_starts(2)]]
  note raw = example_values(5,6) [THEN scan_whole(1) [OF _ example_starts(3)]]
  note scanned = content limit raw example_objects example_members example_starts
  show "raw_map (example_content k) = Some (fmap_of_list [(''limit'', example_limit k)])"
    "raw_list (example_limit k) = Some [example_raw k]"
    "raw_map (example_raw k) =
       Some (fmap_of_list [(''window'', ''9''), (''quota'', ''5''), (''id'', CHR 0x22 # k @ [CHR 0x22])])"
    "decode_into f (CHR 0x22 # k @ [CHR 0x22]) = f (JString k)"
    using assms by (auto simp: raw_map_def raw_list_def decode_into_def scanned)
qed

lemma example_numbers: "decode_into f ''5'' = f (JNumber ''5'')" "decode_into f ''9'' = f (JNumber ''9'')"
proof -
  have "json_decode ''5'' = Some (JNumber ''5'')" "json_decode ''9'' = Some (JNumber ''9'')"
    by code_simp+
  then show "decode_into f ''5'' = f (JNumber ''5'')" "decode_into f ''9'' = f (JNumber ''9'')"
    by (simp_all add: decode_into_def)
qed

lemma example_trim:
  "TrimSpace ''a'' = ''a''" "TrimSpace ''b'' = ''b''" "TrimSpace ''shop'' = ''shop''"
  "TrimSpace ''c1'' = ''c1''" "TrimSpace ''c2'' = ''c2''" "TrimSpace ''sc1'' = ''sc1''"
  "TrimSpace ''sc2'' = ''sc2''" "TrimSpace ''fixed_window'' = ''fixed_window''"
  "TrimSpace ''fail_closed'' = ''fail_closed''"
  by code_simp+

lemma ParseInt_digits: "ParseInt ''5'' = (5, None)" "ParseInt ''9'' = (9, None)"
  by (simp_all add: ParseInt_def parse_int_def parse_int_unsigned_def parse_uint_def is_digit_def digit_val_def)

lemma example_content_trim: "TrimSpace (example_content ''a'') = example_content ''a''"
   "TrimSpace (example_content ''b'') = example_content ''b''"
  by code_simp+

lemma example_parseRule:
  assumes "k = ''a'' \<or> k = ''b''" and "TrimSpace (''s'' @ cid) = ''s'' @ cid"
  shows "parseRule (example_config cid k) v [] 0 (example_raw k) = Inr (example_rule v cid k)"
proof -
  have "TrimSpace k = k" "k \<noteq> []" using assms(1) by (auto simp: example_trim)
  then show ?thesis
    using assms(2)
    by (simp add: parseRule_def Let_def example_config_def example_rule_def example_texts [OF assms(1)]
        unmarshal_string_def unmarshal_int64_def rawInt64_def example_numbers
        unmarshal_any_map_def ParseInt_digits word_sle_eq example_trim)
qed

lemma example_parseRules:
  assumes "(cid, k) = (''c1'', ''a'') \<or> (cid, k) = (''c2'', ''b'')"
  shows "parseRules (example_config cid k) v (config_content (example_config cid k)) =
    Inr [example_rule v cid k]"
proof -
  have content: "config_content (example_config cid k) = example_content k"
    using assms by (auto simp: config_content_def Let_def example_config_def example_content_trim)
      (simp_all add: example_content_def)
  have k: "k = ''a'' \<or> k = ''b''" using assms by auto
  have rule: "parseRule (example_config cid k) v [] 0 (example_raw k) = Inr (example_rule v cid k)"
    by (rule example_parseRule) (use assms in \<open>auto simp: example_trim\<close>)
  show ?thesis
    by (simp add: parseRules_def content rule Let_def rawRules_of_def example_texts [OF k])
qed

lemma example_trimmed:
  "cid = ''c1'' \<or> cid = ''c2'' \<Longrightarrow> trimmed_config (example_config cid k) = example_config cid k"
  by (auto simp: trimmed_config_def example_config_def example_trim)

lemma example_config_keys:
  "pc_ApplicationCode (example_config cid k) = ''shop''" "pc_ConfigID (example_config cid k) = cid"
  by (simp_all add: example_config_def)

definition example_app :: "int64 \<Rightarrow> string \<Rightarrow> (string \<times> string) list \<Rightarrow> (string, Rule) fmap \<Rightarrow> Application" where
  "example_app v c entries rules =
     \<lparr>app_Code = ''shop'', app_Version = v, app_Checksum = c,
      app_Configs = fmap_of_list (map (\<lambda>(cid, k). (cid, published_config (example_config cid k))) entries),
      app_Rules = rules\<rparr>"

definition example_snapshot ::
    "int64 \<Rightarrow> string \<Rightarrow> time \<Rightarrow> (string \<times> string) list \<Rightarrow> (string, Rule) fmap \<Rightarrow> Snapshot" where
  "example_snapshot v c t entries rules =
     \<lparr>snap_Version = v, snap_Checksum = c, snap_GeneratedAt = t,
      snap_Apps = fmap_of_list [(''shop'', example_app v c entries rules)]\<rparr>"

lemma example_build:
  "BuildSnapshot v c t [example_config ''c1'' ''a''] =
     Inr (example_snapshot v c t [(''c1'', ''a'')] (fmap_of_list [(''a'', example_rule v ''c1'' ''a'')]))"
  by (simp add: BuildSnapshot_def applyConfig_def Let_def example_trimmed example_parseRules)
   (simp add: example_config_def existing_app_def new_Application_def deleteRulesForConfig_def
     insertRule_def example_rule_def example_snapshot_def example_app_def fmap_of_list.rep_eq)

definition example_change :: PublishedChange where
  "example_change =
     \<lparr>ch_Operation = ''upsert'', ch_FromSnapshotVersion = 1, ch_ToSnapshotVersion = 2,
      ch_ApplicationCode = ''shop'', ch_ConfigID = ''c2'', ch_PreviousChecksum = [],
      ch_CurrentChecksum = ''sc2'', ch_Config = Some (example_config ''c2'' ''b'')\<rparr>"

definition example_delta :: "time \<Rightarrow> Snapshot" where
  "example_delta t =
     example_snapshot 2 ''two'' t [(''c2'', ''b''), (''c1'', ''a'')]
       (fmap_of_list [(''b'', example_rule 2 ''c2'' ''b''), (''a'', example_rule 1 ''c1'' ''a'')])"

lemma example_trim_operations: "TrimSpace ''upsert'' = ''upsert''" "TrimSpace ''two'' = ''two''"
  by code_simp+

lemma example_upper: "ToUpper ''upsert'' = ''UPSERT''"
  by code_simp

lemma example_change_simps:
  "ToUpper (TrimSpace (ch_Operation example_change)) = ''UPSERT''"
  "ch_FromSnapshotVersion example_change = 1" "ch_ToSnapshotVersion example_change = 2"
  "ch_ApplicationCode example_change = ''shop''" "ch_ConfigID example_change = ''c2''"
  "ch_CurrentChecksum example_change = ''sc2''"
  "ch_Config example_change = Some (example_config ''c2'' ''b'')"
  by (simp_all add: example_change_def example_trim_operations example_upper del: ToUpper.simps)

lemma example_ApplyChanges:
  "ApplyChanges (example_snapshot 1 c t [(''c1'', ''a'')] (fmap_of_list [(''a'', example_rule 1 ''c1'' ''a'')]))
     2 ''two'' t' [example_change] = Inr (example_delta t')"
  by (simp add: ApplyChanges_def applyChange_def applyConfig_def Let_def example_trimmed
      example_parseRules example_change_simps example_trim_operations delete_operations_def
      upsert_operations_def)
   (simp add: example_config_def existing_app_def new_Application_def deleteRulesForConfig_def
     insertRule_def example_rule_def example_snapshot_def example_app_def fmap_of_list.rep_eq
     example_change_simps example_delta_def validateCurrentChecksum_def Let_def
     published_config_def example_trim word_sle_eq)

subsection \<open>The version stamps of rules\<close>

lemma applyConfig_rule:
  assumes wf: "snapshot_wf s" and ok: "applyConfig cfg0 s = Inr s'" and r: "rule_at s' code k = Some r"
  shows "rule_at s code k = Some r \<or> rule_SnapshotVersion r = snap_Version s"
  using ok
proof (rule applyConfig_Inr)
  fix cfg rs
  assume code: "pc_ApplicationCode cfg \<noteq> []"
    and p: "parseRules cfg (snap_Version s) (config_content cfg) = Inr rs"
    and s': "s' = s\<lparr>snap_Apps := fmupd (pc_ApplicationCode cfg)
      (upserted_app s cfg (existing_app s (pc_ApplicationCode cfg)) rs) (snap_Apps s)\<rparr>"
  show ?thesis
    using r rule_table_set [of rs k r] parseRules_ok [OF p, of r]
    by (auto simp: upsert_rule_at [OF wf code s'] split: if_splits option.splits)
qed

lemma applyConfig_keeps:
  assumes wf: "snapshot_wf s" and ok: "applyConfig cfg0 s = Inr s'" and r: "rule_at s code k = Some r"
    and other: "(code, rule_ConfigID r) \<noteq>
      (pc_ApplicationCode (trimmed_config cfg0), pc_ConfigID (trimmed_config cfg0))"
  shows "rule_at s' code k = Some r"
  using ok
proof (rule applyConfig_Inr)
  fix cfg rs
  assume cfg: "cfg = trimmed_config cfg0" and code: "pc_ApplicationCode cfg \<noteq> []"
    and nc: "\<not> id_conflict (pc_ConfigID cfg)
      (deleteRulesForConfig (pc_ConfigID cfg) (app_Rules (existing_app s (pc_ApplicationCode cfg)))) rs"
    and s': "s' = s\<lparr>snap_Apps := fmupd (pc_ApplicationCode cfg)
      (upserted_app s cfg (existing_app s (pc_ApplicationCode cfg)) rs) (snap_Apps s)\<rparr>"
  show ?thesis
  proof (cases "code = pc_ApplicationCode cfg")
    case False
    then show ?thesis using r by (simp add: upsert_rule_at [OF wf code s'])
  next
    case True
    have "fmlookup (app_Rules (upserted_app s cfg (existing_app s code) rs)) k = Some r"
      using nc other r True cfg existing_app_at(2) [OF wf code, of k]
      by (intro upserted_keeps_rule) auto
    then show ?thesis using True by (simp add: rule_at_def s')
  qed
qed

definition touches :: "PublishedChange \<Rightarrow> string \<Rightarrow> string \<Rightarrow> bool" where
  "touches ch code cid \<longleftrightarrow>
     (ch_ApplicationCode ch, ch_ConfigID ch) = (code, cid) \<or>
     (case ch_Config ch of None \<Rightarrow> False
      | Some cfg \<Rightarrow>
          (pc_ApplicationCode (trimmed_config cfg), pc_ConfigID (trimmed_config cfg)) = (code, cid))"

lemma applyChange_keeps:
  assumes "snapshot_wf s" and ok: "applyChange cur v ch s = Inr s'" and "rule_at s code k = Some r"
    and "\<not> touches ch code (rule_ConfigID r)"
  shows "rule_at s' code k = Some r"
  using ok
proof (cases rule: applyChange_cases)
  case delete
  with assms(3,4) show ?thesis by (auto simp: delete_rule_at touches_def)
next
  case (upsert cfg)
  show ?thesis
    using assms(4) upsert(1) by (intro applyConfig_keeps [OF assms(1) upsert(2) assms(3)])
      (auto simp: touches_def)
qed

lemma ApplyChanges_keeps:
  assumes ok: "ApplyChanges cur v c t chs = Inr s" and wf: "snapshot_wf cur"
    and r: "rule_at cur code k = Some r" and "\<forall>ch \<in> set chs. \<not> touches ch code (rule_ConfigID r)"
  shows "rule_at s code k = Some r"
proof -
  have "snapshot_wf s \<and> rule_at s code k = Some r"
  proof (rule fold_result_invariant [OF ApplyChanges_Inr(3) [OF ok]])
    show "snapshot_wf (cur\<lparr>snap_Version := v, snap_Checksum := c, snap_GeneratedAt := t\<rparr>) \<and>
      rule_at (cur\<lparr>snap_Version := v, snap_Checksum := c, snap_GeneratedAt := t\<rparr>) code k = Some r"
      using wf r by (simp add: snapshot_wf_def rule_at_def)
  qed (use assms(4) in \<open>auto intro: applyChange_wf applyChange_keeps\<close>)
  then show ?thesis ..
qed

lemma BuildSnapshot_frame [frame_simps]:
  assumes "BuildSnapshot v c t cfgs = Inr s"
  shows "snap_Version s = v" "snap_Checksum s = c" "snap_GeneratedAt s = t"
proof -
  have "snap_Version s = v \<and> snap_Checksum s = c \<and> snap_GeneratedAt s = t"
    using assms unfolding BuildSnapshot_def
    by (rule fold_result_invariant) (auto simp: frame_simps)
  then show "snap_Version s = v" "snap_Checksum s = c" "snap_GeneratedAt s = t" by simp_all
qed

lemma ApplyChanges_frame [frame_simps]:
  assumes "ApplyChanges cur v c t chs = Inr s"
  shows "snap_Version s = v" "snap_Checksum s = c" "snap_GeneratedAt s = t"
proof -
  have "snap_Version s = v \<and> snap_Checksum s = c \<and> snap_GeneratedAt s = t"
    using ApplyChanges_Inr(3) [OF assms] by (rule fold_result_invariant) (auto simp: frame_simps)
  then show "snap_Version s = v" "snap_Checksum s = c" "snap_GeneratedAt s = t" by simp_all
qed

lemma BuildSnapshot_version:
  assumes "BuildSnapshot v c t cfgs = Inr s" and "rule_at s code k = Some r"
  shows "rule_SnapshotVersion r = v"
proof -
  let ?P = "\<lambda>s. snapshot_wf s \<and> snap_Version s = v \<and>
    (\<forall>r. rule_at s code k = Some r \<longrightarrow> rule_SnapshotVersion r = v)"
  have "?P s"
    using assms(1) unfolding BuildSnapshot_def
  proof (rule fold_result_invariant [where P = ?P])
    fix cfg s s'
    assume P: "?P s" and ok: "applyConfig cfg s = Inr s'"
    with applyConfig_rule [OF _ ok, of code k] show "?P s'"
      by (auto simp: frame_simps intro: applyConfig_wf)
  qed (simp add: snapshot_wf_empty rule_at_def)
  then show ?thesis using assms(2) by simp
qed

subsection \<open>What a configuration declares\<close>

lemma applyConfig_ok_aux:
  "is_ok (applyConfig cfg0 s) \<longleftrightarrow>
     (let cfg = trimmed_config cfg0; app = existing_app s (pc_ApplicationCode cfg) in
      pc_ApplicationCode cfg \<noteq> [] \<and> pc_ConfigID cfg \<noteq> [] \<and>
      (case parseRules cfg (snap_Version s) (config_content cfg) of
         Inl _ \<Rightarrow> False
       | Inr rs \<Rightarrow> \<not> (\<exists>r \<in> set rs. \<exists>e. fmlookup (app_Rules app) (rule_RuleID r) = Some e \<and>
           rule_ConfigID e \<noteq> pc_ConfigID cfg)))"
proof -
  let ?cfg = "trimmed_config cfg0"
  let ?m = "app_Rules (existing_app s (pc_ApplicationCode ?cfg))"
  have conflict: "id_conflict (pc_ConfigID ?cfg) (deleteRulesForConfig (pc_ConfigID ?cfg) ?m) rs \<longleftrightarrow>
      (\<exists>r \<in> set rs. \<exists>e. fmlookup ?m (rule_RuleID r) = Some e \<and> rule_ConfigID e \<noteq> pc_ConfigID ?cfg)"
    for rs
    by (auto simp: id_conflict_def deleteRules_lookup split: option.splits if_splits)
  have "is_ok (fold_result (insertRule ?cfg) rs (deleteRulesForConfig (pc_ConfigID ?cfg) ?m)) \<longleftrightarrow>
      \<not> id_conflict (pc_ConfigID ?cfg) (deleteRulesForConfig (pc_ConfigID ?cfg) ?m) rs"
    if "parseRules ?cfg (snap_Version s) (config_content ?cfg) = Inr rs" for rs
  proof -
    have "rule_ConfigID r = pc_ConfigID ?cfg" if "r \<in> set rs" for r
      using parseRules_ok [OF \<open>parseRules _ _ _ = Inr rs\<close> that] by (simp add: rule_ok_def)
    then show ?thesis
      using insertRule_fold [of rs ?cfg "deleteRulesForConfig (pc_ConfigID ?cfg) ?m"]
      by (auto split: if_splits)
  qed
  then show ?thesis
    by (auto simp: applyConfig_cases Let_def conflict is_ok_def split: sum.splits)
qed

text \<open>What the configuration says beside its content and ids only labels the rules.\<close>

definition relabelled :: "PublishedConfig \<Rightarrow> string \<Rightarrow> string \<Rightarrow> string \<Rightarrow> int64 \<Rightarrow> PublishedConfig" where
  "relabelled cfg ruleType contentChecksum aggregateChecksum ruleCount =
     cfg\<lparr>pc_RuleType := ruleType, pc_ContentChecksum := contentChecksum,
         pc_AggregateChecksum := aggregateChecksum, pc_RuleCount := ruleCount\<rparr>"

lemma relabelled_simps [simp]:
  "pc_ApplicationCode (relabelled cfg y cs ag n) = pc_ApplicationCode cfg"
  "pc_ConfigID (relabelled cfg y cs ag n) = pc_ConfigID cfg"
  "pc_RuleName (relabelled cfg y cs ag n) = pc_RuleName cfg"
  "pc_Content (relabelled cfg y cs ag n) = pc_Content cfg"
  "config_content (relabelled cfg y cs ag n) = config_content cfg"
  "trimmed_config (relabelled cfg y cs ag n) = relabelled (trimmed_config cfg) y cs ag n"
  by (simp_all add: relabelled_def config_content_def trimmed_config_def)

definition labelled :: "string \<Rightarrow> Rule \<Rightarrow> Rule" where
  "labelled c r = r\<lparr>rule_Checksum := c\<rparr>"

lemma labelled_simps [simp]:
  "rule_RuleID (labelled c r) = rule_RuleID r" "rule_ConfigID (labelled c r) = rule_ConfigID r"
  by (simp_all add: labelled_def)

lemma parseRule_relabelled:
  "parseRule (relabelled cfg y cs ag n) v schema i raw =
     map_sum id (labelled (chooseString [cs, ag])) (parseRule cfg v schema i raw)"
proof -
  have sums: "pc_ContentChecksum (relabelled cfg y cs ag n) = cs" "pc_AggregateChecksum (relabelled cfg y cs ag n) = ag"
    by (simp_all add: relabelled_def)
  show ?thesis
    by (simp add: parseRule_def Let_def labelled_def sums del: chooseString.simps split: option.split)
qed

lemma parseRules_loop_relabelled:
  "parseRules_loop (relabelled cfg y cs ag n) v schema i raws =
     map_sum id (map (labelled (chooseString [cs, ag]))) (parseRules_loop cfg v schema i raws)"
  by (induction raws arbitrary: i)
    (simp_all add: parseRule_relabelled del: chooseString.simps split: sum.split)

lemma parseRules_relabelled:
  "(case parseRules (relabelled cfg y cs ag n) v content of Inl _ \<Rightarrow> False
      | Inr rs \<Rightarrow> P (map (\<lambda>r. (rule_RuleID r, rule_ConfigID r)) rs)) \<longleftrightarrow>
   (case parseRules cfg v content of Inl _ \<Rightarrow> False
      | Inr rs \<Rightarrow> P (map (\<lambda>r. (rule_RuleID r, rule_ConfigID r)) rs))"
  by (simp add: parseRules_def Let_def parseRules_loop_relabelled comp_def del: chooseString.simps
      split: option.split sum.split)

lemma conflict_pairs:
  "(\<exists>r \<in> set rs. \<exists>e. fmlookup m (rule_RuleID r) = Some e \<and> rule_ConfigID e \<noteq> cid) \<longleftrightarrow>
   (\<exists>p \<in> set (map (\<lambda>r. (rule_RuleID r, rule_ConfigID r)) rs). \<exists>e. fmlookup m (fst p) = Some e \<and> rule_ConfigID e \<noteq> cid)"
  by simp

subsection \<open>Padded ids\<close>

lemma padded_misses:
  assumes wf: "snapshot_wf s" and pad: "TrimSpace code \<noteq> code \<or> TrimSpace cid \<noteq> cid"
  shows "config_at s code cid = None" "rule_at s code k = Some r \<Longrightarrow> rule_ConfigID r \<noteq> cid"
proof -
  have missing: "fmlookup (app_Configs a) cid = None" if a: "fmlookup (snap_Apps s) code = Some a" for a
    using app_wf_config [OF snapshot_wf_app [OF wf a], of cid] snapshot_wf_app [OF wf a] pad
    by (cases "fmlookup (app_Configs a) cid") (auto simp: config_wf_def app_wf_def)
  then show "config_at s code cid = None" by (simp add: config_at_def split: option.split)
  show "rule_ConfigID r \<noteq> cid" if r: "rule_at s code k = Some r"
  proof -
    obtain a where a: "fmlookup (snap_Apps s) code = Some a" "fmlookup (app_Rules a) k = Some r"
      using r by (auto simp: rule_at_def split: option.splits)
    with app_wf_rule_config [OF snapshot_wf_app [OF wf a(1)] a(2)] missing [OF a(1)] show ?thesis by auto
  qed
qed

lemma deleteConfig_nothing:
  assumes "config_at s code cid = None" and "\<And>k r. rule_at s code k = Some r \<Longrightarrow> rule_ConfigID r \<noteq> cid"
  shows "config_at (deleteConfig code cid s) = config_at s" "rule_at (deleteConfig code cid s) = rule_at s"
  using assms by (auto intro!: ext simp: delete_config_at delete_rule_at split: option.split)

subsection \<open>Properties\<close>

text \<open>C9: a snapshot that \<open>BuildSnapshot\<close> returns is well formed and carries the requested
  version and checksum, and each of its rules the revision of that version.\<close>

theorem BuildSnapshot_well_formed:
  assumes "BuildSnapshot v c t cfgs = Inr s"
  shows "snapshot_wf s \<and> snap_Version s = v \<and> snap_Checksum s = c \<and> snap_GeneratedAt s = t \<and>
    (\<forall>code k r. rule_at s code k = Some r \<longrightarrow> rule_SnapshotVersion r = v)"
  using assms BuildSnapshot_wf_aux BuildSnapshot_version by (simp add: BuildSnapshot_frame)

lemma BuildSnapshot_well_formed_witness:
  "snapshot_wf (example_snapshot 1 ''one'' 0 [(''c1'', ''a'')]
     (fmap_of_list [(''a'', example_rule 1 ''c1'' ''a'')]))"
  using BuildSnapshot_well_formed [OF example_build [of 1 "''one''" 0]] by simp

text \<open>C14: a delta that \<open>ApplyChanges\<close> accepts advances the version, comes with a checksum,
  and turns a well-formed snapshot into a well-formed one with the target version and
  checksum; it leaves every rule of a configuration it does not touch as it was.\<close>

theorem ApplyChanges_well_formed:
  assumes "ApplyChanges cur v c t chs = Inr s" and "snapshot_wf cur"
  shows "snapshot_wf s \<and> snap_Version cur <s snap_Version s \<and> snap_Version s = v \<and>
    snap_Checksum s = c \<and> TrimSpace c \<noteq> [] \<and> snap_GeneratedAt s = t \<and>
    (\<forall>code k r. rule_at cur code k = Some r \<longrightarrow>
       (\<forall>ch \<in> set chs. \<not> touches ch code (rule_ConfigID r)) \<longrightarrow> rule_at s code k = Some r)"
  using ApplyChanges_Inr(1,2) [OF assms(1)] ApplyChanges_wf_aux [OF assms]
    ApplyChanges_keeps [OF assms]
  by (simp add: ApplyChanges_frame [OF assms(1)] word_sle_eq word_sless_alt not_le)

lemma ApplyChanges_well_formed_witness:
  "snapshot_wf (example_delta 7) \<and> rule_at (example_delta 7) ''shop'' ''a'' = Some (example_rule 1 ''c1'' ''a'')"
proof -
  have wf: "snapshot_wf (example_snapshot 1 ''one'' 0 [(''c1'', ''a'')]
     (fmap_of_list [(''a'', example_rule 1 ''c1'' ''a'')]))"
    by (rule BuildSnapshot_wf_aux [OF example_build])
  have "rule_at (example_snapshot 1 ''one'' 0 [(''c1'', ''a'')]
     (fmap_of_list [(''a'', example_rule 1 ''c1'' ''a'')])) ''shop'' ''a'' = Some (example_rule 1 ''c1'' ''a'')"
    by (simp add: rule_at_def example_snapshot_def example_app_def)
  moreover have "\<not> touches example_change ''shop'' (rule_ConfigID (example_rule 1 ''c1'' ''a''))"
    by (simp add: touches_def example_change_simps example_trimmed example_config_keys example_rule_def)
  ultimately show ?thesis
    using ApplyChanges_well_formed [OF example_ApplyChanges wf] by simp
qed

text \<open>C1: a delta gives the state that a full synchronisation would. From any well-formed
  snapshot that represents the configurations in force, a delta that is applied leads to one that
  represents those in force after its changes; and building a snapshot from exactly these succeeds,
  represents them too, and holds the same configurations and, up to the version each rule is
  stamped with, the same rules.\<close>

theorem delta_equals_full_sync:
  assumes "snapshot_wf s0" and "represents E s0" and "ApplyChanges s0 v c t chs = Inr s1"
    and "set cfgs = {cfg. \<exists>code cid. fold change_published chs E code cid = Some cfg}"
  shows "represents (fold change_published chs E) s1 \<and>
    (\<exists>s2. BuildSnapshot v c t cfgs = Inr s2 \<and> represents (fold change_published chs E) s2 \<and>
      (\<forall>code cid. config_at s2 code cid = config_at s1 code cid) \<and>
      (\<forall>code k. map_option (stamp 0) (rule_at s2 code k) = map_option (stamp 0) (rule_at s1 code k)))"
proof -
  have R: "represents (fold change_published chs E) s1"
    by (rule ApplyChanges_represents [OF assms(3,1,2)])
  obtain s2 where "BuildSnapshot v c t cfgs = Inr s2" "represents (fold change_published chs E) s2"
    using rebuild_represents [OF R ApplyChanges_wf_aux [OF assms(3,1)] assms(4)] by blast
  with R represents_unique [OF this(2) R] show ?thesis by blast
qed

lemma two_entries:
  assumes "\<And>code cid. E code cid = (if code = a \<and> cid = b then Some x
      else if code = a \<and> cid = d then Some y else None)" and "b \<noteq> d"
  shows "{cfg. \<exists>code cid. E code cid = Some cfg} = {x, y}"
proof -
  have "E a b = Some x" "E a d = Some y" using assms by simp_all
  moreover have "cfg \<in> {x, y}" if "E code cid = Some cfg" for code cid cfg
    using that by (simp add: assms(1) split: if_splits)
  ultimately show ?thesis by blast
qed

lemma delta_equals_full_sync_witness:
  "\<exists>s2. BuildSnapshot 2 ''two'' 7 [example_config ''c1'' ''a'', example_config ''c2'' ''b''] = Inr s2 \<and>
    (\<forall>code cid. config_at s2 code cid = config_at (example_delta 7) code cid) \<and>
    (\<forall>code k. map_option (stamp 0) (rule_at s2 code k) =
       map_option (stamp 0) (rule_at (example_delta 7) code k))"
proof -
  let ?E0 = "fold upsert_published [example_config ''c1'' ''a''] no_published"
  let ?E = "fold change_published [example_change] ?E0"
  have E: "?E code cid = (if code = ''shop'' \<and> cid = ''c1'' then Some (example_config ''c1'' ''a'')
      else if code = ''shop'' \<and> cid = ''c2'' then Some (example_config ''c2'' ''b'') else None)" for code cid
    by (simp add: change_published_def example_change_simps delete_operations_def
        upsert_published_def Let_def example_trimmed example_config_keys no_published_def)
  have "set [example_config ''c1'' ''a'', example_config ''c2'' ''b''] =
      {cfg. \<exists>code cid. ?E code cid = Some cfg}"
    by (subst two_entries [OF E]) simp_all
  from delta_equals_full_sync [OF BuildSnapshot_wf_aux [OF example_build] BuildSnapshot_represents [OF example_build]
      example_ApplyChanges this]
  show ?thesis by blast
qed

text \<open>C27: a configuration is applied exactly when its trimmed application code and id are
  not empty, its content parses, and none of its rule ids belongs to another configuration
  of the application; whatever rule type, checksums and rule count it declares, the outcome is the
  same.\<close>

theorem applyConfig_ok_iff:
  "(is_ok (applyConfig cfg0 s) \<longleftrightarrow>
     (let cfg = trimmed_config cfg0; app = existing_app s (pc_ApplicationCode cfg) in
      pc_ApplicationCode cfg \<noteq> [] \<and> pc_ConfigID cfg \<noteq> [] \<and>
      (case parseRules cfg (snap_Version s) (config_content cfg) of
         Inl _ \<Rightarrow> False
       | Inr rs \<Rightarrow> \<not> (\<exists>r \<in> set rs. \<exists>e. fmlookup (app_Rules app) (rule_RuleID r) = Some e \<and>
           rule_ConfigID e \<noteq> pc_ConfigID cfg)))) \<and>
   is_ok (applyConfig
     (cfg0\<lparr>pc_RuleType := y, pc_ContentChecksum := cs, pc_AggregateChecksum := ag, pc_RuleCount := n\<rparr>) s) =
   is_ok (applyConfig cfg0 s)"
  (is "?iff cfg0 \<and> is_ok (applyConfig ?cfg' s) = _")
proof -
  have iff: "?iff cfg0" for cfg0 by (rule applyConfig_ok_aux)
  have cfg': "?cfg' = relabelled cfg0 y cs ag n" by (simp add: relabelled_def)
  have "is_ok (applyConfig ?cfg' s) = is_ok (applyConfig cfg0 s)"
    unfolding cfg' iff Let_def conflict_pairs relabelled_simps
    using parseRules_relabelled [where cfg = "trimmed_config cfg0" and P = "\<lambda>ps. \<not> (\<exists>p \<in> set ps.
      \<exists>e. fmlookup (app_Rules (existing_app s (pc_ApplicationCode (trimmed_config cfg0)))) (fst p) = Some e \<and>
        rule_ConfigID e \<noteq> pc_ConfigID (trimmed_config cfg0))"]
    by blast
  with iff show ?thesis by blast
qed



text \<open>C36: a delete whose application code or config id is padded with white space, of a
  configuration that is there under the trimmed names and has the previous checksum the delete
  names (if it names one), is accepted and deletes nothing; with the names trimmed the same delete
  removes the configuration.\<close>

theorem padded_delete_deletes_nothing:
  assumes "snapshot_wf s"
    and "TrimSpace (ch_ApplicationCode ch) \<noteq> ch_ApplicationCode ch \<or> TrimSpace (ch_ConfigID ch) \<noteq> ch_ConfigID ch"
    and "ToUpper (TrimSpace (ch_Operation ch)) \<in> set delete_operations"
    and "ch_FromSnapshotVersion ch = 0 \<or> ch_FromSnapshotVersion ch = cur"
    and "ch_ToSnapshotVersion ch = 0 \<or> ch_ToSnapshotVersion ch = v"
    and "config_at s (TrimSpace (ch_ApplicationCode ch)) (TrimSpace (ch_ConfigID ch)) = Some cfg"
    and "TrimSpace (ch_PreviousChecksum ch) = [] \<or>
      TrimSpace (ch_PreviousChecksum ch) = chooseString [cfg_ContentChecksum cfg, cfg_AggregateChecksum cfg]"
  shows "(\<exists>s'. applyChange cur v ch s = Inr s' \<and> config_at s' = config_at s \<and> rule_at s' = rule_at s) \<and>
    (\<exists>s'. applyChange cur v (ch\<lparr>ch_ApplicationCode := TrimSpace (ch_ApplicationCode ch),
            ch_ConfigID := TrimSpace (ch_ConfigID ch)\<rparr>) s = Inr s' \<and>
       config_at s' (TrimSpace (ch_ApplicationCode ch)) (TrimSpace (ch_ConfigID ch)) = None)"
    (is "_ \<and> (\<exists>s'. applyChange cur v ?ch s = Inr s' \<and> _ s')")
proof -
  obtain a where a: "fmlookup (snap_Apps s) (TrimSpace (ch_ApplicationCode ch)) = Some a"
    "fmlookup (app_Configs a) (TrimSpace (ch_ConfigID ch)) = Some cfg"
    using assms(6) by (auto simp: config_at_def split: option.splits)
  have "validatePreviousChecksum s ch = None" "validatePreviousChecksum s ?ch = None"
    using assms(7) by (auto simp: validatePreviousChecksum_def Let_def a)
  then have "applyChange cur v ch s = Inr (deleteConfig (ch_ApplicationCode ch) (ch_ConfigID ch) s)"
    "applyChange cur v ?ch s =
       Inr (deleteConfig (TrimSpace (ch_ApplicationCode ch)) (TrimSpace (ch_ConfigID ch)) s)"
    using assms(3-5) by (auto simp: applyChange_def Let_def simp del: ToUpper.simps)
  with deleteConfig_nothing [OF padded_misses [OF assms(1,2)]] show ?thesis
    by (auto simp: delete_config_at)
qed

definition example_padded_delete :: PublishedChange where
  "example_padded_delete =
     \<lparr>ch_Operation = ''DELETE'', ch_FromSnapshotVersion = 0, ch_ToSnapshotVersion = 0,
      ch_ApplicationCode = ''shop'', ch_ConfigID = ''c1 '', ch_PreviousChecksum = ''sc1'',
      ch_CurrentChecksum = [], ch_Config = None\<rparr>"

lemma example_padded:
  "TrimSpace ''c1 '' = ''c1''" "ToUpper (TrimSpace ''DELETE'') = ''DELETE''"
  by code_simp+

lemma padded_delete_deletes_nothing_witness:
  "\<exists>s'. applyChange 1 2 example_padded_delete (example_delta 7) = Inr s' \<and>
     config_at s' ''shop'' ''c1'' = config_at (example_delta 7) ''shop'' ''c1''"
proof -
  have wf: "snapshot_wf (example_delta 7)"
    by (rule ApplyChanges_wf_aux [OF example_ApplyChanges BuildSnapshot_wf_aux [OF example_build]])
  have c1: "config_at (example_delta 7) ''shop'' ''c1'' = Some (published_config (example_config ''c1'' ''a''))"
    by (simp add: config_at_def example_delta_def example_snapshot_def example_app_def)
  have sums: "chooseString [cfg_ContentChecksum (published_config (example_config ''c1'' ''a'')),
      cfg_AggregateChecksum (published_config (example_config ''c1'' ''a''))] = ''sc1''"
    by (simp add: published_config_def) (simp add: example_config_def example_trim)
  show ?thesis
    using padded_delete_deletes_nothing [OF wf, where ch = example_padded_delete and cur = 1 and v = 2
        and cfg = "published_config (example_config ''c1'' ''a'')"] c1 sums
    by (simp add: example_padded_delete_def example_padded example_trim delete_operations_def del: ToUpper.simps)
      (metis)
qed

end
