(* ===== verification/RuntimeMessages.thy ===== *)
theory RuntimeMessages
  imports JsonStruct RuleStore
begin

text \<open>
  The messages of the StellOrbit runtime API in \<open>internal/runtimeapi/client.go\<close>: the pages of
  published configurations, deltas and watch events, their decoding by the tags of their
  fields, and what they say in the rule store's types. A snapshot page, a delta and a watch
  event are decoded into a struct with tags and copied, field by field, into one of the same
  fields without: one record stands for both.
\<close>

subsection \<open>Messages\<close>

record runtimeConfig =
  rt_ApplicationCode :: string
  rt_ConfigID :: string
  rt_RuleName :: string
  rt_RuleType :: string
  rt_Content :: string
  rt_Checksum :: string
  rt_AggregateChecksum :: string
  rt_ContentModel :: string
  rt_RuleCount :: int64

record runtimeChange =
  rch_Operation :: string
  rch_FromSnapshotVersion :: int64
  rch_ToSnapshotVersion :: int64
  rch_ApplicationCode :: string
  rch_ConfigID :: string
  rch_PreviousChecksum :: string
  rch_CurrentChecksum :: string
  rch_Config :: "runtimeConfig option"

record ConfigPage =
  page_Content :: "runtimeConfig list"
  page_Page :: int64
  page_Size :: int64
  page_TotalElements :: int64
  page_TotalPages :: int64

record SnapshotPage =
  sp_SnapshotVersion :: int64
  sp_Checksum :: string
  sp_GeneratedAt :: time
  sp_TotalApplications :: int64
  sp_TotalRules :: int64
  sp_Configs :: ConfigPage

record Delta =
  delta_FromSnapshotVersion :: int64
  delta_ToSnapshotVersion :: int64
  delta_FromChecksum :: string
  delta_ToChecksum :: string
  delta_GeneratedAt :: time
  delta_ChangeCount :: int64
  delta_Changes :: "runtimeChange list"

record WatchEvent =
  we_EventID :: string
  we_EventType :: string
  we_CurrentSnapshotVersion :: int64
  we_LatestSnapshotVersion :: int64
  we_LatestChecksum :: string
  we_GeneratedAt :: time
  we_Delta :: "Delta option"

definition zero_runtimeConfig :: runtimeConfig where
  "zero_runtimeConfig =
     \<lparr>rt_ApplicationCode = [], rt_ConfigID = [], rt_RuleName = [], rt_RuleType = [], rt_Content = [],
      rt_Checksum = [], rt_AggregateChecksum = [], rt_ContentModel = [], rt_RuleCount = 0\<rparr>"

definition zero_runtimeChange :: runtimeChange where
  "zero_runtimeChange =
     \<lparr>rch_Operation = [], rch_FromSnapshotVersion = 0, rch_ToSnapshotVersion = 0,
      rch_ApplicationCode = [], rch_ConfigID = [], rch_PreviousChecksum = [],
      rch_CurrentChecksum = [], rch_Config = None\<rparr>"

definition zero_SnapshotPage :: SnapshotPage where
  "zero_SnapshotPage =
     \<lparr>sp_SnapshotVersion = 0, sp_Checksum = [], sp_GeneratedAt = zero_time, sp_TotalApplications = 0,
      sp_TotalRules = 0,
      sp_Configs = \<lparr>page_Content = [], page_Page = 0, page_Size = 0, page_TotalElements = 0,
        page_TotalPages = 0\<rparr>\<rparr>"

definition zero_Delta :: Delta where
  "zero_Delta =
     \<lparr>delta_FromSnapshotVersion = 0, delta_ToSnapshotVersion = 0, delta_FromChecksum = [],
      delta_ToChecksum = [], delta_GeneratedAt = zero_time, delta_ChangeCount = 0, delta_Changes = []\<rparr>"

definition zero_WatchEvent :: WatchEvent where
  "zero_WatchEvent =
     \<lparr>we_EventID = [], we_EventType = [], we_CurrentSnapshotVersion = 0, we_LatestSnapshotVersion = 0,
      we_LatestChecksum = [], we_GeneratedAt = zero_time, we_Delta = None\<rparr>"

subsection \<open>The tags of the struct fields\<close>

definition dec_runtimeConfig :: "runtimeConfig decoder" where
  "dec_runtimeConfig = dec_struct
     [(''applicationCode'', dec_field rt_ApplicationCode rt_ApplicationCode_update dec_string),
      (''configId'', dec_field rt_ConfigID rt_ConfigID_update dec_string),
      (''ruleName'', dec_field rt_RuleName rt_RuleName_update dec_string),
      (''ruleType'', dec_field rt_RuleType rt_RuleType_update dec_string),
      (''content'', dec_field rt_Content rt_Content_update dec_string),
      (''checksum'', dec_field rt_Checksum rt_Checksum_update dec_string),
      (''aggregateChecksum'', dec_field rt_AggregateChecksum rt_AggregateChecksum_update dec_string),
      (''contentModel'', dec_field rt_ContentModel rt_ContentModel_update dec_raw),
      (''ruleCount'', dec_field rt_RuleCount rt_RuleCount_update dec_int64)]"

definition dec_runtimeChange :: "runtimeChange decoder" where
  "dec_runtimeChange = dec_struct
     [(''operation'', dec_field rch_Operation rch_Operation_update dec_string),
      (''fromSnapshotVersion'', dec_field rch_FromSnapshotVersion rch_FromSnapshotVersion_update dec_int64),
      (''toSnapshotVersion'', dec_field rch_ToSnapshotVersion rch_ToSnapshotVersion_update dec_int64),
      (''applicationCode'', dec_field rch_ApplicationCode rch_ApplicationCode_update dec_string),
      (''configId'', dec_field rch_ConfigID rch_ConfigID_update dec_string),
      (''previousChecksum'', dec_field rch_PreviousChecksum rch_PreviousChecksum_update dec_string),
      (''currentChecksum'', dec_field rch_CurrentChecksum rch_CurrentChecksum_update dec_string),
      (''config'', dec_field rch_Config rch_Config_update
         (dec_pointer dec_runtimeConfig zero_runtimeConfig))]"

definition dec_ConfigPage :: "ConfigPage decoder" where
  "dec_ConfigPage = dec_struct
     [(''content'', dec_field page_Content page_Content_update
         (dec_slice dec_runtimeConfig zero_runtimeConfig)),
      (''page'', dec_field page_Page page_Page_update dec_int64),
      (''size'', dec_field page_Size page_Size_update dec_int64),
      (''totalElements'', dec_field page_TotalElements page_TotalElements_update dec_int64),
      (''totalPages'', dec_field page_TotalPages page_TotalPages_update dec_int64)]"

definition dec_SnapshotPage :: "SnapshotPage decoder" where
  "dec_SnapshotPage = dec_struct
     [(''snapshotVersion'', dec_field sp_SnapshotVersion sp_SnapshotVersion_update dec_int64),
      (''checksum'', dec_field sp_Checksum sp_Checksum_update dec_string),
      (''generatedAt'', dec_field sp_GeneratedAt sp_GeneratedAt_update dec_time),
      (''totalApplications'', dec_field sp_TotalApplications sp_TotalApplications_update dec_int64),
      (''totalRules'', dec_field sp_TotalRules sp_TotalRules_update dec_int64),
      (''configs'', dec_field sp_Configs sp_Configs_update dec_ConfigPage)]"

definition dec_Delta :: "Delta decoder" where
  "dec_Delta = dec_struct
     [(''fromSnapshotVersion'', dec_field delta_FromSnapshotVersion delta_FromSnapshotVersion_update dec_int64),
      (''toSnapshotVersion'', dec_field delta_ToSnapshotVersion delta_ToSnapshotVersion_update dec_int64),
      (''fromChecksum'', dec_field delta_FromChecksum delta_FromChecksum_update dec_string),
      (''toChecksum'', dec_field delta_ToChecksum delta_ToChecksum_update dec_string),
      (''generatedAt'', dec_field delta_GeneratedAt delta_GeneratedAt_update dec_time),
      (''changeCount'', dec_field delta_ChangeCount delta_ChangeCount_update dec_int64),
      (''changes'', dec_field delta_Changes delta_Changes_update
         (dec_slice dec_runtimeChange zero_runtimeChange))]"

definition dec_WatchEvent :: "WatchEvent decoder" where
  "dec_WatchEvent = dec_struct
     [(''eventId'', dec_field we_EventID we_EventID_update dec_string),
      (''eventType'', dec_field we_EventType we_EventType_update dec_string),
      (''currentSnapshotVersion'',
        dec_field we_CurrentSnapshotVersion we_CurrentSnapshotVersion_update dec_int64),
      (''latestSnapshotVersion'',
        dec_field we_LatestSnapshotVersion we_LatestSnapshotVersion_update dec_int64),
      (''latestChecksum'', dec_field we_LatestChecksum we_LatestChecksum_update dec_string),
      (''generatedAt'', dec_field we_GeneratedAt we_GeneratedAt_update dec_time),
      (''delta'', dec_field we_Delta we_Delta_update (dec_pointer dec_Delta zero_Delta))]"

text \<open>What the messages say of configurations and changes, in the rule store's types.\<close>

definition Config_Published :: "runtimeConfig \<Rightarrow> PublishedConfig" where
  "Config_Published c =
     \<lparr>pc_ApplicationCode = rt_ApplicationCode c, pc_ConfigID = rt_ConfigID c,
      pc_RuleName = rt_RuleName c, pc_RuleType = rt_RuleType c,
      pc_Content =
        (if TrimSpace (rt_Content c) = [] \<and> rt_ContentModel c \<noteq> [] then rt_ContentModel c else rt_Content c),
      pc_ContentChecksum = rt_Checksum c, pc_AggregateChecksum = rt_AggregateChecksum c,
      pc_RuleCount = rt_RuleCount c\<rparr>"

definition Change_Published :: "runtimeChange \<Rightarrow> PublishedChange" where
  "Change_Published c =
     \<lparr>ch_Operation = rch_Operation c, ch_FromSnapshotVersion = rch_FromSnapshotVersion c,
      ch_ToSnapshotVersion = rch_ToSnapshotVersion c, ch_ApplicationCode = rch_ApplicationCode c,
      ch_ConfigID = rch_ConfigID c, ch_PreviousChecksum = rch_PreviousChecksum c,
      ch_CurrentChecksum = rch_CurrentChecksum c,
      ch_Config = map_option Config_Published (rch_Config c)\<rparr>"

end
