(* ===== verification/RuntimeClient.thy ===== *)
theory RuntimeClient
  imports RuntimeMessages
begin

text \<open>
  The HTTP client of \<open>internal/runtimeapi/client.go\<close>, by which the service pages through the
  published configurations, asks for changes and watches for them. The HTTP exchange itself
  is an argument: a transport answers a request with an error or with a response, from a
  state of the world that it changes. A request that \<open>http.NewRequest\<close> refuses is one that the
  transport answers with an error. The body of a response is its bytes and the error, if
  any, at which reading it stops before its end.
\<close>

definition runtimePath :: string where
  "runtimePath = ''/api/stellorbit/runtime/distributed-rate-limits''"

record Client =
  client_baseURL :: string
  client_authToken :: string

record HttpRequest =
  req_url :: string
  req_Accept :: string
  req_Authorization :: "string option"

record 'e HttpResponse =
  resp_StatusCode :: int64
  resp_body :: string
  resp_body_error :: "'e option"

type_synonym ('w, 'e) transport = "HttpRequest \<Rightarrow> 'w \<Rightarrow> ('e + 'e HttpResponse) \<times> 'w"

datatype 'e client_error =
    TransportError 'e
  | StatusError string int64 string
  | DecodeError
  | LineTooLong
  | HandlerError string

subsection \<open>Requests\<close>

definition NewClient :: "string \<Rightarrow> string option \<Rightarrow> Client" where
  "NewClient baseURL0 token =
     (let baseURL = rev (dropWhile (\<lambda>c. c = CHR ''/'') (rev (TrimSpace baseURL0)));
          baseURL = (if baseURL \<noteq> [] \<and> \<not> HasSuffix baseURL runtimePath then baseURL @ runtimePath else baseURL) in
      \<lparr>client_baseURL = baseURL,
       client_authToken = (case token of None \<Rightarrow> [] | Some token \<Rightarrow> TrimSpace token)\<rparr>)"

definition Enabled :: "Client option \<Rightarrow> bool" where
  "Enabled c = (case c of None \<Rightarrow> False | Some c \<Rightarrow> client_baseURL c \<noteq> [])"

text \<open>\<open>url.QueryEscape\<close> and \<open>url.Values.Encode\<close>, which sorts by key.\<close>

definition unreserved :: "char \<Rightarrow> bool" where
  "unreserved c \<longleftrightarrow>
     (let n = of_char c :: nat in
      48 \<le> n \<and> n \<le> 57 \<or> 65 \<le> n \<and> n \<le> 90 \<or> 97 \<le> n \<and> n \<le> 122 \<or> c \<in> set ''-_.~'')"

definition upper_hex :: "nat \<Rightarrow> char" where
  "upper_hex n = (if n < 10 then char_of (48 + n) else char_of (55 + n))"

definition escape_char :: "char \<Rightarrow> string" where
  "escape_char c =
     (if unreserved c then [c]
      else if c = CHR '' '' then ''+''
      else (let n = of_char c :: nat in [CHR ''%'', upper_hex (n div 16), upper_hex (n mod 16)]))"

definition QueryEscape :: "string \<Rightarrow> string" where
  "QueryEscape s = concat (map escape_char s)"

fun join_amp :: "string list \<Rightarrow> string" where
  "join_amp [] = []"
| "join_amp [x] = x"
| "join_amp (x # xs) = x @ ''&'' @ join_amp xs"

definition Encode :: "(string \<times> string) list \<Rightarrow> string" where
  "Encode values =
     join_amp (map (\<lambda>(k, v). QueryEscape k @ ''='' @ QueryEscape v) (sort_key fst values))"

definition client_endpoint :: "Client \<Rightarrow> string \<Rightarrow> (string \<times> string) list \<Rightarrow> string" where
  "client_endpoint c path values =
     (let endpoint = client_baseURL c @ path in
      if values \<noteq> [] then endpoint @ ''?'' @ Encode values else endpoint)"

definition setAuthHeader :: "Client \<Rightarrow> HttpRequest \<Rightarrow> HttpRequest" where
  "setAuthHeader c request =
     (if TrimSpace (client_authToken c) = [] then request
      else
        (let token = client_authToken c;
             token = (if HasPrefix (ToLower token) ''bearer '' then token else ''Bearer '' @ token) in
         request\<lparr>req_Authorization := Some token\<rparr>))"

definition client_request :: "Client \<Rightarrow> string \<Rightarrow> (string \<times> string) list \<Rightarrow> string \<Rightarrow> HttpRequest" where
  "client_request c path values accept =
     setAuthHeader c
       \<lparr>req_url = client_endpoint c path values, req_Accept = accept, req_Authorization = None\<rparr>"

text \<open>The status codes that are taken, and the part of the body that an error quotes.\<close>

definition failed_status :: "'e HttpResponse \<Rightarrow> bool" where
  "failed_status response \<longleftrightarrow> resp_StatusCode response <s 200 \<or> 300 \<le>s resp_StatusCode response"

definition error_body :: "'e HttpResponse \<Rightarrow> string" where
  "error_body response = TrimSpace (take 4096 (resp_body response))"

definition getJSON ::
    "('w, 'e) transport \<Rightarrow> Client \<Rightarrow> string \<Rightarrow> (string \<times> string) list \<Rightarrow> 'a decoder \<Rightarrow> 'a \<Rightarrow> 'w \<Rightarrow>
     ('e client_error + 'a) \<times> 'w" where
  "getJSON transport c path values dec zero w =
     (case transport (client_request c path values ''application/json'') w of
        (Inl e, w') \<Rightarrow> (Inl (TransportError e), w')
      | (Inr response, w') \<Rightarrow>
          (if failed_status response
           then (Inl (StatusError path (resp_StatusCode response) (error_body response)), w')
           else case Option.bind (first_value (resp_body response) (resp_body_error response \<noteq> None))
                       (\<lambda>raw. dec raw zero) of
             None \<Rightarrow> (Inl DecodeError, w')
           | Some v \<Rightarrow> (Inr v, w')))"

definition Client_Snapshot ::
    "('w, 'e) transport \<Rightarrow> Client \<Rightarrow> int64 \<Rightarrow> int64 \<Rightarrow> 'w \<Rightarrow> ('e client_error + SnapshotPage) \<times> 'w" where
  "Client_Snapshot transport c page sz =
     getJSON transport c ''/snapshot'' [(''page'', FormatInt page), (''size'', FormatInt sz)]
       dec_SnapshotPage zero_SnapshotPage"

definition Client_Changes ::
    "('w, 'e) transport \<Rightarrow> Client \<Rightarrow> int64 \<Rightarrow> string \<Rightarrow> 'w \<Rightarrow> ('e client_error + Delta) \<times> 'w" where
  "Client_Changes transport c currentVersion currentChecksum =
     getJSON transport c ''/changes''
       ((''currentSnapshotVersion'', FormatInt currentVersion) #
        (if TrimSpace currentChecksum \<noteq> [] then [(''currentChecksum'', currentChecksum)] else []))
       dec_Delta zero_Delta"

subsection \<open>Server-sent events\<close>

text \<open>
  \<open>bufio.Scanner\<close> with \<open>ScanLines\<close> and a buffer of 1 MiB: the lines, without the carriage
  return before the line feed, up to one that does not fit the buffer.
\<close>

definition max_line :: int where "max_line = 1024 * 1024"

definition drop_cr :: "string \<Rightarrow> string" where
  "drop_cr line = (if line \<noteq> [] \<and> last line = CHR 0x0D then butlast line else line)"

function scan_lines :: "string \<Rightarrow> string list \<times> bool" where
  "scan_lines s =
     (let line = takeWhile (\<lambda>c. c \<noteq> CHR 0x0A) s; rest = dropWhile (\<lambda>c. c \<noteq> CHR 0x0A) s in
      if max_line \<le> int (length line) then ([], True)
      else if rest = [] then (if s = [] then [] else [drop_cr line], False)
      else (case scan_lines (tl rest) of (lines, long) \<Rightarrow> (drop_cr line # lines, long)))"
  by pat_completeness auto
termination
proof (relation "measure length")
  fix s line rest :: string
  assume rest: "rest = dropWhile (\<lambda>c. c \<noteq> CHR 0x0A) s" "rest \<noteq> []"
  then have "length rest \<le> length s" by (simp add: length_dropWhile_le)
  moreover have "length (tl rest) < length rest" using rest(2) by (cases rest) simp_all
  ultimately show "(tl rest, s) \<in> measure length" by simp
qed simp

declare scan_lines.simps [simp del]

text \<open>
  The loop of \<open>scanSSE\<close> over the lines, with what the handler does to its state: the handler
  is given each event's data, the lines of which are joined by line feeds.
\<close>

type_synonym ('s, 'e) handler = "string \<Rightarrow> 's \<Rightarrow> 'e option \<times> 's"

definition add_data :: "string \<Rightarrow> string \<Rightarrow> string" where
  "add_data data line =
     (if data \<noteq> [] then data @ [CHR 0x0A] else data) @ TrimSpace (TrimPrefix line ''data:'')"

fun sse_loop :: "('s, 'e) handler \<Rightarrow> string list \<Rightarrow> string \<Rightarrow> 's \<Rightarrow> ('e + string) \<times> 's" where
  "sse_loop handle [] data s = (Inr data, s)"
| "sse_loop handle (line # lines) data s =
     (if line = [] then
        (case handle (TrimSpace data) s of
           (Some e, s') \<Rightarrow> (Inl e, s')
         | (None, s') \<Rightarrow> sse_loop handle lines [] s')
      else if HasPrefix line ''data:'' then sse_loop handle lines (add_data data line) s
      else sse_loop handle lines data s)"

definition scanSSE ::
    "('s, 'e client_error) handler \<Rightarrow> string \<Rightarrow> 'e option \<Rightarrow> 's \<Rightarrow> 'e client_error option \<times> 's" where
  "scanSSE handle body body_error s =
     (case scan_lines body of
        (lines, long) \<Rightarrow>
          (case sse_loop handle lines [] s of
             (Inl e, s') \<Rightarrow> (Some e, s')
           | (Inr data, s') \<Rightarrow>
               (if long then (Some LineTooLong, s')
                else case body_error of
                  Some e \<Rightarrow> (Some (TransportError e), s')
                | None \<Rightarrow> (if data \<noteq> [] then handle (TrimSpace data) s' else (None, s')))))"

text \<open>The handler of a watch: it decodes an event and hands it on.\<close>

definition watch_handler ::
    "(WatchEvent \<Rightarrow> 's \<Rightarrow> 'e client_error option \<times> 's) \<Rightarrow> ('s, 'e client_error) handler" where
  "watch_handler handle data s =
     (if TrimSpace data = [] then (None, s)
      else case Option.bind (whole_value data) (\<lambda>raw. dec_WatchEvent raw zero_WatchEvent) of
        None \<Rightarrow> (Some DecodeError, s)
      | Some event \<Rightarrow> handle event s)"

definition Client_Watch ::
    "('w, 'e) transport \<Rightarrow> Client \<Rightarrow> int64 \<Rightarrow> string \<Rightarrow>
     (WatchEvent \<Rightarrow> 's \<Rightarrow> 'e client_error option \<times> 's) \<Rightarrow> 's \<Rightarrow> 'w \<Rightarrow> ('e client_error option \<times> 's) \<times> 'w" where
  "Client_Watch transport c currentVersion currentChecksum handle s w =
     (let values =
            (if 0 <s currentVersion then [(''currentSnapshotVersion'', FormatInt currentVersion)] else []) @
            (if TrimSpace currentChecksum \<noteq> [] then [(''currentChecksum'', currentChecksum)] else []) in
      case transport (client_request c ''/watch'' values ''text/event-stream'') w of
        (Inl e, w') \<Rightarrow> ((Some (TransportError e), s), w')
      | (Inr response, w') \<Rightarrow>
          (if failed_status response
           then ((Some (StatusError ''/watch'' (resp_StatusCode response) (error_body response)), s), w')
           else (scanSSE (watch_handler handle) (resp_body response) (resp_body_error response) s, w')))"

end
