(* ===== verification/RuntimeProperties.thy ===== *)
theory RuntimeProperties
  imports RuntimeClient
begin

text \<open>
  The properties of the runtime API's client: event streams and queries arrive as they were
  sent.
\<close>

subsection \<open>Queries\<close>

text \<open>What a server reads back from an escaped query component.\<close>

definition hex_upper_val :: "char \<Rightarrow> nat" where
  "hex_upper_val c = (let n = of_char c :: nat in if n < 65 then n - 48 else n - 55)"

fun QueryUnescape :: "string \<Rightarrow> string" where
  "QueryUnescape [] = []"
| "QueryUnescape (c # s) =
     (if c = CHR ''+'' then CHR '' '' # QueryUnescape s
      else if c = CHR ''%'' then
        (case s of
           a # b # t \<Rightarrow> char_of (hex_upper_val a * 16 + hex_upper_val b) # QueryUnescape (drop 2 s)
         | _ \<Rightarrow> [])
      else c # QueryUnescape s)"

lemma hex_upper_val_upper_hex: "n < 16 \<Longrightarrow> hex_upper_val (upper_hex n) = n"
  by (auto simp: hex_upper_val_def upper_hex_def Let_def of_char_of)

lemma char_of_code: "char_of (37 :: nat) = CHR ''%''" "char_of (43 :: nat) = CHR ''+''"
  "char_of (32 :: nat) = CHR '' ''"
  by code_simp+

lemma QueryUnescape_escape_char: "QueryUnescape (escape_char c @ s) = c # QueryUnescape s"
proof -
  have n: "(of_char c :: nat) < 256" using nat_of_char_less_256 [of c] by simp
  show ?thesis
    using n by (auto simp: escape_char_def Let_def unreserved_def hex_upper_val_upper_hex
        less_mult_imp_div_less char_of_code)
qed

text \<open>A query that the client encodes reads back as it was, whatever bytes a checksum holds.\<close>

theorem QueryEscape_roundtrip: "QueryUnescape (QueryEscape s) = s"
  by (induction s) (simp_all add: QueryEscape_def QueryUnescape_escape_char)

subsection \<open>Event streams\<close>

text \<open>
  A line ends in a line feed, or in a carriage return and a line feed. An event is a sequence of
  lines and the end of an empty one; only its data lines carry a payload, whatever other fields,
  ids or comments stand between them.
\<close>

definition ended :: "string \<times> bool \<Rightarrow> string" where
  "ended line = fst line @ (if snd line then [CHR 0x0D, CHR 0x0A] else [CHR 0x0A])"

definition sse_event :: "(string \<times> bool) list \<times> bool \<Rightarrow> string" where
  "sse_event e = concat (map ended (fst e)) @ ended ([], snd e)"

definition sse_line :: "string \<times> bool \<Rightarrow> bool" where
  "sse_line line \<longleftrightarrow> fst line \<noteq> [] \<and> CHR 0x0A \<notin> set (fst line) \<and> last (fst line) \<noteq> CHR 0x0D \<and>
     1 + int (length (fst line)) < max_line"

definition data_values :: "(string \<times> bool) list \<Rightarrow> string list" where
  "data_values lines = map (\<lambda>l. TrimSpace (drop 5 l)) (filter (\<lambda>l. take 5 l = ''data:'') (map fst lines))"

text \<open>The payload of an event: its values, one to a line.\<close>

fun line_by_line :: "string list \<Rightarrow> string" where
  "line_by_line [] = []"
| "line_by_line [v] = v"
| "line_by_line (v # vs) = v @ CHR 0x0A # line_by_line vs"

definition payload :: "(string \<times> bool) list \<Rightarrow> string" where
  "payload lines = TrimSpace (line_by_line (data_values lines))"

text \<open>A handler that is given events in turn, up to its first error.\<close>

fun deliver :: "('s, 'e) handler \<Rightarrow> string list \<Rightarrow> 's \<Rightarrow> 'e option \<times> 's" where
  "deliver handle [] s = (None, s)"
| "deliver handle (e # es) s =
     (case handle e s of (Some err, s') \<Rightarrow> (Some err, s') | (None, s') \<Rightarrow> deliver handle es s')"

lemma deliver_append:
  "deliver handle (xs @ ys) s =
     (case deliver handle xs s of (Some err, s') \<Rightarrow> (Some err, s') | (None, s') \<Rightarrow> deliver handle ys s')"
  by (induction xs arbitrary: s) (auto split: prod.split option.split)

subsubsection \<open>Lines\<close>

lemma scan_lines_line:
  assumes "CHR 0x0A \<notin> set line" and "int (length line) < max_line"
  shows "scan_lines (line @ CHR 0x0A # rest) =
    (case scan_lines rest of (lines, long) \<Rightarrow> (drop_cr line # lines, long))"
proof -
  have "takeWhile (\<lambda>c. c \<noteq> CHR 0x0A) (line @ CHR 0x0A # rest) = line"
    "dropWhile (\<lambda>c. c \<noteq> CHR 0x0A) (line @ CHR 0x0A # rest) = CHR 0x0A # rest"
    using assms(1) by (auto simp: takeWhile_tail dropWhile_append3 takeWhile_append2 dropWhile_append2)
  with assms(2) show ?thesis
    by (simp add: scan_lines.simps [of "line @ CHR 0x0A # rest"])
qed

lemma scan_ended:
  assumes "sse_line line \<or> fst line = []"
  shows "scan_lines (ended line @ rest) = (case scan_lines rest of (lines, long) \<Rightarrow> (fst line # lines, long))"
proof -
  have l: "CHR 0x0A \<notin> set (fst line)" "fst line = [] \<or> last (fst line) \<noteq> CHR 0x0D"
    "1 + int (length (fst line)) < max_line"
    using assms by (auto simp: sse_line_def max_line_def)
  show ?thesis
  proof (cases "snd line")
    case True
    then have "scan_lines (ended line @ rest) =
        (case scan_lines rest of (lines, long) \<Rightarrow> (drop_cr (fst line @ [CHR 0x0D]) # lines, long))"
      using scan_lines_line [of "fst line @ [CHR 0x0D]" rest] l by (simp add: ended_def)
    then show ?thesis by (simp add: drop_cr_def)
  next
    case False
    then show ?thesis
      using scan_lines_line [of "fst line" rest] l by (auto simp: ended_def drop_cr_def)
  qed
qed

lemma scan_ended_lines:
  assumes "list_all sse_line lines"
  shows "scan_lines (concat (map ended lines) @ rest) =
    (case scan_lines rest of (ls, long) \<Rightarrow> (map fst lines @ ls, long))"
  using assms by (induction lines) (simp_all add: scan_ended split: prod.split)

lemma scan_events:
  assumes "list_all (\<lambda>e. list_all sse_line (fst e)) es" and "list_all sse_line tail"
  shows "scan_lines (concat (map sse_event es) @ concat (map ended tail)) =
    (concat (map (\<lambda>e. map fst (fst e) @ [[]]) es) @ map fst tail, False)"
  using assms
proof (induction es)
  case Nil
  have "scan_lines [] = ([], False)" by (simp add: scan_lines.simps max_line_def)
  then show ?case using scan_ended_lines [OF Nil(2), of "[]"] by simp
next
  case (Cons e es)
  then show ?case
    by (simp add: sse_event_def scan_ended_lines scan_ended split: prod.split)
qed

subsubsection \<open>Data\<close>

definition add_value :: "string \<Rightarrow> string \<Rightarrow> string" where
  "add_value v data = (if data \<noteq> [] then data @ [CHR 0x0A] else data) @ v"

lemma HasPrefix_data: "HasPrefix l ''data:'' \<longleftrightarrow> take 5 l = ''data:''"
proof
  assume "take 5 l = ''data:''"
  with append_take_drop_id [of 5 l] show "HasPrefix l ''data:''" by (metis HasPrefix_iff)
qed (auto simp: HasPrefix_iff)

lemma sse_loop_lines:
  assumes "list_all sse_line lines"
  shows "sse_loop handle (map fst lines @ rest) data s = sse_loop handle rest (fold add_value (data_values lines) data) s"
  using assms
proof (induction lines arbitrary: data)
  case (Cons line lines)
  have "add_data data (fst line) = add_value (TrimSpace (drop 5 (fst line))) data"
    if "take 5 (fst line) = ''data:''"
    using that unfolding add_data_def add_value_def TrimPrefix_def HasPrefix_data
    by (simp add: numeral_eq_Suc)
  with Cons show ?case
    by (simp add: HasPrefix_data data_values_def sse_line_def)
qed (simp add: data_values_def)

lemma line_by_line_snoc: "vs \<noteq> [] \<Longrightarrow> line_by_line (vs @ [v]) = line_by_line vs @ CHR 0x0A # v"
  by (induction vs rule: line_by_line.induct) simp_all

lemma added_values: "\<exists>n. line_by_line vs = replicate n (CHR 0x0A) @ fold add_value vs []"
proof (induction vs rule: rev_induct)
  case (snoc v vs)
  then obtain n where n: "line_by_line vs = replicate n (CHR 0x0A) @ fold add_value vs []" by blast
  have step: "fold add_value (vs @ [v]) [] = add_value v (fold add_value vs [])" by simp
  show ?case
  proof (cases "vs = []")
    case True
    then show ?thesis by (intro exI [of _ 0]) (simp add: add_value_def)
  next
    case False
    show ?thesis
    proof (cases "fold add_value vs [] = []")
      case True
      then have "line_by_line (vs @ [v]) = replicate (Suc n) (CHR 0x0A) @ fold add_value (vs @ [v]) []"
        unfolding step using n line_by_line_snoc [OF False, of v]
        by (simp add: add_value_def replicate_app_Cons_same)
      then show ?thesis by (rule exI)
    next
      case nonempty: False
      then have "line_by_line (vs @ [v]) = replicate n (CHR 0x0A) @ fold add_value (vs @ [v]) []"
        unfolding step using n line_by_line_snoc [OF False, of v] by (simp add: add_value_def)
      then show ?thesis by (rule exI)
    qed
  qed
qed (intro exI [of _ 0], simp)

lemma TrimSpace_feeds: "TrimSpace (replicate n (CHR 0x0A) @ x) = TrimSpace x"
proof (induction n)
  case (Suc n)
  have "space_prefix (CHR 0x0A # y) = 1" for y by (rule space_prefix_ascii) (simp add: ascii_space_def)
  then have "trim_left (CHR 0x0A # y) = trim_left y" for y by (subst trim_left.simps) simp
  with Suc show ?case by (simp add: TrimSpace_def)
qed simp

lemma added_payload: "TrimSpace (fold add_value (data_values lines) []) = payload lines"
  unfolding payload_def using added_values [of "data_values lines"] TrimSpace_feeds by auto

lemma added_empty: "fold add_value vs data = [] \<longleftrightarrow> data = [] \<and> (\<forall>v \<in> set vs. v = [])"
  by (induction vs arbitrary: data) (auto simp: add_value_def)

lemma sse_loop_events:
  assumes "list_all (\<lambda>e. list_all sse_line (fst e)) es"
  shows "sse_loop handle (concat (map (\<lambda>e. map fst (fst e) @ [[]]) es) @ rest) [] s =
    (case deliver handle (map (\<lambda>e. payload (fst e)) es) s of
       (None, s') \<Rightarrow> sse_loop handle rest [] s' | (Some err, s') \<Rightarrow> (Inl err, s'))"
  using assms
proof (induction es arbitrary: s)
  case (Cons e es)
  then show ?case by (simp add: sse_loop_lines added_payload split: prod.split option.split)
qed simp



end
