(* ===== verification/SnapshotCodec.thy ===== *)
theory SnapshotCodec
  imports RuleModel JsonCompact
begin

text \<open>
  The JSON of a snapshot, which \<open>internal/rulestore/store.go\<close> puts into the cache and reads
  back at the next start: \<open>json.Marshal\<close> and \<open>json.Unmarshal\<close> of the structs of \<open>model.go\<close>,
  which have no tags, so that the fields are named as in Go. A nil map or slice is \<open>null\<close>; the
  maps of a snapshot that is written are never nil, since \<open>Clone\<close> makes them.
\<close>

subsection \<open>Encoders\<close>

datatype marshal_error = ErrRawMessage string | ErrYearOutOfRange

type_synonym 'a encoder = "'a \<Rightarrow> marshal_error + string"

fun all_results :: "('e + 'a) list \<Rightarrow> 'e + 'a list" where
  "all_results [] = Inr []"
| "all_results (r # rs) =
     (case r of Inl e \<Rightarrow> Inl e | Inr x \<Rightarrow> (case all_results rs of Inl e \<Rightarrow> Inl e | Inr xs \<Rightarrow> Inr (x # xs)))"

definition enc_object :: "(string \<times> (marshal_error + string)) list \<Rightarrow> marshal_error + string" where
  "enc_object ms = map_sum id (\<lambda>raws. object_text (zip (map fst ms) raws)) (all_results (map snd ms))"

definition enc_string :: "string encoder" where "enc_string s = Inr (string_text s)"

definition enc_int64 :: "int64 encoder" where "enc_int64 w = Inr (FormatInt w)"

definition enc_time :: "time encoder" where
  "enc_time t =
     (case FormatRFC3339Nano t of
        None \<Rightarrow> Inl ErrYearOutOfRange
      | Some s \<Rightarrow> Inr (CHR 0x22 # s @ [CHR 0x22]))"

definition enc_raw :: "string option encoder" where
  "enc_raw r =
     (case r of
        None \<Rightarrow> Inr null
      | Some raw \<Rightarrow> (if json_decode raw = None then Inl (ErrRawMessage raw) else Inr (compact False raw)))"

definition enc_strings :: "string list option encoder" where
  "enc_strings r = (case r of None \<Rightarrow> Inr null | Some ss \<Rightarrow> Inr (array_text (map string_text ss)))"

definition enc_map :: "'a encoder \<Rightarrow> (string, 'a) fmap encoder" where
  "enc_map enc m =
     enc_object (map (\<lambda>k. (k, case fmlookup m k of None \<Rightarrow> Inr null | Some v \<Rightarrow> enc v))
       (sorted_list_of_fset (fmdom m)))"

definition enc_string_map :: "(string, string) fmap option encoder" where
  "enc_string_map r = (case r of None \<Rightarrow> Inr null | Some m \<Rightarrow> enc_map enc_string m)"

definition enc_Config :: "Config encoder" where
  "enc_Config c = enc_object
     [(''ApplicationCode'', enc_string (cfg_ApplicationCode c)),
      (''ConfigID'', enc_string (cfg_ConfigID c)),
      (''RuleName'', enc_string (cfg_RuleName c)),
      (''RuleType'', enc_string (cfg_RuleType c)),
      (''Content'', enc_raw (cfg_Content c)),
      (''ContentChecksum'', enc_string (cfg_ContentChecksum c)),
      (''AggregateChecksum'', enc_string (cfg_AggregateChecksum c)),
      (''RuleCount'', enc_int64 (cfg_RuleCount c))]"

definition enc_Rule :: "Rule encoder" where
  "enc_Rule r = enc_object
     [(''ApplicationCode'', enc_string (rule_ApplicationCode r)),
      (''ConfigID'', enc_string (rule_ConfigID r)),
      (''RuleID'', enc_string (rule_RuleID r)),
      (''Name'', enc_string (rule_Name r)),
      (''SnapshotVersion'', enc_int64 (rule_SnapshotVersion r)),
      (''Checksum'', enc_string (rule_Checksum r)),
      (''SchemaVersion'', enc_string (rule_SchemaVersion r)),
      (''Algorithm'', enc_string (rule_Algorithm r)),
      (''Quota'', enc_int64 (rule_Quota r)),
      (''WindowSeconds'', enc_int64 (rule_WindowSeconds r)),
      (''Burst'', enc_int64 (rule_Burst r)),
      (''Dimensions'', enc_strings (rule_Dimensions r)),
      (''FailPolicy'', enc_string (rule_FailPolicy r)),
      (''Attributes'', enc_string_map (rule_Attributes r)),
      (''Raw'', enc_raw (rule_Raw r))]"

definition enc_Application :: "Application encoder" where
  "enc_Application a = enc_object
     [(''Code'', enc_string (app_Code a)),
      (''Version'', enc_int64 (app_Version a)),
      (''Checksum'', enc_string (app_Checksum a)),
      (''Configs'', enc_map enc_Config (app_Configs a)),
      (''Rules'', enc_map enc_Rule (app_Rules a))]"

definition marshal_Snapshot :: "Snapshot encoder" where
  "marshal_Snapshot s = enc_object
     [(''Version'', enc_int64 (snap_Version s)),
      (''Checksum'', enc_string (snap_Checksum s)),
      (''GeneratedAt'', enc_time (snap_GeneratedAt s)),
      (''Apps'', enc_map enc_Application (snap_Apps s))]"

subsection \<open>Decoders\<close>

definition dec_raw_message :: "string option decoder" where "dec_raw_message raw old = Some (Some raw)"

definition dec_strings :: "string list option decoder" where
  "dec_strings raw old =
     (if raw = null then Some None
      else map_option Some (dec_slice dec_string [] raw (case old of None \<Rightarrow> [] | Some ss \<Rightarrow> ss)))"

text \<open>Each member goes into a fresh element, which then replaces that of the key.\<close>

fun dec_entries :: "'a decoder \<Rightarrow> 'a \<Rightarrow> (string \<times> string) list \<Rightarrow> (string, 'a) fmap \<Rightarrow> (string, 'a) fmap option" where
  "dec_entries dec zero [] m = Some m"
| "dec_entries dec zero ((k, raw) # ms) m =
     Option.bind (dec raw zero) (\<lambda>v. dec_entries dec zero ms (fmupd k v m))"

definition dec_map :: "'a decoder \<Rightarrow> 'a \<Rightarrow> (string, 'a) fmap decoder" where
  "dec_map dec zero raw old =
     (if raw = null then Some fmempty
      else Option.bind (raw_object raw) (\<lambda>ms. dec_entries dec zero ms old))"

definition dec_string_map :: "(string, string) fmap option decoder" where
  "dec_string_map raw old =
     (if raw = null then Some None
      else map_option Some (dec_map dec_string [] raw (case old of None \<Rightarrow> fmempty | Some m \<Rightarrow> m)))"

definition zero_Config :: Config where
  "zero_Config =
     \<lparr>cfg_ApplicationCode = [], cfg_ConfigID = [], cfg_RuleName = [], cfg_RuleType = [],
      cfg_Content = None, cfg_ContentChecksum = [], cfg_AggregateChecksum = [], cfg_RuleCount = 0\<rparr>"

definition zero_Application :: Application where
  "zero_Application =
     \<lparr>app_Code = [], app_Version = 0, app_Checksum = [], app_Configs = fmempty, app_Rules = fmempty\<rparr>"

definition zero_Snapshot :: Snapshot where
  "zero_Snapshot =
     \<lparr>snap_Version = 0, snap_Checksum = [], snap_GeneratedAt = zero_time, snap_Apps = fmempty\<rparr>"

definition config_fields :: "Config field list" where
  "config_fields =
     [(''ApplicationCode'', dec_field cfg_ApplicationCode cfg_ApplicationCode_update dec_string),
      (''ConfigID'', dec_field cfg_ConfigID cfg_ConfigID_update dec_string),
      (''RuleName'', dec_field cfg_RuleName cfg_RuleName_update dec_string),
      (''RuleType'', dec_field cfg_RuleType cfg_RuleType_update dec_string),
      (''Content'', dec_field cfg_Content cfg_Content_update dec_raw_message),
      (''ContentChecksum'', dec_field cfg_ContentChecksum cfg_ContentChecksum_update dec_string),
      (''AggregateChecksum'', dec_field cfg_AggregateChecksum cfg_AggregateChecksum_update dec_string),
      (''RuleCount'', dec_field cfg_RuleCount cfg_RuleCount_update dec_int64)]"

definition rule_fields :: "Rule field list" where
  "rule_fields =
     [(''ApplicationCode'', dec_field rule_ApplicationCode rule_ApplicationCode_update dec_string),
      (''ConfigID'', dec_field rule_ConfigID rule_ConfigID_update dec_string),
      (''RuleID'', dec_field rule_RuleID rule_RuleID_update dec_string),
      (''Name'', dec_field rule_Name rule_Name_update dec_string),
      (''SnapshotVersion'', dec_field rule_SnapshotVersion rule_SnapshotVersion_update dec_int64),
      (''Checksum'', dec_field rule_Checksum rule_Checksum_update dec_string),
      (''SchemaVersion'', dec_field rule_SchemaVersion rule_SchemaVersion_update dec_string),
      (''Algorithm'', dec_field rule_Algorithm rule_Algorithm_update dec_string),
      (''Quota'', dec_field rule_Quota rule_Quota_update dec_int64),
      (''WindowSeconds'', dec_field rule_WindowSeconds rule_WindowSeconds_update dec_int64),
      (''Burst'', dec_field rule_Burst rule_Burst_update dec_int64),
      (''Dimensions'', dec_field rule_Dimensions rule_Dimensions_update dec_strings),
      (''FailPolicy'', dec_field rule_FailPolicy rule_FailPolicy_update dec_string),
      (''Attributes'', dec_field rule_Attributes rule_Attributes_update dec_string_map),
      (''Raw'', dec_field rule_Raw rule_Raw_update dec_raw_message)]"

definition application_fields :: "Application field list" where
  "application_fields =
     [(''Code'', dec_field app_Code app_Code_update dec_string),
      (''Version'', dec_field app_Version app_Version_update dec_int64),
      (''Checksum'', dec_field app_Checksum app_Checksum_update dec_string),
      (''Configs'', dec_field app_Configs app_Configs_update (dec_map (dec_struct config_fields) zero_Config)),
      (''Rules'', dec_field app_Rules app_Rules_update (dec_map (dec_struct rule_fields) zero_Rule))]"

definition snapshot_fields :: "Snapshot field list" where
  "snapshot_fields =
     [(''Version'', dec_field snap_Version snap_Version_update dec_int64),
      (''Checksum'', dec_field snap_Checksum snap_Checksum_update dec_string),
      (''GeneratedAt'', dec_field snap_GeneratedAt snap_GeneratedAt_update dec_time),
      (''Apps'', dec_field snap_Apps snap_Apps_update (dec_map (dec_struct application_fields) zero_Application))]"

definition unmarshal_Snapshot :: "string \<Rightarrow> Snapshot option" where
  "unmarshal_Snapshot payload =
     Option.bind (whole_value payload) (\<lambda>raw. dec_struct snapshot_fields raw zero_Snapshot)"

subsection \<open>Reading back what was written\<close>

text \<open>
  A result that is a text, as it always is or as the whole document being one shows, is the
  text of one value, which is decoded into \<open>v\<close>.
\<close>

definition reads_back :: "nat \<Rightarrow> marshal_error + string \<Rightarrow> 'a decoder \<Rightarrow> 'a \<Rightarrow> 'a \<Rightarrow> bool" where
  "reads_back k res dec old v \<longleftrightarrow> (\<forall>raw. res = Inr raw \<longrightarrow> value_text k raw \<and> dec raw old = Some v)"

lemma reads_back_mono: "reads_back k res dec old v \<Longrightarrow> k \<le> k' \<Longrightarrow> reads_back k' res dec old v"
  using value_text_mono by (auto simp: reads_back_def)

lemma all_results_Inr: "all_results rs = Inr xs \<longleftrightarrow> rs = map Inr xs"
proof
  show "all_results rs = Inr xs \<Longrightarrow> rs = map Inr xs"
    by (induction rs arbitrary: xs) (auto split: sum.splits)
  have "all_results (map Inr xs) = Inr xs" by (induction xs) simp_all
  then show "rs = map Inr xs \<Longrightarrow> all_results rs = Inr xs" by simp
qed

lemma string_text_not_null: "string_text s \<noteq> null"
  by (simp add: string_text_def null_def)

lemma reads_back_string: "utf8_valid s \<Longrightarrow> reads_back 0 (enc_string s) dec_string old s"
proof -
  assume s: "utf8_valid s"
  have "json_value (2 * length (string_text s) + 1) 0 (string_text s) = Some (JString s, [])"
    using json_chars_encode [of s "[]"] s by (simp add: string_text_def utf8_valid_def)
  then have "json_decode (string_text s) = Some (JString s)"
    by (rule scan_whole(2)) (simp add: string_text_def)
  then show ?thesis
    by (simp add: reads_back_def enc_string_def value_text_string dec_string_def string_text_not_null
        unmarshal_string_def)
qed

lemma FormatInt_start: "is_digit (hd (FormatInt w)) \<or> hd (FormatInt w) = CHR ''-''"
  using json_number_split(3) [OF json_number_FormatInt] by blast

lemma reads_back_int64: "reads_back 0 (enc_int64 w) dec_int64 old w"
proof -
  obtain c r where c: "FormatInt w = c # r" "is_digit c \<or> c = CHR ''-''"
    using FormatInt_start [of w] by (cases "FormatInt w") simp_all
  then have "c \<notin> {CHR 0x22, CHR ''['', CHR ''{'', CHR ''n'', CHR ''t'', CHR ''f''}" by (auto simp: is_digit_def)
  then have "json_value (2 * length (FormatInt w) + 1) 0 (FormatInt w) = Some (JNumber (FormatInt w), [])"
    using json_number_FormatInt [of w] c(1) by simp
  moreover have "\<not> json_ws (hd (FormatInt w))" "FormatInt w \<noteq> null"
    using c by (auto simp: json_ws_def is_digit_def null_def)
  ultimately have "json_decode (FormatInt w) = Some (JNumber (FormatInt w))" by (intro scan_whole(2))
  then show ?thesis
    using \<open>FormatInt w \<noteq> null\<close>
    by (simp add: reads_back_def enc_int64_def value_text_FormatInt dec_int64_def unmarshal_int64_def
        ParseInt_FormatInt)
qed


lemma encode_chars_plain:
  "\<forall>c \<in> set s. html_safe c \<and> (of_char c :: nat) < 128 \<Longrightarrow> encode_chars s = s"
  by (induction s) (simp_all add: encode_chars.simps escape_byte_def)

lemma digit_html_safe: "is_digit c \<Longrightarrow> html_safe c \<and> (of_char c :: nat) < 128"
  by (auto simp: is_digit_def html_safe_def)

lemma FormatRFC3339Nano_plain:
  assumes "FormatRFC3339Nano t = Some s"
  shows "\<forall>c \<in> set s. html_safe c \<and> (of_char c :: nat) < 128"
proof -
  define P where "P c \<longleftrightarrow> html_safe c \<and> (of_char c :: nat) < 128" for c
  have digits: "list_all P (fixed_digits w n)" for w n
    using fixed_digits_are_digits digit_html_safe unfolding P_def list_all_iff by blast
  have signs: "P CHR ''-''" "P CHR '':''" "P CHR ''T''" "P CHR ''Z''" "P CHR ''.''"
    by (simp_all add: P_def html_safe_def)
  have "set (strip_zeros d) \<subseteq> set d" for d
    by (metis strip_zeros_split set_append sup_ge1)
  then have "list_all P (strip_zeros (fixed_digits w n))" for w n
    using digits unfolding list_all_iff by blast
  then have fraction: "list_all P (fraction_text n)" for n
    using signs by (simp add: fraction_text_def)
  obtain Y M D where date: "civil_from_days (t div 1000000000 div 86400) = (Y, M, D)" by (rule prod_cases3)
  let ?r = "t div 1000000000 mod 86400"
  have s: "s = fixed_digits 4 (nat Y) @ ''-'' @ fixed_digits 2 (nat M) @ ''-'' @ fixed_digits 2 (nat D) @ ''T'' @
      fixed_digits 2 (nat (?r div 3600)) @ '':'' @ fixed_digits 2 (nat (?r div 60 mod 60)) @ '':'' @
      fixed_digits 2 (nat (?r mod 60)) @ fraction_text (nat (t mod 1000000000)) @ ''Z''"
    using assms unfolding FormatRFC3339Nano_def Let_def date prod.case
    by (simp only: option.distinct option.inject split: if_splits)
  have "list_all P s"
    unfolding s by (simp only: list_all_append list.pred_inject digits signs fraction simp_thms)
  then show ?thesis unfolding P_def list_all_iff .
qed

lemma reads_back_time: "reads_back 0 (enc_time t) dec_time old t"
proof -
  have "value_text 0 (CHR 0x22 # s @ [CHR 0x22]) \<and> dec_time (CHR 0x22 # s @ [CHR 0x22]) old = Some t"
    if s: "FormatRFC3339Nano t = Some s" for s
  proof
    have "CHR 0x22 # s @ [CHR 0x22] = string_text s"
      using FormatRFC3339Nano_plain [OF s] by (simp add: string_text_def encode_chars_plain)
    then show "value_text 0 (CHR 0x22 # s @ [CHR 0x22])" by (simp add: value_text_string)
    show "dec_time (CHR 0x22 # s @ [CHR 0x22]) old = Some t"
      using ParseRFC3339_Format [OF s] by (simp add: dec_time_def null_def)
  qed
  then show ?thesis by (auto simp: reads_back_def enc_time_def split: option.splits)
qed

text \<open>A raw message comes back compacted, and a nil one as \<open>null\<close>.\<close>

definition compact_raw :: "string option \<Rightarrow> string option" where
  "compact_raw r = Some (case r of None \<Rightarrow> null | Some raw \<Rightarrow> compact False raw)"

definition nests :: "nat \<Rightarrow> string option \<Rightarrow> bool" where
  "nests k r \<longleftrightarrow>
     (case Option.bind r json_decode of None \<Rightarrow> True | Some v \<Rightarrow> json_nest v \<le> k)"

lemma reads_back_raw: "nests k r \<Longrightarrow> reads_back k (enc_raw r) dec_raw_message old (compact_raw r)"
  using value_text_null compact_text value_text_mono
  by (fastforce simp: reads_back_def enc_raw_def dec_raw_message_def compact_raw_def nests_def split: option.splits)

lemma dec_elements_strings:
  "list_all utf8_valid ss \<Longrightarrow> dec_elements dec_string [] (map string_text ss) olds = Some ss"
proof (induction ss arbitrary: olds)
  case (Cons s ss)
  then have "dec_string (string_text s) old = Some s" for old
    using reads_back_string [of s old] by (simp add: reads_back_def enc_string_def)
  then show ?case using Cons by simp
qed simp

lemma reads_back_strings:
  assumes "pred_option (list_all utf8_valid) r"
  shows "reads_back 1 (enc_strings r) dec_strings old r"
proof (cases r)
  case None
  then show ?thesis
    using value_text_mono [OF value_text_null, of 1] by (simp add: reads_back_def enc_strings_def dec_strings_def)
next
  case (Some ss)
  have texts: "\<forall>raw \<in> set (map string_text ss). value_text 0 raw" by (simp add: value_text_string)
  have "array_text raws \<noteq> null" for raws by (simp add: array_text_def null_def)
  then show ?thesis
    using value_text_array_text [OF texts] raw_array_text [OF texts] dec_elements_strings [of ss] assms Some
    by (simp add: reads_back_def enc_strings_def dec_strings_def dec_slice_def)
qed

lemma object_text_not_null: "object_text ms \<noteq> null"
  by (simp add: object_text_def null_def)

text \<open>Maps.\<close>

lemma dec_entries_lookup:
  assumes "\<And>k. k \<in> set ks \<Longrightarrow> dec (raw k) zero = Some (f k)"
  shows "\<exists>m'. dec_entries dec zero (map (\<lambda>k. (k, raw k)) ks) m = Some m' \<and>
    (\<forall>k. fmlookup m' k = (if k \<in> set ks then Some (f k) else fmlookup m k))"
  using assms
proof (induction ks arbitrary: m)
  case (Cons a ks)
  obtain m' where "dec_entries dec zero (map (\<lambda>k. (k, raw k)) ks) (fmupd a (f a) m) = Some m'"
    "\<forall>k. fmlookup m' k = (if k \<in> set ks then Some (f k) else fmlookup (fmupd a (f a) m) k)"
    using Cons.IH [of "fmupd a (f a) m"] Cons.prems by auto
  then show ?case using Cons.prems [of a] by auto
qed simp

lemma enc_object_Inr:
  "enc_object ms = Inr raw \<longleftrightarrow> (\<exists>raws. map snd ms = map Inr raws \<and> raw = object_text (zip (map fst ms) raws))"
  by (auto simp: enc_object_def all_results_Inr [symmetric] split: sum.split)
    (cases "all_results (map snd ms)"; simp)

lemma reads_back_map:
  assumes "\<And>key v. fmlookup m key = Some v \<Longrightarrow> utf8_valid key \<and> reads_back k (enc v) dec zero (f v)"
    and "k \<le> max_nesting"
  shows "reads_back (Suc k) (enc_map enc m) (dec_map dec zero) fmempty (fmmap f m)"
  unfolding reads_back_def
proof (intro allI impI)
  fix raw assume raw: "enc_map enc m = Inr raw"
  let ?ks = "sorted_list_of_fset (fmdom m)"
  define r where "r key = (case fmlookup m key of None \<Rightarrow> Inr null | Some v \<Rightarrow> enc v)" for key
  have "enc_object (map (\<lambda>key. (key, r key)) ?ks) = Inr raw" using raw by (simp add: enc_map_def r_def)
  then obtain raws where "map r ?ks = map Inr raws" "raw = object_text (zip ?ks raws)"
    by (auto simp: enc_object_Inr comp_def)
  then have raws: "raws = map (projr \<circ> r) ?ks" "\<And>key. key \<in> set ?ks \<Longrightarrow> r key = Inr (projr (r key))"
    by (metis (no_types, lifting) comp_apply list.map_comp map_idI sum.sel(2) map_map,
        metis (no_types, lifting) in_set_conv_nth length_map nth_map sum.sel(2))
  have raw: "raw = object_text (map (\<lambda>key. (key, projr (r key))) ?ks)"
    using \<open>raw = object_text (zip ?ks raws)\<close> by (simp add: raws(1) zip_map2 zip_same_conv_map comp_def)
  have key: "value_text k (projr (r key))" "dec (projr (r key)) zero = Some (f (the (fmlookup m key)))" "utf8_valid key"
    if "key \<in> set ?ks" for key
  proof -
    from that obtain v where v: "fmlookup m key = Some v" by (auto simp: fmlookup_dom_iff)
    then have "enc v = Inr (projr (r key))" using raws(2) [OF that] by (simp add: r_def)
    with assms(1) [OF v] v show "value_text k (projr (r key))"
      "dec (projr (r key)) zero = Some (f (the (fmlookup m key)))" "utf8_valid key"
      by (simp_all add: reads_back_def)
  qed
  let ?ms = "map (\<lambda>key. (key, projr (r key))) ?ks"
  have texts: "\<forall>x \<in> set ?ms. value_text k (snd x)" using key(1) by auto
  have "map (apfst utf8_repair) ?ms = ?ms" using key(3) by (auto simp: utf8_valid_def)
  then have "raw_object raw = Some ?ms" using raw_object_text [OF texts assms(2)] raw by simp
  moreover obtain m' where m': "dec_entries dec zero ?ms fmempty = Some m'"
    "\<forall>key. fmlookup m' key = (if key \<in> set ?ks then Some (f (the (fmlookup m key))) else None)"
    using dec_entries_lookup [of ?ks dec "\<lambda>key. projr (r key)" zero "\<lambda>key. f (the (fmlookup m key))" fmempty] key(2)
    by auto
  have "m' = fmmap f m"
    by (rule fmap_ext) (auto simp: m'(2) fmlookup_dom_iff split: option.split)
  ultimately show "value_text (Suc k) raw \<and> dec_map dec zero raw fmempty = Some (fmmap f m)"
    using value_text_object_text [OF texts assms(2)] raw m'(1)
    by (simp add: dec_map_def object_text_not_null)
qed


text \<open>Structs: the members come in the order of the fields, whose names differ.\<close>

fun dec_in_order :: "'r decoder list \<Rightarrow> string list \<Rightarrow> 'r \<Rightarrow> 'r option" where
  "dec_in_order (dec # decs) (raw # raws) r = Option.bind (dec raw r) (dec_in_order decs raws)"
| "dec_in_order _ _ r = Some r"

lemma dec_members_in_order:
  assumes "distinct (map (fold_name \<circ> fst) (pre @ fs))" and "length raws = length fs"
  shows "dec_members (pre @ fs) (zip (map fst fs) raws) r = dec_in_order (map snd fs) raws r"
  using assms
proof (induction fs arbitrary: pre raws r)
  case (Cons field fs)
  obtain raw raws' where raws: "raws = raw # raws'" using Cons.prems(2) by (cases raws) auto
  have "map_of (map (\<lambda>(name, dec). (fold_name name, dec)) (pre @ field # fs)) (fold_name (fst field)) = Some (snd field)"
    using Cons.prems(1) by (intro map_of_is_SomeI) (auto simp: case_prod_unfold comp_def)
  then show ?case
    using Cons.IH [of "pre @ [field]"] Cons.prems raws
    by (cases field) (simp split: bind_split)
qed simp

definition reads_in_order :: "nat \<Rightarrow> 'r decoder list \<Rightarrow> (marshal_error + string) list \<Rightarrow> 'r \<Rightarrow> 'r \<Rightarrow> bool" where
  "reads_in_order k decs rs r r' \<longleftrightarrow>
     (\<forall>raws. rs = map Inr raws \<longrightarrow> list_all (value_text k) raws \<and> dec_in_order decs raws r = Some r')"

lemma reads_in_order_Nil: "r = r' \<Longrightarrow> reads_in_order k [] [] r r'"
  by (simp add: reads_in_order_def)

lemma reads_in_order_field:
  assumes "reads_back k x dec (get r) v" and "reads_in_order k decs rs (update (\<lambda>_. v) r) r'"
  shows "reads_in_order k (dec_field get update dec # decs) (x # rs) r r'"
  using assms by (auto simp: reads_in_order_def reads_back_def dec_field_def map_eq_Cons_conv Cons_eq_map_conv)

lemma reads_back_struct:
  assumes "reads_in_order k (map snd fs) rs zero r" and "enc = enc_object (zip (map fst fs) rs)"
    and "length rs = length fs" and "distinct (map (fold_name \<circ> fst) fs)"
    and "list_all (\<lambda>f. utf8_valid (fst f)) fs" and "k \<le> max_nesting"
  shows "reads_back (Suc k) enc (dec_struct fs) zero r"
  unfolding reads_back_def
proof (intro allI impI)
  fix raw assume "enc = Inr raw"
  then obtain raws where raws: "rs = map Inr raws" "raw = object_text (zip (map fst fs) raws)"
    using assms(2,3) by (auto simp: enc_object_Inr)
  let ?ms = "zip (map fst fs) raws"
  have len: "length raws = length fs" using raws(1) assms(3) by simp
  have *: "list_all (value_text k) raws" "dec_in_order (map snd fs) raws zero = Some r"
    using assms(1) raws(1) by (simp_all add: reads_in_order_def)
  then have texts: "\<forall>m \<in> set ?ms. value_text k (snd m)"
    by (auto simp: list_all_iff dest: set_zip_rightD)
  have "map (apfst utf8_repair) ?ms = ?ms"
    using assms(5) by (intro map_idI) (auto simp: list_all_iff utf8_valid_def dest!: set_zip_leftD)
  then have "raw_object raw = Some ?ms" using raw_object_text [OF texts assms(6)] raws(2) by simp
  then have "dec_struct fs raw zero = Some r"
    using dec_members_in_order [of "[]" fs raws zero] assms(4) len *(2) raws(2)
    by (simp add: dec_struct_def object_text_not_null)
  then show "value_text (Suc k) raw \<and> dec_struct fs raw zero = Some r"
    using value_text_object_text [OF texts assms(6)] raws(2) by simp
qed

subsection \<open>Snapshots\<close>

text \<open>
  What JSON can carry: strings of UTF-8, and raw messages that leave room for the five levels of
  objects around them.
\<close>

definition raw_room :: nat where "raw_room = max_nesting - 5"

definition storable_Config :: "Config \<Rightarrow> bool" where
  "storable_Config c \<longleftrightarrow>
     list_all utf8_valid [cfg_ApplicationCode c, cfg_ConfigID c, cfg_RuleName c, cfg_RuleType c,
       cfg_ContentChecksum c, cfg_AggregateChecksum c] \<and> nests raw_room (cfg_Content c)"

definition storable_Rule :: "Rule \<Rightarrow> bool" where
  "storable_Rule r \<longleftrightarrow>
     list_all utf8_valid [rule_ApplicationCode r, rule_ConfigID r, rule_RuleID r, rule_Name r,
       rule_Checksum r, rule_SchemaVersion r, rule_Algorithm r, rule_FailPolicy r] \<and>
     pred_option (list_all utf8_valid) (rule_Dimensions r) \<and>
     pred_option (fmpred (\<lambda>k v. utf8_valid k \<and> utf8_valid v)) (rule_Attributes r) \<and>
     nests raw_room (rule_Raw r)"

definition storable_Application :: "Application \<Rightarrow> bool" where
  "storable_Application a \<longleftrightarrow>
     list_all utf8_valid [app_Code a, app_Checksum a] \<and>
     fmpred (\<lambda>k c. utf8_valid k \<and> storable_Config c) (app_Configs a) \<and>
     fmpred (\<lambda>k r. utf8_valid k \<and> storable_Rule r) (app_Rules a)"

definition storable :: "Snapshot \<Rightarrow> bool" where
  "storable s \<longleftrightarrow>
     utf8_valid (snap_Checksum s) \<and> fmpred (\<lambda>k a. utf8_valid k \<and> storable_Application a) (snap_Apps s)"

text \<open>What comes back: the same snapshot with its raw messages compacted.\<close>

definition compact_Config :: "Config \<Rightarrow> Config" where
  "compact_Config c = c\<lparr>cfg_Content := compact_raw (cfg_Content c)\<rparr>"

definition compact_Rule :: "Rule \<Rightarrow> Rule" where
  "compact_Rule r = r\<lparr>rule_Raw := compact_raw (rule_Raw r)\<rparr>"

definition compact_Application :: "Application \<Rightarrow> Application" where
  "compact_Application a =
     a\<lparr>app_Configs := fmmap compact_Config (app_Configs a), app_Rules := fmmap compact_Rule (app_Rules a)\<rparr>"

definition compact_Snapshot :: "Snapshot \<Rightarrow> Snapshot" where
  "compact_Snapshot s = s\<lparr>snap_Apps := fmmap compact_Application (snap_Apps s)\<rparr>"

lemma names_valid:
  "utf8_valid ''ApplicationCode''" "utf8_valid ''ConfigID''" "utf8_valid ''RuleName''" "utf8_valid ''RuleType''"
  "utf8_valid ''Content''" "utf8_valid ''ContentChecksum''" "utf8_valid ''AggregateChecksum''"
  "utf8_valid ''RuleCount''" "utf8_valid ''RuleID''" "utf8_valid ''Name''" "utf8_valid ''SnapshotVersion''"
  "utf8_valid ''Checksum''" "utf8_valid ''SchemaVersion''" "utf8_valid ''Algorithm''" "utf8_valid ''Quota''"
  "utf8_valid ''WindowSeconds''" "utf8_valid ''Burst''" "utf8_valid ''Dimensions''" "utf8_valid ''FailPolicy''"
  "utf8_valid ''Attributes''" "utf8_valid ''Raw''" "utf8_valid ''Code''" "utf8_valid ''Version''"
  "utf8_valid ''Configs''" "utf8_valid ''Rules''" "utf8_valid ''GeneratedAt''" "utf8_valid ''Apps''"
  by (rule utf8_valid_ascii, simp)+

lemma field_names:
  "distinct (map (fold_name \<circ> fst) config_fields)" "distinct (map (fold_name \<circ> fst) rule_fields)"
  "distinct (map (fold_name \<circ> fst) application_fields)" "distinct (map (fold_name \<circ> fst) snapshot_fields)"
  by (simp_all add: config_fields_def rule_fields_def application_fields_def snapshot_fields_def upper_char_def)

lemma field_names_valid:
  "list_all (\<lambda>f. utf8_valid (fst f)) config_fields" "list_all (\<lambda>f. utf8_valid (fst f)) rule_fields"
  "list_all (\<lambda>f. utf8_valid (fst f)) application_fields" "list_all (\<lambda>f. utf8_valid (fst f)) snapshot_fields"
  by (simp_all add: config_fields_def rule_fields_def application_fields_def snapshot_fields_def names_valid)

lemma valid_string: "utf8_valid s \<Longrightarrow> reads_back k (enc_string s) dec_string old s"
  using reads_back_mono [OF reads_back_string] by blast

lemma any_int64: "reads_back k (enc_int64 w) dec_int64 old w"
  using reads_back_mono [OF reads_back_int64] by blast

lemma nested_raw: "nests raw_room r \<Longrightarrow> reads_back raw_room (enc_raw r) dec_raw_message old (compact_raw r)"
  by (rule reads_back_raw)

lemma valid_strings: "pred_option (list_all utf8_valid) r \<Longrightarrow> reads_back raw_room (enc_strings r) dec_strings old r"
  using reads_back_mono [OF reads_back_strings] by (simp add: raw_room_def max_nesting_def)

lemma valid_string_map:
  assumes "pred_option (fmpred (\<lambda>k v. utf8_valid k \<and> utf8_valid v)) r"
  shows "reads_back raw_room (enc_string_map r) dec_string_map None r"
proof (cases r)
  case None
  then show ?thesis
    using value_text_mono [OF value_text_null] by (simp add: reads_back_def enc_string_map_def dec_string_map_def)
next
  case (Some m)
  have "reads_back (Suc 0) (enc_map enc_string m) (dec_map dec_string []) fmempty (fmmap (\<lambda>v. v) m)"
    using assms Some by (intro reads_back_map conjI valid_string) (auto simp: max_nesting_def fmpred_iff)
  then have "reads_back raw_room (enc_map enc_string m) (dec_map dec_string []) fmempty m"
    using reads_back_mono by (fastforce simp: raw_room_def max_nesting_def fmmap_same)
  moreover have "raw \<noteq> null" if "enc_map enc_string m = Inr raw" for raw
    using that object_text_not_null by (auto simp: enc_map_def enc_object_Inr)
  ultimately show ?thesis
    using Some by (auto simp: reads_back_def enc_string_map_def dec_string_map_def)
qed

lemmas read_fields = reads_in_order_field reads_in_order_Nil valid_string any_int64 nested_raw valid_strings

lemma reads_back_Config:
  assumes "storable_Config c"
  shows "reads_back (Suc raw_room) (enc_Config c) (dec_struct config_fields) zero_Config (compact_Config c)"
proof (rule reads_back_struct [OF _ _ _ field_names(1) field_names_valid(1)])
  show "enc_Config c = enc_object (zip (map fst config_fields)
     [enc_string (cfg_ApplicationCode c), enc_string (cfg_ConfigID c), enc_string (cfg_RuleName c),
      enc_string (cfg_RuleType c), enc_raw (cfg_Content c), enc_string (cfg_ContentChecksum c),
      enc_string (cfg_AggregateChecksum c), enc_int64 (cfg_RuleCount c)])"
    by (simp add: enc_Config_def config_fields_def)
  show "reads_in_order raw_room (map snd config_fields)
     [enc_string (cfg_ApplicationCode c), enc_string (cfg_ConfigID c), enc_string (cfg_RuleName c),
      enc_string (cfg_RuleType c), enc_raw (cfg_Content c), enc_string (cfg_ContentChecksum c),
      enc_string (cfg_AggregateChecksum c), enc_int64 (cfg_RuleCount c)] zero_Config (compact_Config c)"
    unfolding config_fields_def list.map snd_conv
    using assms
    by - (rule read_fields | simp add: storable_Config_def zero_Config_def compact_Config_def)+
qed (simp_all add: config_fields_def raw_room_def)

lemma reads_back_Rule:
  assumes "storable_Rule r"
  shows "reads_back (Suc raw_room) (enc_Rule r) (dec_struct rule_fields) zero_Rule (compact_Rule r)"
proof (rule reads_back_struct [OF _ _ _ field_names(2) field_names_valid(2)])
  show "enc_Rule r = enc_object (zip (map fst rule_fields)
     [enc_string (rule_ApplicationCode r), enc_string (rule_ConfigID r), enc_string (rule_RuleID r),
      enc_string (rule_Name r), enc_int64 (rule_SnapshotVersion r), enc_string (rule_Checksum r),
      enc_string (rule_SchemaVersion r), enc_string (rule_Algorithm r), enc_int64 (rule_Quota r),
      enc_int64 (rule_WindowSeconds r), enc_int64 (rule_Burst r), enc_strings (rule_Dimensions r),
      enc_string (rule_FailPolicy r), enc_string_map (rule_Attributes r), enc_raw (rule_Raw r)])"
    by (simp add: enc_Rule_def rule_fields_def)
  have attributes: "reads_back raw_room (enc_string_map (rule_Attributes r)) dec_string_map None (rule_Attributes r)"
    using assms by (intro valid_string_map) (simp add: storable_Rule_def)
  show "reads_in_order raw_room (map snd rule_fields)
     [enc_string (rule_ApplicationCode r), enc_string (rule_ConfigID r), enc_string (rule_RuleID r),
      enc_string (rule_Name r), enc_int64 (rule_SnapshotVersion r), enc_string (rule_Checksum r),
      enc_string (rule_SchemaVersion r), enc_string (rule_Algorithm r), enc_int64 (rule_Quota r),
      enc_int64 (rule_WindowSeconds r), enc_int64 (rule_Burst r), enc_strings (rule_Dimensions r),
      enc_string (rule_FailPolicy r), enc_string_map (rule_Attributes r), enc_raw (rule_Raw r)]
     zero_Rule (compact_Rule r)"
    unfolding rule_fields_def list.map snd_conv
    using assms attributes
    by - (rule read_fields | simp add: storable_Rule_def zero_Rule_def compact_Rule_def)+
qed (simp_all add: rule_fields_def raw_room_def)

lemma reads_back_Application:
  assumes "storable_Application a"
  shows "reads_back (max_nesting - 2) (enc_Application a) (dec_struct application_fields) zero_Application
    (compact_Application a)"
proof -
  have configs: "reads_back (raw_room + 2) (enc_map enc_Config (app_Configs a))
      (dec_map (dec_struct config_fields) zero_Config) fmempty (fmmap compact_Config (app_Configs a))"
    using assms reads_back_map [of "app_Configs a" "Suc raw_room" enc_Config "dec_struct config_fields" zero_Config compact_Config]
      reads_back_Config
    by (simp add: storable_Application_def fmpred_iff raw_room_def max_nesting_def numeral_2_eq_2)
  have rules: "reads_back (raw_room + 2) (enc_map enc_Rule (app_Rules a))
      (dec_map (dec_struct rule_fields) zero_Rule) fmempty (fmmap compact_Rule (app_Rules a))"
    using assms reads_back_map [of "app_Rules a" "Suc raw_room" enc_Rule "dec_struct rule_fields" zero_Rule compact_Rule]
      reads_back_Rule
    by (simp add: storable_Application_def fmpred_iff raw_room_def max_nesting_def numeral_2_eq_2)
  have "reads_back (Suc (raw_room + 2)) (enc_Application a) (dec_struct application_fields) zero_Application
      (compact_Application a)"
  proof (rule reads_back_struct [OF _ _ _ field_names(3) field_names_valid(3)])
    show "enc_Application a = enc_object (zip (map fst application_fields)
       [enc_string (app_Code a), enc_int64 (app_Version a), enc_string (app_Checksum a),
        enc_map enc_Config (app_Configs a), enc_map enc_Rule (app_Rules a)])"
      by (simp add: enc_Application_def application_fields_def)
    show "reads_in_order (raw_room + 2) (map snd application_fields)
       [enc_string (app_Code a), enc_int64 (app_Version a), enc_string (app_Checksum a),
        enc_map enc_Config (app_Configs a), enc_map enc_Rule (app_Rules a)] zero_Application (compact_Application a)"
      unfolding application_fields_def list.map snd_conv
      using assms configs rules
      by - (rule read_fields | simp add: storable_Application_def zero_Application_def compact_Application_def)+
  qed (simp_all add: application_fields_def raw_room_def max_nesting_def)
  then show ?thesis by (simp add: raw_room_def max_nesting_def)
qed

lemma reads_back_Snapshot:
  assumes "storable s"
  shows "reads_back max_nesting (marshal_Snapshot s) (dec_struct snapshot_fields) zero_Snapshot (compact_Snapshot s)"
proof -
  have apps: "reads_back (max_nesting - 1) (enc_map enc_Application (snap_Apps s))
      (dec_map (dec_struct application_fields) zero_Application) fmempty (fmmap compact_Application (snap_Apps s))"
    using assms reads_back_map [of "snap_Apps s" "max_nesting - 2" enc_Application "dec_struct application_fields"
        zero_Application compact_Application]
      reads_back_Application
    by (simp add: storable_def fmpred_iff max_nesting_def)
  have instant: "reads_back k (enc_time t) dec_time old t" for k t old
    using reads_back_mono [OF reads_back_time] by blast
  have "reads_back (Suc (max_nesting - 1)) (marshal_Snapshot s) (dec_struct snapshot_fields) zero_Snapshot
      (compact_Snapshot s)"
  proof (rule reads_back_struct [OF _ _ _ field_names(4) field_names_valid(4)])
    show "marshal_Snapshot s = enc_object (zip (map fst snapshot_fields)
       [enc_int64 (snap_Version s), enc_string (snap_Checksum s), enc_time (snap_GeneratedAt s),
        enc_map enc_Application (snap_Apps s)])"
      by (simp add: marshal_Snapshot_def snapshot_fields_def)
    show "reads_in_order (max_nesting - 1) (map snd snapshot_fields)
       [enc_int64 (snap_Version s), enc_string (snap_Checksum s), enc_time (snap_GeneratedAt s),
        enc_map enc_Application (snap_Apps s)] zero_Snapshot (compact_Snapshot s)"
      unfolding snapshot_fields_def list.map snd_conv
      using assms apps
      by - (rule read_fields instant | simp add: storable_def zero_Snapshot_def compact_Snapshot_def)+
  qed (simp_all add: snapshot_fields_def)
  then show ?thesis by (simp add: max_nesting_def)
qed

lemma whole_value_text:
  assumes "value_text max_nesting q"
  shows "whole_value q = Some q"
proof -
  obtain v where v: "json_value (2 * length q + 1) 0 q = Some (v, [])"
    using value_textD [OF assms, of "[]" 0 "2 * length q + 1"] by (auto simp del: json_value.simps)
  then show ?thesis using assms by (intro scan_whole(1)) (auto simp: value_text_def)
qed

lemma unmarshal_marshal:
  assumes "marshal_Snapshot s = Inr payload" and "storable s"
  shows "unmarshal_Snapshot payload = Some (compact_Snapshot s)"
proof -
  have *: "value_text max_nesting payload" "dec_struct snapshot_fields payload zero_Snapshot = Some (compact_Snapshot s)"
    using reads_back_Snapshot [OF assms(2)] assms(1) by (simp_all add: reads_back_def)
  then show ?thesis by (simp add: unmarshal_Snapshot_def whole_value_text)
qed

text \<open>Writing fails only for a raw message that is no JSON or an instant outside the years 0 to 9999.\<close>

definition raws_ok :: "Snapshot \<Rightarrow> bool" where
  "raws_ok s \<longleftrightarrow>
     fmpred (\<lambda>_ a. fmpred (\<lambda>_ c. is_ok (enc_raw (cfg_Content c))) (app_Configs a) \<and>
       fmpred (\<lambda>_ r. is_ok (enc_raw (rule_Raw r))) (app_Rules a)) (snap_Apps s)"

lemma enc_object_ok: "is_ok (enc_object ms) \<longleftrightarrow> list_all is_ok (map snd ms)"
proof -
  have "is_ok (all_results rs) \<longleftrightarrow> list_all is_ok rs" for rs :: "(marshal_error + string) list"
    by (induction rs) (auto split: sum.split)
  moreover have "is_ok (enc_object ms) \<longleftrightarrow> is_ok (all_results (map snd ms))"
    by (cases "all_results (map snd ms)") (simp_all add: enc_object_def)
  ultimately show ?thesis by simp
qed

lemma enc_map_ok: "is_ok (enc_map enc m) \<longleftrightarrow> fmpred (\<lambda>_ v. is_ok (enc v)) m"
  by (auto simp: enc_map_def enc_object_ok list_all_iff fmpred_iff fmlookup_dom_iff split: option.splits)

lemma enc_scalars_ok [simp]:
  "is_ok (enc_string s)" "is_ok (enc_int64 w)" "is_ok (enc_strings r)" "is_ok (enc_string_map m)"
  by (auto simp: enc_string_def enc_int64_def enc_strings_def enc_string_map_def enc_map_ok fmpred_iff
      split: option.split)

lemma marshal_ok_iff:
  "is_ok (marshal_Snapshot s) \<longleftrightarrow> raws_ok s \<and> FormatRFC3339Nano (snap_GeneratedAt s) \<noteq> None"
proof -
  have "is_ok (enc_Config c) \<longleftrightarrow> is_ok (enc_raw (cfg_Content c))" for c
    by (simp add: enc_Config_def enc_object_ok)
  moreover have "is_ok (enc_Rule r) \<longleftrightarrow> is_ok (enc_raw (rule_Raw r))" for r
    by (simp add: enc_Rule_def enc_object_ok)
  ultimately have "is_ok (enc_Application a) \<longleftrightarrow> fmpred (\<lambda>_ c. is_ok (enc_raw (cfg_Content c))) (app_Configs a) \<and>
       fmpred (\<lambda>_ r. is_ok (enc_raw (rule_Raw r))) (app_Rules a)" for a
    by (simp add: enc_Application_def enc_object_ok enc_map_ok)
  moreover have "is_ok (enc_time t) \<longleftrightarrow> FormatRFC3339Nano t \<noteq> None" for t
    by (simp add: enc_time_def split: option.split)
  ultimately show ?thesis
    by (simp add: marshal_Snapshot_def enc_object_ok enc_map_ok raws_ok_def conj_commute)
qed

end
