(* ===== verification/SnapshotCache.thy ===== *)
theory SnapshotCache
  imports SnapshotCodec RuleStore RuleProperties
begin

text \<open>
  The cache of \<open>internal/rulestore/store.go\<close> with the codec it uses: \<open>cacheSnapshot\<close> and
  \<open>AttachCache\<close> take the codec as an argument, and here it is \<open>json.Marshal\<close> and
  \<open>json.Unmarshal\<close> of SnapshotCodec, with their errors as errors of the store. Whatever the
  builder makes can be written, and a service that starts from the cache serves the rules the
  service before it served.
\<close>

definition marshal_with :: "(marshal_error \<Rightarrow> 'e) \<Rightarrow> Snapshot \<Rightarrow> 'e + string" where
  "marshal_with err s = map_sum err id (marshal_Snapshot s)"

definition unmarshal_with :: "'e \<Rightarrow> string \<Rightarrow> 'e + Snapshot" where
  "unmarshal_with err payload = (case unmarshal_Snapshot payload of None \<Rightarrow> Inl err | Some s \<Rightarrow> Inr s)"

subsection \<open>What the builder makes can be written\<close>

lemma raws_ok_lookup:
  "raws_ok s \<longleftrightarrow>
     (\<forall>code a. fmlookup (snap_Apps s) code = Some a \<longrightarrow>
        (\<forall>cid c. fmlookup (app_Configs a) cid = Some c \<longrightarrow> is_ok (enc_raw (cfg_Content c))) \<and>
        (\<forall>k r. fmlookup (app_Rules a) k = Some r \<longrightarrow> is_ok (enc_raw (rule_Raw r))))"
  by (auto simp: raws_ok_def fmpred_iff)

lemma enc_raw_ok: "raw_map raw = Some obj \<Longrightarrow> is_ok (enc_raw (Some raw))"
  by (auto simp: enc_raw_def raw_map_def whole_value_def split: if_splits)

lemma parseRules_raw_ok:
  assumes "parseRules cfg v content = Inr rs"
  shows "is_ok (enc_raw (Some content))" and "r \<in> set rs \<Longrightarrow> is_ok (enc_raw (rule_Raw r))"
proof -
  show "is_ok (enc_raw (Some content))"
    using assms enc_raw_ok by (auto simp: parseRules_def split: option.splits)
  assume "r \<in> set rs"
  then obtain schema j raw where r: "parseRule cfg v schema j raw = Inr r"
    using parseRules_Inr(2) [OF assms] by blast
  then obtain item where item: "raw_map raw = Some item"
    by (cases "raw_map raw") (simp_all add: parseRule_def)
  from r [unfolded parseRule_def this option.case Let_def] have "rule_Raw r = Some raw"
    by (auto split: if_splits simp del: chooseString.simps)
  then show "is_ok (enc_raw (rule_Raw r))" using enc_raw_ok [OF item] by simp
qed

lemma applyConfig_raws_ok:
  assumes "raws_ok s" and "applyConfig cfg0 s = Inr s'"
  shows "raws_ok s'"
  using assms(2)
proof (rule applyConfig_Inr)
  fix cfg :: PublishedConfig and rs
  let ?code = "pc_ApplicationCode cfg"
  let ?old = "existing_app s ?code"
  let ?new = "upserted_app s cfg ?old rs"
  assume p: "parseRules cfg (snap_Version s) (config_content cfg) = Inr rs"
    and s': "s' = s\<lparr>snap_Apps := fmupd ?code ?new (snap_Apps s)\<rparr>"
  have old: "is_ok (enc_raw (cfg_Content c))" "is_ok (enc_raw (rule_Raw r))"
    if "fmlookup (app_Configs ?old) cid = Some c" "fmlookup (app_Rules ?old) k = Some r" for cid c k r
    using assms(1) that by (auto simp: raws_ok_lookup existing_app_def new_Application_def split: option.splits if_splits)
  have configs: "is_ok (enc_raw (cfg_Content c))" if "fmlookup (app_Configs ?old) cid = Some c" for cid c
    using assms(1) that by (auto simp: raws_ok_lookup existing_app_def new_Application_def split: option.splits if_splits)
  have rules: "is_ok (enc_raw (rule_Raw r))" if "fmlookup (app_Rules ?old) k = Some r" for k r
    using assms(1) that by (auto simp: raws_ok_lookup existing_app_def new_Application_def split: option.splits if_splits)
  have new_configs: "is_ok (enc_raw (cfg_Content c))" if "fmlookup (app_Configs ?new) cid = Some c" for cid c
    using that configs parseRules_raw_ok(1) [OF p] by (auto simp: upserted_configs published_config_def split: if_splits)
  have new_rules: "is_ok (enc_raw (rule_Raw r))" if "fmlookup (app_Rules ?new) k = Some r" for k r
    using that rules parseRules_raw_ok(2) [OF p]
    by (auto simp: upserted_rules split: option.splits if_splits dest: rule_table_set)
  show "raws_ok s'"
    using assms(1) new_configs new_rules by (auto simp: s' raws_ok_lookup split: if_splits)
qed

lemma deleteConfig_raws_ok: "raws_ok s \<Longrightarrow> raws_ok (deleteConfig code cid s)"
  by (auto simp: deleteConfig_def Let_def raws_ok_lookup deleteRules_lookup split: option.splits if_splits)

lemma applyChange_raws_ok: "applyChange cur to ch s = Inr s' \<Longrightarrow> raws_ok s \<Longrightarrow> raws_ok s'"
  by (erule applyChange_cases) (auto intro: deleteConfig_raws_ok applyConfig_raws_ok)

lemma raws_ok_empty: "snap_Apps s = fmempty \<Longrightarrow> raws_ok s"
  by (simp add: raws_ok_lookup)

lemma BuildSnapshot_raws_ok: "BuildSnapshot v c t cfgs = Inr s \<Longrightarrow> raws_ok s"
  unfolding BuildSnapshot_def
  by (erule fold_result_invariant) (auto intro: raws_ok_empty applyConfig_raws_ok)

lemma ApplyChanges_raws_ok:
  assumes "ApplyChanges cur v c t chs = Inr s" and "raws_ok cur"
  shows "raws_ok s"
proof (rule fold_result_invariant [OF ApplyChanges_Inr(3) [OF assms(1)]])
  show "raws_ok (cur\<lparr>snap_Version := v, snap_Checksum := c, snap_GeneratedAt := t\<rparr>)"
    using assms(2) by (simp add: raws_ok_lookup)
qed (auto intro: applyChange_raws_ok)

text \<open>The snapshots the syncer stores: what a full synchronisation builds, and what deltas make of it.\<close>

inductive made :: "Snapshot \<Rightarrow> bool" where
  built: "BuildSnapshot v c t cfgs = Inr s \<Longrightarrow> made s"
| changed: "made s \<Longrightarrow> ApplyChanges s v c t changes = Inr s' \<Longrightarrow> made s'"

lemma made_raws_ok: "made s \<Longrightarrow> raws_ok s"
  by (induction rule: made.induct) (auto intro: BuildSnapshot_raws_ok ApplyChanges_raws_ok)

text \<open>C31: a snapshot that was built from published configurations, and changed by any number of
  deltas since, is written to the cache unless its time lies outside the years 0 to 9999: no
  content of a configuration and no rule makes \<open>json.Marshal\<close> fail.\<close>

theorem made_snapshot_can_be_written:
  assumes "made s"
  shows "is_ok (marshal_Snapshot s) \<longleftrightarrow>
    (case civil_from_days (snap_GeneratedAt s div 1000000000 div 86400) of (y, m, d) \<Rightarrow> 0 \<le> y \<and> y \<le> 9999)"
  using made_raws_ok [OF assms] FormatRFC3339Nano_ok [of "snap_GeneratedAt s"]
  by (auto simp: marshal_ok_iff)

lemma example_made: "made (example_delta 7)"
proof -
  have "made (example_snapshot 1 ''one'' 5 [(''c1'', ''a'')] (fmap_of_list [(''a'', example_rule 1 ''c1'' ''a'')]))"
    by (rule built) (rule example_build)
  from changed [OF this example_ApplyChanges] show ?thesis .
qed

lemma example_written: "FormatRFC3339Nano (snap_GeneratedAt (example_delta 7)) \<noteq> None"
proof -
  have "civil_from_days (7 div 1000000000 div 86400) = (1970, 1, 1)" by code_simp
  moreover have "snap_GeneratedAt (example_delta 7) = 7" by (simp add: example_delta_def example_snapshot_def)
  ultimately show ?thesis using FormatRFC3339Nano_ok [of 7] by simp
qed

lemma made_snapshot_can_be_written_witness:
  "is_ok (marshal_Snapshot (example_delta 7))"
proof -
  have "snap_GeneratedAt (example_delta 7) = 7" by (simp add: example_delta_def example_snapshot_def)
  moreover have "civil_from_days (7 div 1000000000 div 86400) = (1970, 1, 1)" by code_simp
  ultimately show ?thesis using made_snapshot_can_be_written [OF example_made] by simp
qed

subsection \<open>A start from the cache\<close>

lemma FindRule_compacted:
  assumes "store_current st = Some snapshot" and "store_current st' = Some (compact_Snapshot snapshot)"
  shows "FindRule st' code k =
    (case FindRule st code k of (r, found) \<Rightarrow> (if found then compact_Rule r else r, found))"
  by (simp add: FindRule_def assms compact_Snapshot_def compact_Application_def split: option.split)

text \<open>When the write to the cache succeeds, attaching the cache restores what was written.\<close>

lemma cached_payload:
  assumes "ReplaceWithContext (marshal_with err) set_cache snapshot st = (st', None)"
    and "store_cache st \<noteq> None" and "store_cache st' = Some c"
  obtains c0 payload where "marshal_Snapshot snapshot = Inr payload"
    "set_cache c0 SnapshotCacheKey payload = (c, None)"
  using assms
  by (cases "marshal_Snapshot snapshot") (auto simp: ReplaceWithContext_def cacheSnapshot_def marshal_with_def
      notify_def Let_def split: prod.splits sum.splits)

lemma AttachCache_restores:
  assumes "ReplaceWithContext (marshal_with err) set_cache snapshot st = (st', None)"
    and "store_cache st \<noteq> None" and "store_cache st' = Some c" and "storable snapshot"
    and kept: "\<forall>c payload c'. set_cache c SnapshotCacheKey payload = (c', None) \<longrightarrow>
      get_cache c' SnapshotCacheKey = Inr (Some payload)"
  shows "AttachCache (marshal_with err) (unmarshal_with bad) get_cache set_cache now (Some c) fresh =
    (fresh\<lparr>store_cache := Some c, store_current := Some (compact_Snapshot snapshot)\<rparr>, None)"
proof -
  obtain c0 payload where payload: "marshal_Snapshot snapshot = Inr payload"
      "set_cache c0 SnapshotCacheKey payload = (c, None)"
    using assms(1-3) by (rule cached_payload)
  then have "get_cache c SnapshotCacheKey = Inr (Some payload)" using kept by blast
  then show ?thesis
    using unmarshal_marshal [OF payload(1) assms(4)] by (simp add: AttachCache_def unmarshal_with_def Let_def)
qed

text \<open>A store that serves what another does, for as long as raw texts are not looked at.\<close>

definition serves_same :: "'c Store \<Rightarrow> 'd Store \<Rightarrow> bool" where
  "serves_same st st' \<longleftrightarrow>
     (\<forall>code k. snd (FindRule st code k) = snd (FindRule st' code k) \<and>
        (fst (FindRule st code k))\<lparr>rule_Raw := None\<rparr> = (fst (FindRule st' code k))\<lparr>rule_Raw := None\<rparr>)"

lemma serves_same_compacted:
  assumes "store_current st = Some (compact_Snapshot snapshot)" and "store_current st' = Some snapshot"
  shows "serves_same st st'"
  by (auto simp: serves_same_def FindRule_compacted [OF assms(2,1)] compact_Rule_def split: prod.split)

text \<open>A cache that holds one payload.\<close>

definition keep_payload :: "string option \<Rightarrow> string \<Rightarrow> string \<Rightarrow> string option \<times> string option" where
  "keep_payload c key payload = (Some payload, None)"

definition kept_payload :: "string option \<Rightarrow> string \<Rightarrow> string + string option" where
  "kept_payload c key = Inr c"


definition restart_store :: "string option Store" where
  "restart_store = (NewStore (EmptySnapshot 0))\<lparr>store_cache := Some None\<rparr>"

lemma example_valid:
  "utf8_valid ''shop''" "utf8_valid ''c1''" "utf8_valid ''c2''" "utf8_valid ''x''" "utf8_valid ''r''"
  "utf8_valid ''sc1''" "utf8_valid ''sc2''" "utf8_valid ''a''" "utf8_valid ''b''" "utf8_valid ''fixed_window''"
  "utf8_valid ''fail_closed''" "utf8_valid ''two''" "utf8_valid []"
  by (rule utf8_valid_ascii, simp)+

lemma example_nests:
  assumes "k = ''a'' \<or> k = ''b''"
  shows "nests raw_room (Some (example_content k))" "nests raw_room (Some (example_raw k))"
proof -
  have "json_decode (example_content k) = Some (JObject [(''limit'', JArray [example_json k])])"
    using assms example_values(1,2) [THEN scan_whole(2) [OF _ example_starts(1)]] by auto
  then show "nests raw_room (Some (example_content k))"
    by (simp add: nests_def example_json_def raw_room_def max_nesting_def)
  have "json_decode (example_raw k) = Some (example_json k)"
    using assms example_values(5,6) [THEN scan_whole(2) [OF _ example_starts(3)]] by auto
  then show "nests raw_room (Some (example_raw k))"
    by (simp add: nests_def example_json_def raw_room_def max_nesting_def)
qed

lemma example_storable: "storable (example_delta 7)"
proof -
  have config: "storable_Config (published_config (example_config cid k))"
    if "(cid, k) = (''c1'', ''a'') \<or> (cid, k) = (''c2'', ''b'')" for cid k
  proof -
    have k: "k = ''a'' \<or> k = ''b''" using that by auto
    have "config_content (example_config cid k) = example_content k"
      using k example_content_trim by (auto simp: config_content_def example_config_def Let_def example_content_def)
    then show ?thesis
      using that example_nests(1) [OF k]
      by (auto simp: storable_Config_def published_config_def example_config_def example_valid example_trim)
  qed
  have rule: "storable_Rule (example_rule v cid k)"
    if "(cid, k) = (''c1'', ''a'') \<or> (cid, k) = (''c2'', ''b'')" for v cid k
    using that example_nests(2) [of k] by (auto simp: storable_Rule_def example_rule_def example_valid)
  have "storable_Application (example_app 2 ''two'' [(''c2'', ''b''), (''c1'', ''a'')]
      (fmap_of_list [(''b'', example_rule 2 ''c2'' ''b''), (''a'', example_rule 1 ''c1'' ''a'')]))"
    using config [of "''c1''" "''a''"] config [of "''c2''" "''b''"] rule [of "''c1''" "''a''"] rule [of "''c2''" "''b''"]
    by (auto simp: storable_Application_def example_app_def example_valid fmpred_iff split: if_splits)
  then show ?thesis
    by (simp add: storable_def example_delta_def example_snapshot_def example_valid fmpred_iff)
qed

end
