(* ===== verification/TopologyInstruments.thy ===== *)
theory TopologyInstruments
  imports TopologyManager
begin

text \<open>
  The creation of the instruments in \<open>internal/topology/metrics.go\<close>. A meter is what it answers to
  each request for an instrument.
\<close>

datatype instrument_kind = Int64Counter | Float64Histogram | Float64Gauge | Int64Gauge

record instrument =
  i_kind :: instrument_kind
  i_name :: string
  i_description :: string
  i_unit :: string

type_synonym 'e meter = "instrument \<Rightarrow> 'e option"

definition topology_instruments :: "instrument list" where
  "topology_instruments =
     [\<lparr>i_kind = Int64Counter, i_name = ''stellpulsar.topology.refresh.count'',
       i_description = ''Number of topology refresh operations.'', i_unit = ''{operation}''\<rparr>,
      \<lparr>i_kind = Float64Histogram, i_name = ''stellpulsar.topology.refresh.duration'',
       i_description = ''Duration of topology refresh operations.'', i_unit = ''s''\<rparr>,
      \<lparr>i_kind = Int64Counter, i_name = ''stellpulsar.topology.cache.access.count'',
       i_description = ''Number of topology cache access operations.'', i_unit = ''{operation}''\<rparr>,
      \<lparr>i_kind = Float64Gauge, i_name = ''stellpulsar.topology.cache.age'',
       i_description = ''Age of the current topology cache snapshot.'', i_unit = ''s''\<rparr>,
      \<lparr>i_kind = Int64Gauge, i_name = ''stellpulsar.topology.cache.stale'',
       i_description = ''Whether the current topology cache is stale.'', i_unit = ''1''\<rparr>,
      \<lparr>i_kind = Int64Gauge, i_name = ''stellpulsar.topology.instance.count'',
       i_description = ''Number of instances in the current topology by state.'', i_unit = ''{instance}''\<rparr>,
      \<lparr>i_kind = Int64Counter, i_name = ''stellpulsar.topology.owner.lookup.count'',
       i_description = ''Number of topology owner lookup operations.'', i_unit = ''{operation}''\<rparr>,
      \<lparr>i_kind = Float64Histogram, i_name = ''stellpulsar.topology.owner.lookup.duration'',
       i_description = ''Duration of topology owner lookup operations.'', i_unit = ''s''\<rparr>,
      \<lparr>i_kind = Int64Counter, i_name = ''stellpulsar.topology.owner.check.count'',
       i_description = ''Number of server-side owner validation decisions.'', i_unit = ''{operation}''\<rparr>]"

datatype 'e metrics_error = MeterRequired | InstrumentError 'e

text \<open>The instruments are created in this order, and the first error ends the creation.\<close>

fun create_instruments :: "'e meter \<Rightarrow> instrument list \<Rightarrow> 'e option" where
  "create_instruments meter [] = None"
| "create_instruments meter (i # is) =
     (case meter i of Some e \<Rightarrow> Some e | None \<Rightarrow> create_instruments meter is)"

definition new_metrics ::
    "'e meter option \<Rightarrow> string \<Rightarrow> string \<Rightarrow> string \<Rightarrow> 'e metrics_error + Metrics" where
  "new_metrics meter namespace service instanceID =
     (case meter of
        None \<Rightarrow> Inl MeterRequired
      | Some meter \<Rightarrow>
          (case create_instruments meter topology_instruments of
             Some e \<Rightarrow> Inl (InstrumentError e)
           | None \<Rightarrow> Inr (NewMetrics namespace service instanceID)))"

end
