(* ===== verification/Syncer.thy ===== *)
theory Syncer
  imports RuntimeClient
begin

text \<open>
  \<open>internal/runtimeapi/syncer.go\<close>: bringing the rule store up to date by full synchronisation
  and by deltas, with the client of RuntimeClient and the store of RuleStore. The transport,
  the codec of snapshots and the cache are arguments (an \<open>env\<close>); an operation takes the store
  and the state of the world and returns the error it reports, if any, with both. The mutex
  makes full and delta synchronisations atomic towards each other: \<open>watch_step\<close> interleaves
  them with the arrival of events and the reconnections of \<open>RunWatch\<close>.
\<close>

record SyncerConfig =
  syc_SnapshotPageSize :: int64
  syc_WatchReconnectDelay :: duration
  syc_WatchResyncInterval :: duration
  syc_DeltaFetchTimeout :: duration
  syc_AllowEmptyStartup :: bool
  syc_FullSyncMaxRetries :: int64
  syc_WatchEventBuffer :: int64

record Syncer =
  sy_client :: "Client option"
  sy_config :: SyncerConfig

datatype 'e sync_error =
    ClientError "'e client_error"
  | SnapshotChangedWhilePaging int64 string int64 string
  | BuildError build_error
  | CacheError 'e
  | ChangeCountMismatch int64 int64
  | TargetMustAdvance int64 int64
  | TargetChecksumRequired
  | NotContinuous "'e sync_error"
  | EndpointRequired
  | Joined "'e sync_error" "'e sync_error"

record ('c, 'w, 'e) env =
  env_transport :: "('w, 'e) transport"
  env_marshal :: "Snapshot \<Rightarrow> 'e + string"
  env_set_cache :: "'c \<Rightarrow> string \<Rightarrow> string \<Rightarrow> 'c \<times> 'e option"

type_synonym ('c, 'w) synced = "'c Store \<times> 'w"

definition NewSyncer :: "Client option \<Rightarrow> SyncerConfig \<Rightarrow> Syncer" where
  "NewSyncer client config =
     \<lparr>sy_client = client,
      sy_config =
        \<lparr>syc_SnapshotPageSize =
           (if syc_SnapshotPageSize config \<le>s 0 then 100 else syc_SnapshotPageSize config),
         syc_WatchReconnectDelay =
           (if syc_WatchReconnectDelay config \<le>s 0 then 500 * Millisecond
            else syc_WatchReconnectDelay config),
         syc_WatchResyncInterval =
           (if syc_WatchResyncInterval config \<le>s 0 then 30 * Second else syc_WatchResyncInterval config),
         syc_DeltaFetchTimeout =
           (if syc_DeltaFetchTimeout config \<le>s 0 then 3 * Second else syc_DeltaFetchTimeout config),
         syc_AllowEmptyStartup = syc_AllowEmptyStartup config,
         syc_FullSyncMaxRetries =
           (if syc_FullSyncMaxRetries config \<le>s 0 then 3 else syc_FullSyncMaxRetries config),
         syc_WatchEventBuffer =
           (if syc_WatchEventBuffer config \<le>s 0 then 64 else syc_WatchEventBuffer config)\<rparr>\<rparr>"

subsection \<open>Full synchronisation\<close>

text \<open>The pages from one on, which must carry the version and the checksum of the first.\<close>

function fetch_pages ::
    "('w, 'e) transport \<Rightarrow> Client \<Rightarrow> int64 \<Rightarrow> int64 \<Rightarrow> string \<Rightarrow> int \<Rightarrow> int \<Rightarrow> PublishedConfig list \<Rightarrow> 'w \<Rightarrow>
     ('e sync_error + PublishedConfig list) \<times> 'w" where
  "fetch_pages transport c sz version checksum totalPages page configs w =
     (if totalPages \<le> page then (Inr configs, w)
      else case Client_Snapshot transport c (word_of_int page) sz w of
        (Inl e, w') \<Rightarrow> (Inl (ClientError e), w')
      | (Inr response, w') \<Rightarrow>
          (if sp_SnapshotVersion response \<noteq> version \<or> sp_Checksum response \<noteq> checksum
           then (Inl (SnapshotChangedWhilePaging version checksum
                  (sp_SnapshotVersion response) (sp_Checksum response)), w')
           else fetch_pages transport c sz version checksum totalPages (page + 1)
                  (configs @ map Config_Published (page_Content (sp_Configs response))) w'))"
  by pat_completeness auto
termination
  by (relation "measure (\<lambda>(_, _, _, _, _, totalPages, page, _, _). nat (totalPages - page))") auto

declare fetch_pages.simps [simp del]

definition total_pages :: "SnapshotPage \<Rightarrow> int" where
  "total_pages response =
     (let n = page_TotalPages (sp_Configs response) in if n \<le>s 0 then 1 else sint n)"

definition fetch_snapshot ::
    "('w, 'e) transport \<Rightarrow> Client \<Rightarrow> int64 \<Rightarrow> 'w \<Rightarrow>
     ('e sync_error + SnapshotPage \<times> PublishedConfig list) \<times> 'w" where
  "fetch_snapshot transport c sz w =
     (case Client_Snapshot transport c 0 sz w of
        (Inl e, w') \<Rightarrow> (Inl (ClientError e), w')
      | (Inr response, w') \<Rightarrow>
          (case fetch_pages transport c sz (sp_SnapshotVersion response) (sp_Checksum response)
                  (total_pages response) 1
                  (map Config_Published (page_Content (sp_Configs response))) w' of
             (Inl e, w'') \<Rightarrow> (Inl e, w'')
           | (Inr configs, w'') \<Rightarrow> (Inr (response, configs), w'')))"

definition fullSyncLocked ::
    "('c, 'w, 'e) env \<Rightarrow> Syncer \<Rightarrow> Client \<Rightarrow> ('c, 'w) synced \<Rightarrow>
     'e sync_error option \<times> ('c, 'w) synced" where
  "fullSyncLocked env sy c sw =
     (case sw of (st, w) \<Rightarrow>
      case fetch_snapshot (env_transport env) c (syc_SnapshotPageSize (sy_config sy)) w of
        (Inl e, w') \<Rightarrow> (Some e, (st, w'))
      | (Inr (first, configs), w') \<Rightarrow>
          (case BuildSnapshot (sp_SnapshotVersion first) (sp_Checksum first) (sp_GeneratedAt first) configs of
             Inl e \<Rightarrow> (Some (BuildError e), (st, w'))
           | Inr snapshot \<Rightarrow>
               (case ReplaceWithContext (env_marshal env) (env_set_cache env) snapshot st of
                  (st', err) \<Rightarrow> (map_option CacheError err, (st', w')))))"

definition is_paging_error :: "'e sync_error \<Rightarrow> bool" where
  "is_paging_error e = (case e of SnapshotChangedWhilePaging _ _ _ _ \<Rightarrow> True | _ \<Rightarrow> False)"

text \<open>The attempts that are left; only a snapshot that changed while paging is tried again.\<close>

fun full_sync_attempts ::
    "('c, 'w, 'e) env \<Rightarrow> Syncer \<Rightarrow> Client \<Rightarrow> nat \<Rightarrow> 'e sync_error option \<Rightarrow> ('c, 'w) synced \<Rightarrow>
     'e sync_error option \<times> ('c, 'w) synced" where
  "full_sync_attempts env sy c 0 lastErr sw = (lastErr, sw)"
| "full_sync_attempts env sy c (Suc n) lastErr sw =
     (case fullSyncLocked env sy c sw of
        (None, sw') \<Rightarrow> (None, sw')
      | (Some e, sw') \<Rightarrow>
          (if is_paging_error e \<and> 0 < n then full_sync_attempts env sy c n (Some e) sw'
           else (Some e, sw')))"

definition fullSync ::
    "('c, 'w, 'e) env \<Rightarrow> Syncer \<Rightarrow> Client \<Rightarrow> ('c, 'w) synced \<Rightarrow>
     'e sync_error option \<times> ('c, 'w) synced" where
  "fullSync env sy c =
     full_sync_attempts env sy c (nat (sint (syc_FullSyncMaxRetries (sy_config sy)))) None"

subsection \<open>Deltas\<close>

text \<open>The checks of a delta against the snapshot it was asked for.\<close>

definition validate_delta :: "Snapshot \<Rightarrow> Delta \<Rightarrow> 'e sync_error option" where
  "validate_delta current delta =
     (if delta_ChangeCount delta \<noteq> 0 \<and>
         delta_ChangeCount delta \<noteq> word_of_nat (length (delta_Changes delta))
      then Some (ChangeCountMismatch (delta_ChangeCount delta) (word_of_nat (length (delta_Changes delta))))
      else if delta_ToSnapshotVersion delta \<le>s snap_Version current
      then Some (TargetMustAdvance (snap_Version current) (delta_ToSnapshotVersion delta))
      else if delta_ToChecksum delta = [] then Some TargetChecksumRequired
      else None)"

definition continues :: "Snapshot \<Rightarrow> Delta \<Rightarrow> bool" where
  "continues current delta \<longleftrightarrow>
     delta_FromSnapshotVersion delta = snap_Version current \<and>
     delta_FromChecksum delta = snap_Checksum current"

definition fetchAndApplyDelta ::
    "('c, 'w, 'e) env \<Rightarrow> Syncer \<Rightarrow> Client \<Rightarrow> time \<Rightarrow> ('c, 'w) synced \<Rightarrow>
     'e sync_error option \<times> ('c, 'w) synced" where
  "fetchAndApplyDelta env sy c now sw =
     (case sw of (st, w) \<Rightarrow>
      let current = Store_Snapshot now st in
      case Client_Changes (env_transport env) c (snap_Version current) (snap_Checksum current) w of
        (Inl e, w') \<Rightarrow> (Some (ClientError e), (st, w'))
      | (Inr delta, w') \<Rightarrow>
          (case validate_delta current delta of
             Some e \<Rightarrow> (Some e, (st, w'))
           | None \<Rightarrow>
               (if \<not> continues current delta
                then (case fullSyncLocked env sy c (st, w') of
                        (err, sw') \<Rightarrow> (map_option NotContinuous err, sw'))
                else case ApplyChanges current (delta_ToSnapshotVersion delta) (delta_ToChecksum delta)
                            (delta_GeneratedAt delta) (map Change_Published (delta_Changes delta)) of
                  Inl e \<Rightarrow> (Some (BuildError e), (st, w'))
                | Inr next_snapshot \<Rightarrow>
                    (case ReplaceWithContext (env_marshal env) (env_set_cache env) next_snapshot st of
                       (st', err) \<Rightarrow> (map_option CacheError err, (st', w'))))))"

subsection \<open>Start and watch\<close>

definition start_empty ::
    "('c, 'w, 'e) env \<Rightarrow> time \<Rightarrow> ('c, 'w) synced \<Rightarrow> 'e sync_error option \<times> ('c, 'w) synced" where
  "start_empty env now sw =
     (case sw of (st, w) \<Rightarrow>
      if \<not> Snapshot_Empty (Store_Snapshot now st) then (None, (st, w))
      else case ReplaceWithContext (env_marshal env) (env_set_cache env) (EmptySnapshot now) st of
        (st', err) \<Rightarrow> (map_option CacheError err, (st', w)))"

definition Bootstrap ::
    "('c, 'w, 'e) env \<Rightarrow> Syncer \<Rightarrow> time \<Rightarrow> ('c, 'w) synced \<Rightarrow>
     'e sync_error option \<times> ('c, 'w) synced" where
  "Bootstrap env sy now sw =
     (case sy_client sy of
        Some c \<Rightarrow>
          (if \<not> Enabled (Some c) then
             (if syc_AllowEmptyStartup (sy_config sy) then start_empty env now sw
              else (Some EndpointRequired, sw))
           else case fullSync env sy c sw of
             (None, sw') \<Rightarrow> (None, sw')
           | (Some e, sw') \<Rightarrow>
               (if syc_AllowEmptyStartup (sy_config sy)
                then (case start_empty env now sw' of
                        (None, sw'') \<Rightarrow> (None, sw'')
                      | (Some cacheErr, sw'') \<Rightarrow> (Some (Joined e cacheErr), sw''))
                else (Some e, sw')))
      | None \<Rightarrow>
          (if syc_AllowEmptyStartup (sy_config sy) then start_empty env now sw
           else (Some EndpointRequired, sw)))"

definition handleWatchEvent ::
    "('c, 'w, 'e) env \<Rightarrow> Syncer \<Rightarrow> Client \<Rightarrow> time \<Rightarrow> WatchEvent \<Rightarrow> ('c, 'w) synced \<Rightarrow>
     'e sync_error option \<times> ('c, 'w) synced" where
  "handleWatchEvent env sy c now event sw =
     (if we_EventType event = ''DELTA_CHANGED'' then fetchAndApplyDelta env sy c now sw
      else if we_EventType event = ''FULL_SYNC_REQUIRED'' then fullSync env sy c sw
      else (None, sw))"

text \<open>The client that \<open>RunWatch\<close> watches with; it returns at once when there is none that is enabled.\<close>

definition RunWatch_client :: "Syncer \<Rightarrow> Client option" where
  "RunWatch_client sy = (if Enabled (sy_client sy) then sy_client sy else None)"

text \<open>
  \<open>RunWatch\<close>: the events that wait for \<open>processWatchEvents\<close>, and whether a watch stream is up
  and for which version and checksum it asked. An event that finds the buffer full ends the
  stream; a stream that ended, or was ended by a periodic full synchronisation, is followed
  by a new one. The world may change between the steps, which the other processes of the
  system do.
\<close>

record ('c, 'w) Watch =
  wt_synced :: "('c, 'w) synced"
  wt_events :: "WatchEvent list"
  wt_stream :: "(int64 \<times> string) option"

inductive watch_step ::
    "('c, 'w, 'e) env \<Rightarrow> Syncer \<Rightarrow> Client \<Rightarrow> ('c, 'w) Watch \<Rightarrow> ('c, 'w) Watch \<Rightarrow> bool"
  for env :: "('c, 'w, 'e) env" and sy :: Syncer and c :: Client where
  connect: "wt_stream x = None \<Longrightarrow> wt_synced x = (st, w) \<Longrightarrow>
    watch_step env sy c x (x\<lparr>wt_stream :=
      Some (snap_Version (Store_Snapshot now st), snap_Checksum (Store_Snapshot now st))\<rparr>)"
| offer: "wt_stream x \<noteq> None \<Longrightarrow>
    watch_step env sy c x
      (if int (length (wt_events x)) < sint (syc_WatchEventBuffer (sy_config sy))
       then x\<lparr>wt_events := wt_events x @ [event]\<rparr> else x\<lparr>wt_stream := None\<rparr>)"
| stream_ends: "wt_stream x \<noteq> None \<Longrightarrow> watch_step env sy c x (x\<lparr>wt_stream := None\<rparr>)"
| process: "wt_events x = event # events \<Longrightarrow>
    handleWatchEvent env sy c now event (wt_synced x) = (err, sw) \<Longrightarrow>
    watch_step env sy c x (x\<lparr>wt_synced := sw, wt_events := events\<rparr>)"
| resync: "wt_stream x \<noteq> None \<Longrightarrow> fullSync env sy c (wt_synced x) = (err, sw) \<Longrightarrow>
    watch_step env sy c x (x\<lparr>wt_synced := sw, wt_stream := None\<rparr>)"
| world: "wt_synced x = (st, w) \<Longrightarrow> watch_step env sy c x (x\<lparr>wt_synced := (st, w')\<rparr>)"

inductive_cases watch_stepE: "watch_step env sy c x x'"

end
