(* ===== verification/Starter.thy ===== *)
theory Starter
  imports GrpcServer TopologyInstruments Syncer ConfigLoad
begin

text \<open>
  \<open>internal/app/starter.go\<close>: how the components are put together, started and stopped. What
  \<open>Init\<close> asks of the Stellar framework is a record of answers: the cache service, the gRPC
  client it opens, whether there is a service registry and a gRPC server, the outcome of
  creating the topology's instruments and of registering a service. \<open>runProviderUpdates\<close> and
  \<open>RunWatch\<close> run beside each other after \<open>Start\<close>: \<open>service_step\<close> interleaves them.
\<close>

subsection \<open>The starter and the framework\<close>

record ('c, 'n) Starter =
  str_cfg :: ServiceConfig
  str_store :: "'c Store option"
  str_syncer :: "Syncer option"
  str_provider :: "Provider option"
  str_launched :: bool
  str_conn :: "'n option"

text \<open>The methods of the cache service and the codec of snapshots that the store calls.\<close>

record ('c, 'e) cache_service =
  cs_marshal :: "Snapshot \<Rightarrow> 'e + string"
  cs_unmarshal :: "string \<Rightarrow> 'e + Snapshot"
  cs_get :: "'c \<Rightarrow> string \<Rightarrow> 'e + string option"
  cs_set :: "'c \<Rightarrow> string \<Rightarrow> string \<Rightarrow> 'c \<times> 'e option"

record ('c, 'n, 'e) App =
  app_Cache :: "'c option"
  app_cache_service :: "('c, 'e) cache_service"
  app_NewGRPCClient :: "string \<Rightarrow> 'e + 'n"
  app_has_ServiceRegistry :: bool
  app_has_RPC :: bool
  app_Meter :: "'e meter option"
  app_Register :: "string \<Rightarrow> 'e option"

datatype 'e start_error = CacheRequired | GrpcServerRequired | AppError 'e | MetricsError "'e metrics_error" | SyncError "'e sync_error"

definition zero_ServiceConfig :: ServiceConfig where
  "zero_ServiceConfig =
     \<lparr>sc_Instance =
        \<lparr>ic_Namespace = [], ic_Service = [], ic_ID = [], ic_Host = [], ic_Port = 0,
         ic_Priority = 0, ic_Weight = 0, ic_Zone = [], ic_Version = []\<rparr>,
      sc_StellOrbit = \<lparr>so_RuntimeEndpoint = [], so_HTTPTimeout = 0, so_AuthToken = []\<rparr>,
      sc_Rules =
        \<lparr>rc_SnapshotPageSize = 0, rc_WatchReconnectDelay = 0, rc_WatchResyncInterval = 0,
         rc_DeltaFetchTimeout = 0, rc_FullSyncMaxRetries = 0, rc_WatchEventBuffer = 0,
         rc_ServerLagRetryAfter = 0, rc_BucketGCInterval = 0, rc_ExpiredBucketGrace = 0,
         rc_MaxBuckets = 0, rc_CompatiblePrevRevision = 0, rc_SessionHeartbeatInterval = 0,
         rc_AllowEmptyStartup = False\<rparr>,
      sc_GRPC_ClientName = [], sc_Observability_TopologyMetrics = False, sc_Security_AuthToken = []\<rparr>"

definition NewStarter :: "('c, 'n) Starter" where
  "NewStarter =
     \<lparr>str_cfg = zero_ServiceConfig, str_store = None, str_syncer = None, str_provider = None,
      str_launched = False, str_conn = None\<rparr>"

definition Condition ::
    "(string \<Rightarrow> string) \<Rightarrow> StellarConfig \<Rightarrow> fileConfig \<Rightarrow> ('c, 'n) Starter \<Rightarrow> bool \<times> ('c, 'n) Starter" where
  "Condition getenv sc file s = (True, s\<lparr>str_cfg := Load getenv sc file\<rparr>)"

subsection \<open>Init\<close>

definition syncer_config :: "RulesConfig \<Rightarrow> SyncerConfig" where
  "syncer_config r =
     \<lparr>syc_SnapshotPageSize = rc_SnapshotPageSize r,
      syc_WatchReconnectDelay = rc_WatchReconnectDelay r,
      syc_WatchResyncInterval = rc_WatchResyncInterval r,
      syc_DeltaFetchTimeout = rc_DeltaFetchTimeout r,
      syc_AllowEmptyStartup = rc_AllowEmptyStartup r,
      syc_FullSyncMaxRetries = rc_FullSyncMaxRetries r,
      syc_WatchEventBuffer = rc_WatchEventBuffer r\<rparr>"

definition engine_config :: "RulesConfig \<Rightarrow> EngineConfig" where
  "engine_config r =
     \<lparr>ec_ServerLagRetryAfter = rc_ServerLagRetryAfter r,
      ec_BucketGCInterval = rc_BucketGCInterval r,
      ec_ExpiredBucketGrace = rc_ExpiredBucketGrace r,
      ec_MaxBuckets = rc_MaxBuckets r\<rparr>"

definition server_config :: "ServiceConfig \<Rightarrow> Metrics option \<Rightarrow> ServerConfig" where
  "server_config cfg metrics =
     \<lparr>gc_InstanceID = ic_ID (sc_Instance cfg),
      gc_Namespace = ic_Namespace (sc_Instance cfg),
      gc_Service = ic_Service (sc_Instance cfg),
      gc_HeartbeatInterval = rc_SessionHeartbeatInterval (sc_Rules cfg),
      gc_TopologyCacheTTL = 0,
      gc_TopologyMetrics = metrics,
      gc_AuthToken = sc_Security_AuthToken cfg\<rparr>"

definition topology_metrics ::
    "('c, 'n, 'e) App \<Rightarrow> ServiceConfig \<Rightarrow> 'e metrics_error + Metrics option" where
  "topology_metrics app cfg =
     (if \<not> sc_Observability_TopologyMetrics cfg then Inr None
      else map_sum id Some (new_metrics (app_Meter app) (ic_Namespace (sc_Instance cfg))
             (ic_Service (sc_Instance cfg)) (ic_ID (sc_Instance cfg))))"

definition discovery_service :: string where
  "discovery_service = ''stellpulsar.v1.StellPulsarDiscoveryService''"

definition runtime_service :: string where
  "runtime_service = ''stellpulsar.v1.StellPulsarRuntimeService''"

text \<open>The two registrations; the second is not tried when the first fails.\<close>

definition register_services ::
    "('c, 'n, 'e) App \<Rightarrow> Server \<Rightarrow> 'e start_error option \<times> (string \<times> Server) list" where
  "register_services app server =
     (case app_Register app discovery_service of
        Some e \<Rightarrow> (Some (AppError e), [])
      | None \<Rightarrow>
          (case app_Register app runtime_service of
             Some e \<Rightarrow> (Some (AppError e), [(discovery_service, server)])
           | None \<Rightarrow> (None, [(discovery_service, server), (runtime_service, server)])))"

text \<open>The client connection; no client is opened when the configuration names none.\<close>

definition open_client :: "('c, 'n, 'e) App \<Rightarrow> ServiceConfig \<Rightarrow> 'e + 'n option" where
  "open_client app cfg =
     (if TrimSpace (sc_GRPC_ClientName cfg) = [] then Inr None
      else map_sum id Some (app_NewGRPCClient app (sc_GRPC_ClientName cfg)))"

definition Init ::
    "('c, 'n, 'e) App \<Rightarrow> time \<Rightarrow> ('c, 'n) Starter \<Rightarrow>
     'e start_error option \<times> ('c, 'n) Starter \<times> (string \<times> Server) list" where
  "Init app now s0 =
     (let s = s0\<lparr>str_store := Some (NewEmptyStore now)\<rparr>; cfg = str_cfg s;
          cs = app_cache_service app in
      case app_Cache app of
        None \<Rightarrow> (Some CacheRequired, s, [])
      | Some cache \<Rightarrow>
      (case AttachCache (cs_marshal cs) (cs_unmarshal cs) (cs_get cs) (cs_set cs) now (Some cache)
              (NewEmptyStore now) of
        (st, Some e) \<Rightarrow> (Some (AppError e), s\<lparr>str_store := Some st\<rparr>, [])
      | (st, None) \<Rightarrow>
      (let s = s\<lparr>str_store := Some st\<rparr> in
       case open_client app cfg of
        Inl e \<Rightarrow> (Some (AppError e), s, [])
      | Inr conn \<Rightarrow>
      (let client = NewClient (so_RuntimeEndpoint (sc_StellOrbit cfg))
             (Some (so_AuthToken (sc_StellOrbit cfg)));
           s = s\<lparr>str_conn := (case conn of None \<Rightarrow> str_conn s | Some n \<Rightarrow> Some n),
             str_provider := Some (NewProvider (app_has_ServiceRegistry app) cfg),
             str_syncer := Some (NewSyncer (Some client) (syncer_config (sc_Rules cfg)))\<rparr> in
       if \<not> app_has_RPC app then (Some GrpcServerRequired, s, [])
       else case topology_metrics app cfg of
        Inl e \<Rightarrow> (Some (MetricsError e), s, [])
      | Inr metrics \<Rightarrow>
          (case register_services app
              (NewServer (NewEngine (engine_config (sc_Rules cfg))) (server_config cfg metrics)) of
             (err, services) \<Rightarrow> (err, s, services))))))"

subsection \<open>Start and Stop\<close>

text \<open>\<open>None\<close> is the panic of a nil pointer, when \<open>Init\<close> has not made the components.\<close>

definition Start ::
    "('c, 'w, 'e) env \<Rightarrow> time \<Rightarrow> 'w \<Rightarrow> ('c, 'n) Starter \<Rightarrow>
     ('e start_error option \<times> ('c, 'n) Starter \<times> 'w) option" where
  "Start env now w s =
     (case (str_syncer s, str_provider s, str_store s) of
        (Some sy, Some p, Some st) \<Rightarrow>
          Some (case Bootstrap env sy now (st, w) of
            (Some e, (st', w')) \<Rightarrow> (Some (SyncError e), s\<lparr>str_store := Some st'\<rparr>, w')
          | (None, (st', w')) \<Rightarrow>
              (None, s\<lparr>str_store := Some st',
                 str_provider := Some (Provider_Start (Store_Snapshot now st') p),
                 str_launched := True\<rparr>, w'))
      | _ \<Rightarrow> None)"

text \<open>
  \<open>Stop\<close> cancels the goroutines and closes the connection; \<open>Stop\<close> of both providers does
  nothing. The second component is the error of closing the connection.
\<close>

definition Stop :: "('n \<Rightarrow> 'e option) \<Rightarrow> ('c, 'n) Starter \<Rightarrow> ('c, 'n) Starter \<times> 'e option" where
  "Stop close s =
     (s\<lparr>str_launched := False\<rparr>, case str_conn s of None \<Rightarrow> None | Some n \<Rightarrow> close n)"

subsection \<open>The running service\<close>

text \<open>
  The syncer's watch, the provider, and the subscription of \<open>runProviderUpdates\<close>, which it
  makes itself once its goroutine runs, and whose channel holds one snapshot. Sessions open
  subscriptions of their own and close them; \<open>sv_sessions\<close> has the ids of those that are open.
  Every subscription has the id that \<open>Subscribe\<close> takes from the store's counter. A replacement of
  the snapshot and its notification are one step; Notifier has the steps of a notification.
\<close>

record ('c, 'w) Service =
  sv_watch :: "('c, 'w) Watch"
  sv_provider :: Provider
  sv_updates :: "int64 option"
  sv_sessions :: "int64 list"

abbreviation sv_store :: "('c, 'w) Service \<Rightarrow> 'c Store" where
  "sv_store x \<equiv> fst (wt_synced (sv_watch x))"

definition with_store :: "'c Store \<Rightarrow> ('c, 'w) Service \<Rightarrow> ('c, 'w) Service" where
  "with_store st x =
     x\<lparr>sv_watch := (sv_watch x)\<lparr>wt_synced := (st, snd (wt_synced (sv_watch x)))\<rparr>\<rparr>"

definition pop_channel :: "int64 \<Rightarrow> 'c Store \<Rightarrow> 'c Store" where
  "pop_channel k st =
     (case fmlookup (store_subscribers st) k of
        None \<Rightarrow> st
      | Some ch \<Rightarrow>
          st\<lparr>store_subscribers := fmupd k (ch\<lparr>chan_buffer := tl (chan_buffer ch)\<rparr>) (store_subscribers st)\<rparr>)"

inductive service_step ::
    "('c, 'w, 'e) env \<Rightarrow> Syncer \<Rightarrow> Client \<Rightarrow> ('c, 'w) Service \<Rightarrow> ('c, 'w) Service \<Rightarrow> bool"
  for env :: "('c, 'w, 'e) env" and sy :: Syncer and c :: Client where
  watch: "RunWatch_client sy = Some c \<Longrightarrow> watch_step env sy c (sv_watch x) y \<Longrightarrow>
    service_step env sy c x (x\<lparr>sv_watch := y\<rparr>)"
| subscribe: "sv_updates x = None \<Longrightarrow> Subscribe 1 (sv_store x) = (k, st) \<Longrightarrow>
    service_step env sy c x ((with_store st x)\<lparr>sv_updates := Some k\<rparr>)"
| update: "sv_updates x = Some k \<Longrightarrow> fmlookup (store_subscribers (sv_store x)) k = Some ch \<Longrightarrow>
    chan_buffer ch = snapshot # rest \<Longrightarrow>
    service_step env sy c x
      ((with_store (pop_channel k (sv_store x)) x)\<lparr>sv_provider := Provider_Update snapshot (sv_provider x)\<rparr>)"
| session_opens: "Subscribe buffer (sv_store x) = (k, st) \<Longrightarrow>
    service_step env sy c x ((with_store st x)\<lparr>sv_sessions := k # sv_sessions x\<rparr>)"
| session_closes: "k \<in> set (sv_sessions x) \<Longrightarrow>
    service_step env sy c x
      ((with_store (unsubscribe k (sv_store x)) x)\<lparr>sv_sessions := remove1 k (sv_sessions x)\<rparr>)"

text \<open>The number of steps of a run bounds how far the counter of subscriptions has got.\<close>

inductive service_run ::
    "('c, 'w, 'e) env \<Rightarrow> Syncer \<Rightarrow> Client \<Rightarrow> nat \<Rightarrow> ('c, 'w) Service \<Rightarrow> ('c, 'w) Service \<Rightarrow> bool"
  for env :: "('c, 'w, 'e) env" and sy :: Syncer and c :: Client where
  start: "service_run env sy c 0 x x"
| step: "service_run env sy c n x y \<Longrightarrow> service_step env sy c y z \<Longrightarrow> service_run env sy c (Suc n) x z"

inductive_cases service_stepE: "service_step env sy c x x'"

text \<open>The service as \<open>Start\<close> leaves it, when the goroutines have not taken a step.\<close>

definition launched :: "'c Store \<Rightarrow> 'w \<Rightarrow> Provider \<Rightarrow> ('c, 'w) Service" where
  "launched st w p =
     \<lparr>sv_watch = \<lparr>wt_synced = (st, w), wt_events = [], wt_stream = None\<rparr>, sv_provider = p,
      sv_updates = None, sv_sessions = []\<rparr>"

end
