(* ===== verification/SyncerSamples.thy ===== *)
theory SyncerSamples
  imports Syncer
begin

text \<open>
  A small runtime API for the witnesses of the synchronisation's properties: a transport that
  gives prepared bodies, four of them with what they decode to, and a syncer to call it.
\<close>

subsection \<open>A sample API\<close>

text \<open>A transport that gives prepared bodies one after the other, and then fails.\<close>

fun replay :: "(string list, string) transport" where
  "replay request [] = (Inl ''down'', [])"
| "replay request (body # bodies) =
     (Inr \<lparr>resp_StatusCode = 200, resp_body = body, resp_body_error = None\<rparr>, bodies)"

definition sample_env :: "(unit, string list, string) env" where
  "sample_env = \<lparr>env_transport = replay, env_marshal = (\<lambda>_. Inr []), env_set_cache = (\<lambda>u _ _. (u, None))\<rparr>"

definition sample_config :: SyncerConfig where
  "sample_config =
     \<lparr>syc_SnapshotPageSize = 0, syc_WatchReconnectDelay = 0, syc_WatchResyncInterval = 0,
      syc_DeltaFetchTimeout = 0, syc_AllowEmptyStartup = True, syc_FullSyncMaxRetries = 1,
      syc_WatchEventBuffer = 0\<rparr>"

definition sample_client :: Client where
  "sample_client = \<lparr>client_baseURL = ''http://orbit'', client_authToken = []\<rparr>"

definition sample_current :: Snapshot where
  "sample_current =
     \<lparr>snap_Version = 0, snap_Checksum = ''one'', snap_GeneratedAt = zero_time, snap_Apps = fmempty\<rparr>"

definition synced_store :: "Snapshot \<Rightarrow> unit Store" where
  "synced_store snapshot =
     \<lparr>store_current = Some snapshot, store_cache = None, store_nextSubscriber = 0,
      store_subscribers = fmempty\<rparr>"

definition page_body :: string where "page_body = ''{\"checksum\":\"one\"}''"
definition torn_body :: string where "torn_body = ''{\"checksum\":\"two\"}''"
definition first_body :: string where
  "first_body = ''{\"checksum\":\"one\",\"configs\":{\"totalPages\":2}}''"
definition delta_body :: string where
  "delta_body = ''{\"toSnapshotVersion\":2,\"fromChecksum\":\"one\",\"toChecksum\":\"two\"}''"

lemma sample_values_1:
  "first_value page_body False = Some page_body"
  by code_simp

lemma sample_values_2:
  "first_value torn_body False = Some torn_body"
  by code_simp

lemma sample_values_3:
  "first_value first_body False = Some first_body"
  by code_simp

lemma sample_values_4:
  "first_value delta_body False = Some delta_body"
  by code_simp

lemma sample_values_5:
  "raw_object page_body = Some [(''checksum'', ''\"one\"'')]"
  by code_simp

lemma sample_values_6:
  "raw_object torn_body = Some [(''checksum'', ''\"two\"'')]"
  by code_simp

lemma sample_values_7:
  "raw_object first_body = Some [(''checksum'', ''\"one\"''), (''configs'', ''{\"totalPages\":2}'')]"
  by code_simp

lemma sample_values_8:
  "raw_object ''{\"totalPages\":2}'' = Some [(''totalPages'', ''2'')]"
  by code_simp

lemma sample_values_9:
  "raw_object delta_body =
    Some [(''toSnapshotVersion'', ''2''), (''fromChecksum'', ''\"one\"''), (''toChecksum'', ''\"two\"'')]"
  by code_simp

lemma sample_values_10:
  "json_decode ''2'' = Some (JNumber ''2'')"
  by code_simp

lemma sample_values_11:
  "json_decode ''\"one\"'' = Some (JString ''one'')"
  by code_simp

lemma sample_values_12:
  "json_decode ''\"two\"'' = Some (JString ''two'')"
  by code_simp

lemmas sample_values =
  sample_values_1 sample_values_2 sample_values_3 sample_values_4 sample_values_5 sample_values_6
  sample_values_7 sample_values_8 sample_values_9 sample_values_10 sample_values_11 sample_values_12

lemma sample_not_null:
  "page_body \<noteq> null" "torn_body \<noteq> null" "first_body \<noteq> null" "delta_body \<noteq> null"
  "''{\"totalPages\":2}'' \<noteq> null" "''2'' \<noteq> null"
  by code_simp+

lemma sample_names_1:
  "fold_name ''snapshotVersion'' = ''SNAPSHOTVERSION''"
  by code_simp

lemma sample_names_2:
  "fold_name ''checksum'' = ''CHECKSUM''"
  by code_simp

lemma sample_names_3:
  "fold_name ''generatedAt'' = ''GENERATEDAT''"
  by code_simp

lemma sample_names_4:
  "fold_name ''totalApplications'' = ''TOTALAPPLICATIONS''"
  by code_simp

lemma sample_names_5:
  "fold_name ''totalRules'' = ''TOTALRULES''"
  by code_simp

lemma sample_names_6:
  "fold_name ''configs'' = ''CONFIGS''"
  by code_simp

lemma sample_names_7:
  "fold_name ''content'' = ''CONTENT''"
  by code_simp

lemma sample_names_8:
  "fold_name ''page'' = ''PAGE''"
  by code_simp

lemma sample_names_9:
  "fold_name ''size'' = ''SIZE''"
  by code_simp

lemma sample_names_10:
  "fold_name ''totalElements'' = ''TOTALELEMENTS''"
  by code_simp

lemma sample_names_11:
  "fold_name ''totalPages'' = ''TOTALPAGES''"
  by code_simp

lemma sample_names_12:
  "fold_name ''fromSnapshotVersion'' = ''FROMSNAPSHOTVERSION''"
  by code_simp

lemma sample_names_13:
  "fold_name ''toSnapshotVersion'' = ''TOSNAPSHOTVERSION''"
  by code_simp

lemma sample_names_14:
  "fold_name ''fromChecksum'' = ''FROMCHECKSUM''"
  by code_simp

lemma sample_names_15:
  "fold_name ''toChecksum'' = ''TOCHECKSUM''"
  by code_simp

lemma sample_names_16:
  "fold_name ''changeCount'' = ''CHANGECOUNT''"
  by code_simp

lemma sample_names_17:
  "fold_name ''changes'' = ''CHANGES''"
  by code_simp

lemmas sample_names =
  sample_names_1 sample_names_2 sample_names_3 sample_names_4 sample_names_5 sample_names_6
  sample_names_7 sample_names_8 sample_names_9 sample_names_10 sample_names_11 sample_names_12
  sample_names_13 sample_names_14 sample_names_15 sample_names_16 sample_names_17

lemma sample_ParseInt: "ParseInt ''2'' = (2, None)"
  by (simp add: ParseInt_def parse_int_def parse_int_unsigned_def parse_uint_def is_digit_def digit_val_def)

lemma sample_scalars:
  "dec_int64 ''2'' old = Some 2" "dec_string ''\"one\"'' s = Some ''one''" "dec_string ''\"two\"'' s = Some ''two''"
  by (simp_all add: dec_int64_def dec_string_def null_def sample_values unmarshal_int64_def
      unmarshal_string_def sample_ParseInt)

definition sample_page :: "string \<Rightarrow> int64 \<Rightarrow> SnapshotPage" where
  "sample_page checksum n =
     zero_SnapshotPage\<lparr>sp_Checksum := checksum,
       sp_Configs := (sp_Configs zero_SnapshotPage)\<lparr>page_TotalPages := n\<rparr>\<rparr>"

lemmas sample_decoding = dec_SnapshotPage_def dec_ConfigPage_def dec_Delta_def dec_struct_def
  sample_not_null dec_field_def sample_values sample_scalars sample_names

lemma sample_pages:
  "dec_SnapshotPage page_body zero_SnapshotPage = Some (sample_page ''one'' 0)"
  "dec_SnapshotPage torn_body zero_SnapshotPage = Some (sample_page ''two'' 0)"
  "dec_SnapshotPage first_body zero_SnapshotPage = Some (sample_page ''one'' 2)"
  "dec_Delta delta_body zero_Delta =
     Some (zero_Delta\<lparr>delta_ToSnapshotVersion := 2, delta_FromChecksum := ''one'', delta_ToChecksum := ''two''\<rparr>)"
  by (simp_all add: sample_decoding zero_SnapshotPage_def sample_page_def zero_Delta_def del: fold_name.simps)
lemma replay_snapshot:
  assumes "first_value body False = Some body" and "dec_SnapshotPage body zero_SnapshotPage = Some r"
  shows "Client_Snapshot replay c page sz (body # bodies) = (Inr r, bodies)"
  using assms by (simp add: Client_Snapshot_def getJSON_def failed_status_def word_sless_alt word_sle_eq)

lemma replay_changes:
  assumes "first_value body False = Some body" and "dec_Delta body zero_Delta = Some d"
  shows "Client_Changes replay c version checksum (body # bodies) = (Inr d, bodies)"
  using assms by (simp add: Client_Changes_def getJSON_def failed_status_def word_sless_alt word_sle_eq)

lemmas sample_replies =
  replay_snapshot [OF sample_values(1) sample_pages(1)] replay_snapshot [OF sample_values(2) sample_pages(2)]
  replay_snapshot [OF sample_values(3) sample_pages(3)] replay_changes [OF sample_values(4) sample_pages(4)]

abbreviation sample_syncer :: Syncer where
  "sample_syncer \<equiv> NewSyncer (Some sample_client) sample_config"

lemma sample_syncer_config:
  "syc_SnapshotPageSize (sy_config sample_syncer) = 100" "syc_FullSyncMaxRetries (sy_config sample_syncer) = 1"
  "sy_client sample_syncer = Some sample_client"
  by (simp_all add: NewSyncer_def sample_config_def word_sle_eq)

lemma sample_fields:
  "sp_SnapshotVersion (sample_page checksum n) = 0" "sp_Checksum (sample_page checksum n) = checksum"
  "sp_GeneratedAt (sample_page checksum n) = zero_time"
  "page_Content (sp_Configs (sample_page checksum n)) = []"
  "page_TotalPages (sp_Configs (sample_page checksum n)) = n"
  by (simp_all add: sample_page_def zero_SnapshotPage_def)

lemma sample_replace:
  "ReplaceWithContext (env_marshal sample_env) (env_set_cache sample_env) snapshot (synced_store old) =
     (synced_store snapshot, None)"
  by (simp add: sample_env_def ReplaceWithContext_def Let_def cacheSnapshot_def notify_def synced_store_def)

lemma sample_locked:
  "fullSyncLocked sample_env sample_syncer c (synced_store old, page_body # rest) =
     (None, (synced_store sample_current, rest))"
  "fullSyncLocked sample_env sample_syncer c (st, first_body # torn_body # rest) =
     (Some (SnapshotChangedWhilePaging 0 ''one'' 0 ''two''), (st, rest))"
  "fullSyncLocked sample_env sample_syncer c (st, []) = (Some (ClientError (TransportError ''down'')), (st, []))"
proof -
  have env: "env_transport sample_env = replay" by (simp add: sample_env_def)
  note defs = fullSyncLocked_def fetch_snapshot_def env sample_replies sample_fields total_pages_def
    fetch_pages.simps sample_syncer_config
  show "fullSyncLocked sample_env sample_syncer c (synced_store old, page_body # rest) =
     (None, (synced_store sample_current, rest))"
    using sample_replace
    by (simp add: defs word_sle_eq BuildSnapshot_def sample_current_def)
  show "fullSyncLocked sample_env sample_syncer c (st, first_body # torn_body # rest) =
     (Some (SnapshotChangedWhilePaging 0 ''one'' 0 ''two''), (st, rest))"
    by (simp add: defs word_sle_eq)
  show "fullSyncLocked sample_env sample_syncer c (st, []) =
     (Some (ClientError (TransportError ''down'')), (st, []))"
    by (simp add: defs Client_Snapshot_def getJSON_def)
qed

lemma sample_full_sync:
  "fullSync sample_env sample_syncer c sw = (case fullSyncLocked sample_env sample_syncer c sw of
     (err, sw') \<Rightarrow> (err, sw'))"
  by (simp add: fullSync_def sample_syncer_config split: prod.split option.split)

lemma sample_client_enabled: "Enabled (Some sample_client)"
  by (simp add: Enabled_def sample_client_def)

text \<open>The snapshot that the sample's delta leads to.\<close>

definition sample_next :: Snapshot where
  "sample_next =
     \<lparr>snap_Version = 2, snap_Checksum = ''two'', snap_GeneratedAt = zero_time, snap_Apps = fmempty\<rparr>"

lemma sample_delta_run:
  "fetchAndApplyDelta sample_env sample_syncer sample_client now (synced_store sample_current, [delta_body]) =
     (None, (synced_store sample_next, []))"
proof -
  have "TrimSpace ''two'' = ''two''" by code_simp
  then show ?thesis
    using sample_replace [of sample_next sample_current]
    by (simp add: fetchAndApplyDelta_def Let_def sample_replies sample_env_def synced_store_def sample_next_def
        Store_Snapshot_def sample_current_def validate_delta_def continues_def zero_Delta_def
        ApplyChanges_def word_sle_eq)
qed

end
