(* ===== verification/SyncerProperties.thy ===== *)
theory SyncerProperties
  imports SyncerSamples RuntimeProperties RuleProperties
begin

text \<open>
  The properties of the synchronisation: what an operation that succeeds has stored, what one
  that fails leaves alone, how often it tries, and what every state of a watch satisfies.
\<close>

subsection \<open>Full synchronisation\<close>

text \<open>The pages a transport serves, one after the other, from a page on.\<close>

fun serves ::
    "('w, 'e) transport \<Rightarrow> Client \<Rightarrow> int64 \<Rightarrow> int \<Rightarrow> SnapshotPage list \<Rightarrow> 'w \<Rightarrow> 'w \<Rightarrow> bool" where
  "serves transport c sz page [] w w' \<longleftrightarrow> w' = w"
| "serves transport c sz page (r # rs) w w' \<longleftrightarrow>
     (\<exists>w1. Client_Snapshot transport c (word_of_int page) sz w = (Inr r, w1) \<and>
        serves transport c sz (page + 1) rs w1 w')"

definition page_configs :: "SnapshotPage \<Rightarrow> PublishedConfig list" where
  "page_configs r = map Config_Published (page_Content (sp_Configs r))"

definition same_snapshot :: "int64 \<Rightarrow> string \<Rightarrow> SnapshotPage \<Rightarrow> bool" where
  "same_snapshot version checksum r \<longleftrightarrow> sp_SnapshotVersion r = version \<and> sp_Checksum r = checksum"

lemma fetch_pages_Inr:
  assumes "fetch_pages transport c sz version checksum total_pages' page configs w = (Inr configs', w')"
  shows "\<exists>rs. serves transport c sz page rs w w' \<and> length rs = nat (total_pages' - page) \<and>
    list_all (same_snapshot version checksum) rs \<and> configs' = configs @ concat (map page_configs rs)"
  using assms
proof (induction transport c sz version checksum total_pages' page configs w rule: fetch_pages.induct)
  case (1 transport c sz version checksum total' page configs w)
  show ?case
  proof (cases "total' \<le> page")
    case True
    then show ?thesis using "1.prems" by (intro exI [of _ "[]"]) (simp add: fetch_pages.simps [of _ _ _ _ _ total' page])
  next
    case False
    then obtain r w1 where r: "Client_Snapshot transport c (word_of_int page) sz w = (Inr r, w1)"
        "same_snapshot version checksum r"
      using "1.prems"
      by (auto simp: fetch_pages.simps [of _ _ _ _ _ total' page] same_snapshot_def
          split: sum.splits prod.splits if_splits)
    have follows: "fetch_pages transport c sz version checksum total' (page + 1) (configs @ page_configs r) w1 =
        (Inr configs', w')"
      using "1.prems" False r
      by (simp add: fetch_pages.simps [of _ _ _ _ _ total' page] same_snapshot_def page_configs_def)
    have "\<not> (sp_SnapshotVersion r \<noteq> version \<or> sp_Checksum r \<noteq> checksum)"
      using r(2) by (simp add: same_snapshot_def)
    from "1.IH" [OF False r(1)[symmetric] refl this, folded page_configs_def, OF follows]
    obtain rs where "serves transport c sz (page + 1) rs w1 w'" "length rs = nat (total' - (page + 1))"
        "list_all (same_snapshot version checksum) rs"
        "configs' = (configs @ page_configs r) @ concat (map page_configs rs)"
      by blast
    with r False show ?thesis by (intro exI [of _ "r # rs"]) (auto simp: Suc_nat_eq_nat_zadd1)
  qed
qed

text \<open>A run of \<open>fullSyncLocked\<close>: it fails and leaves the store, or replaces the snapshot.\<close>

lemma fetch_pages_error:
  "fetch_pages transport c sz version checksum tot page configs w = (Inl e, w') \<Longrightarrow>
   (\<exists>ce. e = ClientError ce) \<or> is_paging_error e"
proof (induction transport c sz version checksum tot page configs w rule: fetch_pages.induct)
  case (1 transport c sz version checksum total' page configs w)
  then show ?case
    by (auto simp: fetch_pages.simps [of _ _ _ _ _ total' page] is_paging_error_def
        split: sum.splits prod.splits if_splits)
qed

lemma fullSyncLocked_cases:
  assumes "fullSyncLocked env sy c (st, w) = (err, (st', w'))"
  obtains (failed) e where "err = Some e" "st' = st"
      "(\<exists>ce. e = ClientError ce) \<or> is_paging_error e \<or> (\<exists>be. e = BuildError be)"
    | (stored) first configs snapshot cache_err where
      "fetch_snapshot (env_transport env) c (syc_SnapshotPageSize (sy_config sy)) w = (Inr (first, configs), w')"
      "BuildSnapshot (sp_SnapshotVersion first) (sp_Checksum first) (sp_GeneratedAt first) configs = Inr snapshot"
      "ReplaceWithContext (env_marshal env) (env_set_cache env) snapshot st = (st', cache_err)"
      "map_option CacheError cache_err = err"
  using assms
  by (auto simp: fullSyncLocked_def fetch_snapshot_def dest: fetch_pages_error
      split: sum.splits prod.splits if_splits)

text \<open>An attempt that is followed by another has left the store alone: the last one decides.\<close>

lemma full_sync_last:
  assumes "full_sync_attempts env sy c n lastErr (st, w) = (err, (st', w'))" and "0 < n"
  shows "\<exists>w0. fullSyncLocked env sy c (st, w0) = (err, (st', w'))"
  using assms
proof (induction n arbitrary: lastErr w)
  case (Suc n)
  obtain err1 st1 w1 where one: "fullSyncLocked env sy c (st, w) = (err1, (st1, w1))"
    by (metis prod.collapse)
  show ?case
  proof (cases "\<exists>e. err1 = Some e \<and> is_paging_error e \<and> 0 < n")
    case True
    then obtain e where e: "err1 = Some e" "is_paging_error e" "0 < n" by blast
    from one have "st1 = st"
    proof (cases rule: fullSyncLocked_cases)
      case (stored first configs snapshot cache_err)
      with e show ?thesis by (auto simp: is_paging_error_def)
    qed simp
    then show ?thesis using Suc e one by simp
  next
    case False
    then show ?thesis using Suc.prems one by (auto split: option.splits if_splits)
  qed
qed simp

lemma NewSyncer_retries: "0 < nat (sint (syc_FullSyncMaxRetries (sy_config (NewSyncer client config))))"
  by (auto simp: NewSyncer_def word_sle_eq)

lemma fullSync_last:
  assumes "fullSync env (NewSyncer client config) c (st, w) = (err, (st', w'))"
  shows "\<exists>w0. fullSyncLocked env (NewSyncer client config) c (st, w0) = (err, (st', w'))"
  using full_sync_last [OF assms [unfolded fullSync_def] NewSyncer_retries] .

text \<open>The pages of one full synchronisation.\<close>

lemma fetch_snapshot_pages:
  assumes "fetch_snapshot transport c sz w = (Inr (first, configs), w')"
  shows "\<exists>rs. serves transport c sz 0 (first # rs) w w' \<and> int (length (first # rs)) = total_pages first \<and>
    list_all (same_snapshot (sp_SnapshotVersion first) (sp_Checksum first)) rs \<and>
    configs = concat (map page_configs (first # rs))"
proof -
  obtain w1 where first: "Client_Snapshot transport c 0 sz w = (Inr first, w1)"
      "fetch_pages transport c sz (sp_SnapshotVersion first) (sp_Checksum first) (total_pages first) 1
        (page_configs first) w1 = (Inr configs, w')"
    using assms by (auto simp: fetch_snapshot_def page_configs_def split: sum.splits prod.splits)
  have "1 \<le> total_pages first" by (auto simp: total_pages_def Let_def word_sle_eq)
  moreover obtain rs where "serves transport c sz 1 rs w1 w'" "length rs = nat (total_pages first - 1)"
      "list_all (same_snapshot (sp_SnapshotVersion first) (sp_Checksum first)) rs"
      "configs = page_configs first @ concat (map page_configs rs)"
    using fetch_pages_Inr [OF first(2)] by blast
  ultimately show ?thesis using first(1) by (intro exI [of _ rs]) auto
qed

text \<open>C5: a full synchronisation that succeeds has stored a snapshot of one published version:
  every page that went into it carried that version and checksum, no page is missing, and
  the rules served are those that building the snapshot from their contents gives.\<close>

theorem full_sync_is_consistent:
  assumes "fullSync env (NewSyncer client config) c (st, w) = (None, (st', w'))"
  shows "\<exists>w0 pages snapshot.
    serves (env_transport env) c (syc_SnapshotPageSize (sy_config (NewSyncer client config))) 0 pages w0 w' \<and>
    int (length pages) = total_pages (hd pages) \<and>
    list_all (same_snapshot (snap_Version snapshot) (snap_Checksum snapshot)) pages \<and>
    BuildSnapshot (snap_Version snapshot) (snap_Checksum snapshot) (sp_GeneratedAt (hd pages))
      (concat (map page_configs pages)) = Inr snapshot \<and>
    store_current st' = Some snapshot"
proof -
  let ?sy = "NewSyncer client config"
  obtain w0 where "fullSyncLocked env ?sy c (st, w0) = (None, (st', w'))"
    using fullSync_last [OF assms] by blast
  then show ?thesis
  proof (cases rule: fullSyncLocked_cases)
    case (stored first configs snapshot cache_err)
    obtain rs where rs: "serves (env_transport env) c (syc_SnapshotPageSize (sy_config ?sy)) 0 (first # rs) w0 w'"
        "int (length (first # rs)) = total_pages first"
        "list_all (same_snapshot (sp_SnapshotVersion first) (sp_Checksum first)) rs"
        "configs = concat (map page_configs (first # rs))"
      using fetch_snapshot_pages [OF stored(1)] by blast
    have "snap_Version snapshot = sp_SnapshotVersion first" "snap_Checksum snapshot = sp_Checksum first"
      using BuildSnapshot_frame [OF stored(2)] by simp_all
    then show ?thesis
      using rs stored(2) ReplaceWithContext_current(1) [OF stored(3)]
      by (intro exI [of _ w0] exI [of _ "first # rs"] exI [of _ snapshot]) (simp add: same_snapshot_def)
  qed simp
qed

lemma full_sync_is_consistent_witness:
  "\<exists>w0 pages snapshot. serves replay sample_client 100 0 pages w0 [] \<and>
    int (length pages) = total_pages (hd pages) \<and>
    list_all (same_snapshot (snap_Version snapshot) (snap_Checksum snapshot)) pages \<and>
    BuildSnapshot (snap_Version snapshot) (snap_Checksum snapshot) (sp_GeneratedAt (hd pages))
      (concat (map page_configs pages)) = Inr snapshot \<and>
    store_current (synced_store sample_current) = Some snapshot"
  using full_sync_is_consistent [of sample_env "Some sample_client" sample_config sample_client
      "synced_store (EmptySnapshot 0)" "[page_body]" "synced_store sample_current" "[]"]
  by (simp add: sample_full_sync sample_locked sample_syncer_config) (simp add: sample_env_def)

lemma full_sync_attempts_run:
  assumes "full_sync_attempts env sy c n lastErr (st, w) = (err, (st', w'))" and "0 < n"
  shows "\<exists>ws. ws \<noteq> [] \<and> length ws \<le> n \<and> hd ws = w \<and>
    successively (\<lambda>w1 w2. \<exists>e. is_paging_error e \<and> fullSyncLocked env sy c (st, w1) = (Some e, (st, w2))) ws \<and>
    fullSyncLocked env sy c (st, last ws) = (err, (st', w')) \<and>
    ((\<exists>e. err = Some e \<and> is_paging_error e) \<longrightarrow> length ws = n)"
  using assms
proof (induction n arbitrary: lastErr w)
  case (Suc n)
  obtain err1 st1 w1 where one: "fullSyncLocked env sy c (st, w) = (err1, (st1, w1))"
    by (metis prod.collapse)
  show ?case
  proof (cases "\<exists>e. err1 = Some e \<and> is_paging_error e \<and> 0 < n")
    case True
    then obtain e where e: "err1 = Some e" "is_paging_error e" "0 < n" by blast
    from one have "st1 = st"
    proof (cases rule: fullSyncLocked_cases)
      case (stored first configs snapshot cache_err)
      with e show ?thesis by (auto simp: is_paging_error_def)
    qed simp
    with e one have again: "full_sync_attempts env sy c n (Some e) (st, w1) = (err, (st', w'))"
      using Suc.prems by simp
    obtain ws where ws: "ws \<noteq> []" "length ws \<le> n" "hd ws = w1" 
      "successively (\<lambda>w1 w2. \<exists>e. is_paging_error e \<and> fullSyncLocked env sy c (st, w1) = (Some e, (st, w2))) ws"
      "fullSyncLocked env sy c (st, last ws) = (err, (st', w'))"
      "(\<exists>e. err = Some e \<and> is_paging_error e) \<longrightarrow> length ws = n"
      using Suc.IH [OF again e(3)] by blast
    then obtain vs where "ws = w1 # vs" by (cases ws) auto
    with ws one e \<open>st1 = st\<close> show ?thesis by (intro exI [of _ "w # ws"]) auto
  next
    case False
    then have "(err1, (st1, w1)) = (err, (st', w'))"
      using Suc.prems one by (auto split: option.splits if_splits)
    with one False show ?thesis by (intro exI [of _ "[w]"]) auto
  qed
qed simp

text \<open>C23: a full synchronisation makes at least one and at most the configured number of attempts
  (three when none is configured); each but the last met a snapshot that changed while it was paging,
  and left the store alone; the outcome is that of the last attempt, and it is such a change only if all
  attempts were made.\<close>

theorem full_sync_gives_up_after_retries:
  assumes "fullSync env (NewSyncer client config) c (st, w) = (err, (st', w'))"
    and "n = (if syc_FullSyncMaxRetries config \<le>s 0 then 3 else nat (sint (syc_FullSyncMaxRetries config)))"
  shows "\<exists>ws. ws \<noteq> [] \<and> length ws \<le> n \<and> hd ws = w \<and>
    successively (\<lambda>w1 w2. \<exists>e. is_paging_error e \<and>
      fullSyncLocked env (NewSyncer client config) c (st, w1) = (Some e, (st, w2))) ws \<and>
    fullSyncLocked env (NewSyncer client config) c (st, last ws) = (err, (st', w')) \<and>
    ((\<exists>e. err = Some e \<and> is_paging_error e) \<longrightarrow> length ws = n)"
proof -
  have n: "nat (sint (syc_FullSyncMaxRetries (sy_config (NewSyncer client config)))) = n"
    by (simp add: assms(2) NewSyncer_def)
  then have "0 < n" using NewSyncer_retries [of client config] by simp
  from full_sync_attempts_run [OF assms(1) [unfolded fullSync_def n] this] show ?thesis .
qed

lemma full_sync_gives_up_after_retries_witness:
  "\<exists>ws. ws = [[first_body, torn_body]] \<and> length ws = 1 \<and>
    fullSyncLocked sample_env sample_syncer sample_client (synced_store sample_current, last ws) =
      (Some (SnapshotChangedWhilePaging 0 ''one'' 0 ''two''), (synced_store sample_current, []))"
proof -
  have run: "fullSync sample_env sample_syncer sample_client (synced_store sample_current, [first_body, torn_body]) =
      (Some (SnapshotChangedWhilePaging 0 ''one'' 0 ''two''), (synced_store sample_current, []))"
    by (simp add: sample_full_sync sample_locked)
  obtain ws where "ws \<noteq> []" "length ws \<le> 1" "hd ws = [first_body, torn_body]"
    "fullSyncLocked sample_env sample_syncer sample_client (synced_store sample_current, last ws) =
      (Some (SnapshotChangedWhilePaging 0 ''one'' 0 ''two''), (synced_store sample_current, []))"
    using full_sync_gives_up_after_retries [OF run, of 1] by (auto simp: sample_config_def word_sle_eq)
  then show ?thesis by (cases ws) auto
qed

subsection \<open>Failures\<close>

text \<open>Whether an error comes from the cache, to which a new snapshot could not be written.\<close>

fun cache_failure :: "'e sync_error \<Rightarrow> bool" where
  "cache_failure (CacheError _) = True"
| "cache_failure (NotContinuous e) = cache_failure e"
| "cache_failure (Joined e e') = (cache_failure e \<or> cache_failure e')"
| "cache_failure _ = False"

lemma fullSyncLocked_failed:
  assumes "fullSyncLocked env sy c (st, w) = (Some e, (st', w'))" and "\<not> cache_failure e"
  shows "st' = st"
  using assms(1) by (cases rule: fullSyncLocked_cases) (use assms(2) in auto)

lemma fullSync_failed:
  assumes "fullSync env (NewSyncer client config) c (st, w) = (Some e, (st', w'))" and "\<not> cache_failure e"
  shows "st' = st"
  using fullSync_last [OF assms(1)] by (elim exE) (rule fullSyncLocked_failed [OF _ assms(2)])

lemma validate_delta_error: "validate_delta cur delta = Some e \<Longrightarrow> \<not> cache_failure e"
  by (auto simp: validate_delta_def split: if_splits)

text \<open>A run of \<open>fetchAndApplyDelta\<close>.\<close>

lemma fetchAndApplyDelta_cases:
  fixes err :: "'e sync_error option"
  assumes "fetchAndApplyDelta env sy c now (st, w) = (err, (st', w'))"
  obtains (failed) e where "err = Some e" "st' = st" "\<not> cache_failure e"
    | (resynced) delta w1 err1 where
      "Client_Changes (env_transport env) c (snap_Version (Store_Snapshot now st))
        (snap_Checksum (Store_Snapshot now st)) w = (Inr delta, w1)"
      "\<not> continues (Store_Snapshot now st) delta"
      "fullSyncLocked env sy c (st, w1) = (err1, (st', w'))" "map_option NotContinuous err1 = err"
    | (applied) delta snapshot cache_err where
      "Client_Changes (env_transport env) c (snap_Version (Store_Snapshot now st))
        (snap_Checksum (Store_Snapshot now st)) w = (Inr delta, w')"
      "continues (Store_Snapshot now st) delta"
      "ApplyChanges (Store_Snapshot now st) (delta_ToSnapshotVersion delta) (delta_ToChecksum delta)
        (delta_GeneratedAt delta) (map Change_Published (delta_Changes delta)) = Inr snapshot"
      "ReplaceWithContext (env_marshal env) (env_set_cache env) snapshot st = (st', cache_err)"
      "map_option CacheError cache_err = err"
proof -
  let ?cur = "Store_Snapshot now st"
  obtain r w1 where r: "Client_Changes (env_transport env) c (snap_Version ?cur) (snap_Checksum ?cur) w = (r, w1)"
    by fastforce
  show thesis
  proof (cases r)
    case (Inl e)
    then show thesis using assms r failed by (auto simp: fetchAndApplyDelta_def Let_def)
  next
    case (Inr delta)
    note run = assms [unfolded fetchAndApplyDelta_def Let_def prod.case r Inr sum.case]
    show thesis
    proof (cases "validate_delta ?cur delta :: 'e sync_error option")
      case (Some e)
      then have "err = Some e" "st' = st" using run by simp_all
      with failed validate_delta_error [OF Some] show thesis by blast
    next
      case None
      show thesis
      proof (cases "continues ?cur delta")
        case True
        with None run r Inr failed applied show thesis by (auto split: sum.splits prod.splits)
      next
        case False
        with None run r Inr resynced show thesis by (auto split: prod.splits)
      qed
    qed
  qed
qed

lemma fetchAndApplyDelta_failed:
  assumes "fetchAndApplyDelta env sy c now (st, w) = (Some e, (st', w'))" and "\<not> cache_failure e"
  shows "st' = st"
  using assms(1)
proof (cases rule: fetchAndApplyDelta_cases)
  case (resynced delta w1 err1)
  then show ?thesis using assms(2) fullSyncLocked_failed by fastforce
qed (use assms(2) in auto)

text \<open>C19: the last good snapshot survives every failure but one: an event whose handling fails
  leaves the store as it was, unless it was the write to the cache that failed.\<close>

theorem failed_event_keeps_snapshot:
  assumes "handleWatchEvent env (NewSyncer client config) c now event (st, w) = (Some e, (st', w'))"
    and "\<not> cache_failure e"
  shows "st' = st"
  using assms fetchAndApplyDelta_failed fullSync_failed
  by (fastforce simp: handleWatchEvent_def split: if_splits)

lemma failed_event_keeps_snapshot_witness:
  "fst (snd (handleWatchEvent sample_env sample_syncer sample_client 0
      (zero_WatchEvent\<lparr>we_EventType := ''FULL_SYNC_REQUIRED''\<rparr>) (synced_store sample_current, []))) =
    synced_store sample_current"
proof -
  have run: "handleWatchEvent sample_env sample_syncer sample_client 0
      (zero_WatchEvent\<lparr>we_EventType := ''FULL_SYNC_REQUIRED''\<rparr>) (synced_store sample_current, []) =
      (Some (ClientError (TransportError ''down'')), (synced_store sample_current, []))"
    by (simp add: handleWatchEvent_def sample_full_sync sample_locked)
  from failed_event_keeps_snapshot [OF run] show ?thesis by (simp add: run)
qed

subsection \<open>Deltas\<close>

text \<open>C10: a delta that continues the current snapshot, once handled without error, leaves the
  store with a later snapshot of the announced version and checksum, which represents the
  published configurations as the delta's changes transform them.\<close>

theorem applied_delta_follows_changes:
  assumes "fetchAndApplyDelta env sy c now (st, w) = (None, (st', w'))"
    and "store_current st = Some cur" and "snapshot_wf cur" and "represents E cur"
    and "Client_Changes (env_transport env) c (snap_Version cur) (snap_Checksum cur) w = (Inr delta, w1)"
    and "continues cur delta"
  shows "\<exists>snapshot. store_current st' = Some snapshot \<and> snapshot_wf snapshot \<and>
    represents (fold change_published (map Change_Published (delta_Changes delta)) E) snapshot \<and>
    snap_Version snapshot = delta_ToSnapshotVersion delta \<and> snap_Version cur <s snap_Version snapshot \<and>
    snap_Checksum snapshot = delta_ToChecksum delta"
  using assms(1)
proof (cases rule: fetchAndApplyDelta_cases)
  case (resynced delta' w2 err1)
  then show ?thesis using assms(2,5,6) by (simp add: Store_Snapshot_def)
next
  case (applied delta' snapshot cache_err)
  have cur: "Store_Snapshot now st = cur" using assms(2) by (simp add: Store_Snapshot_def)
  have d: "delta' = delta" using applied(1) assms(5) by (simp add: cur)
  note changes = applied(3) [unfolded cur d]
  show ?thesis
    using ReplaceWithContext_current(1) [OF applied(4)] ApplyChanges_represents [OF changes assms(3,4)]
      ApplyChanges_wf_aux [OF changes assms(3)] ApplyChanges_Inr(1) [OF changes]
      ApplyChanges_frame [OF changes]
    by (simp add: word_sle_eq word_sless_alt not_le)
qed simp

lemma applied_delta_follows_changes_witness:
  "\<exists>st' snapshot. fetchAndApplyDelta sample_env sample_syncer sample_client 0
      (synced_store sample_current, [delta_body]) = (None, (st', [])) \<and>
    store_current st' = Some snapshot \<and> represents no_published snapshot \<and> snap_Version snapshot = 2"
proof -
  let ?st = "synced_store sample_current"
  let ?delta = "zero_Delta\<lparr>delta_ToSnapshotVersion := 2, delta_FromChecksum := ''one'', delta_ToChecksum := ''two''\<rparr>"
  note run = sample_delta_run [of 0]
  have cur: "store_current ?st = Some sample_current" by (simp add: synced_store_def)
  have wf: "snapshot_wf sample_current" "represents no_published sample_current"
    by (simp_all add: sample_current_def snapshot_wf_empty represents_empty)
  have changes: "Client_Changes (env_transport sample_env) sample_client (snap_Version sample_current)
      (snap_Checksum sample_current) [delta_body] = (Inr ?delta, [])"
    by (simp add: sample_env_def sample_replies)
  have continues: "continues sample_current ?delta"
    by (simp add: continues_def sample_current_def zero_Delta_def)
  obtain snapshot where "store_current (synced_store sample_next) = Some snapshot"
      "represents no_published snapshot" "snap_Version snapshot = 2"
    using applied_delta_follows_changes [OF run cur wf changes continues] by (auto simp: zero_Delta_def)
  with run show ?thesis by blast
qed

subsection \<open>Start\<close>



subsection \<open>Every state of a watch\<close>

inductive watch_reachable ::
    "('c, 'w, 'e) env \<Rightarrow> Syncer \<Rightarrow> Client \<Rightarrow> ('c, 'w) Watch \<Rightarrow> ('c, 'w) Watch \<Rightarrow> bool"
  for env :: "('c, 'w, 'e) env" and sy :: Syncer and c :: Client and x :: "('c, 'w) Watch" where
  start: "watch_reachable env sy c x x"
| step: "watch_reachable env sy c x y \<Longrightarrow> watch_step env sy c y z \<Longrightarrow> watch_reachable env sy c x z"

lemma Store_Snapshot_wf: "store_wf st \<Longrightarrow> snapshot_wf (Store_Snapshot now st)"
  by (auto simp: store_wf_def Store_Snapshot_def EmptySnapshot_def snapshot_wf_empty split: option.splits)

text \<open>
  The syncer writes the store in one way, by replacing its snapshot with one the builder
  made. A property of well-formed stores that such a replacement keeps is kept by it all.
\<close>

locale store_invariant =
  fixes env :: "('c, 'w, 'e) env" and inv :: "'c Store \<Rightarrow> bool"
  assumes wf: "inv st \<Longrightarrow> store_wf st"
    and replaced: "inv st \<Longrightarrow> snapshot_wf snapshot \<Longrightarrow>
      ReplaceWithContext (env_marshal env) (env_set_cache env) snapshot st = (st', err) \<Longrightarrow> inv st'"
begin

lemma fullSyncLocked_inv:
  assumes "fullSyncLocked env sy c (st, w) = (err, (st', w'))" and "inv st"
  shows "inv st'"
  using assms(1)
proof (cases rule: fullSyncLocked_cases)
  case (stored first configs snapshot cache_err)
  show ?thesis by (rule replaced [OF assms(2) BuildSnapshot_wf_aux [OF stored(2)] stored(3)])
qed (simp add: assms(2))

lemma full_sync_attempts_inv:
  assumes "full_sync_attempts env sy c n lastErr (st, w) = (err, (st', w'))" and "inv st"
  shows "inv st'"
  using assms
proof (induction n arbitrary: lastErr st w)
  case (Suc n)
  obtain err1 st1 w1 where one: "fullSyncLocked env sy c (st, w) = (err1, (st1, w1))"
    by (metis prod.collapse)
  with fullSyncLocked_inv [OF one Suc.prems(2)] Suc show ?case
    by (auto split: option.splits if_splits)
qed simp

lemma fetchAndApplyDelta_inv:
  assumes "fetchAndApplyDelta env sy c now (st, w) = (err, (st', w'))" and "inv st"
  shows "inv st'"
  using assms(1)
proof (cases rule: fetchAndApplyDelta_cases)
  case (resynced delta w1 err1)
  show ?thesis by (rule fullSyncLocked_inv [OF resynced(3) assms(2)])
next
  case (applied delta snapshot cache_err)
  show ?thesis
    by (rule replaced [OF assms(2) ApplyChanges_wf_aux [OF applied(3) Store_Snapshot_wf [OF wf [OF assms(2)]]]
        applied(4)])
qed (simp add: assms(2))

lemma Bootstrap_inv:
  assumes "Bootstrap env sy now (st, w) = (err, (st', w'))" and "inv st"
  shows "inv st'"
proof -
  have start: "inv st2" if empty: "start_empty env now (st1, w1) = (e, (st2, w2))" and "inv st1" for e st1 w1 st2 w2
    using that replaced [of st1 "EmptySnapshot now"]
    by (auto simp: start_empty_def EmptySnapshot_def snapshot_wf_empty split: if_splits prod.splits)
  show ?thesis
    using assms start full_sync_attempts_inv
    by (fastforce simp: Bootstrap_def fullSync_def split: option.splits if_splits prod.splits)
qed

lemma handleWatchEvent_inv:
  assumes "handleWatchEvent env sy c now event (st, w) = (err, (st', w'))" and "inv st"
  shows "inv st'"
  using assms fetchAndApplyDelta_inv full_sync_attempts_inv
  by (fastforce simp: handleWatchEvent_def fullSync_def split: if_splits)

lemma watch_step_inv:
  assumes "watch_step env sy c x y" and "inv (fst (wt_synced x))"
  shows "inv (fst (wt_synced y))"
  using assms(1)
proof cases
  case (process event events now err sw)
  obtain st w st' w' where "wt_synced x = (st, w)" "sw = (st', w')" by fastforce
  then show ?thesis using process assms(2) handleWatchEvent_inv by fastforce
next
  case (resync err sw)
  obtain st w st' w' where "wt_synced x = (st, w)" "sw = (st', w')" by fastforce
  then show ?thesis using resync assms(2) full_sync_attempts_inv by (fastforce simp: fullSync_def)
qed (use assms(2) in auto)

end

interpretation wf_store: store_invariant env store_wf for env
  by unfold_locales (auto intro: ReplaceWithContext_wf)

definition watch_ok :: "Syncer \<Rightarrow> ('c, 'w) Watch \<Rightarrow> bool" where
  "watch_ok sy x \<longleftrightarrow> store_wf (fst (wt_synced x)) \<and>
     int (length (wt_events x)) \<le> sint (syc_WatchEventBuffer (sy_config sy))"

lemma watch_step_ok:
  assumes "watch_step env sy c x y" and "watch_ok sy x"
  shows "watch_ok sy y"
proof -
  have "store_wf (fst (wt_synced y))"
    using assms by (auto simp: watch_ok_def intro: wf_store.watch_step_inv)
  with assms show ?thesis by (auto simp: watch_ok_def elim!: watch_stepE)
qed

text \<open>C12: whatever the runtime API answers and however its events, the periodic full
  synchronisations and the reconnections interleave, the store stays well formed, so every
  rule it serves has the id it is served under, a positive quota and a positive window; and
  the backlog of events stays within its buffer.\<close>

theorem watch_keeps_store_well_formed:
  assumes "watch_reachable env sy c x y" and "store_wf (fst (wt_synced x))" and "wt_events x = []"
    and "0 <s syc_WatchEventBuffer (sy_config sy)"
  shows "store_wf (fst (wt_synced y)) \<and>
    (\<forall>code k r. FindRule (fst (wt_synced y)) code k = (r, True) \<longrightarrow>
       rule_RuleID r = k \<and> 0 <s rule_Quota r \<and> 0 <s rule_WindowSeconds r) \<and>
    int (length (wt_events y)) \<le> sint (syc_WatchEventBuffer (sy_config sy))"
proof -
  have "watch_ok sy y"
    using assms(1)
  proof induction
    case start
    then show ?case using assms(2-4) by (simp add: watch_ok_def word_sless_alt)
  qed (rule watch_step_ok)
  then show ?thesis using store.find_id by (fastforce simp: watch_ok_def)
qed

lemma watch_keeps_store_well_formed_witness:
  "store_wf (synced_store sample_current)"
proof -
  let ?x = "\<lparr>wt_synced = (synced_store (EmptySnapshot 0), [page_body]), wt_events = [], wt_stream = Some (0, [])\<rparr>"
  let ?y = "?x\<lparr>wt_synced := (synced_store sample_current, []), wt_stream := None\<rparr>"
  have "fullSync sample_env sample_syncer sample_client (wt_synced ?x) = (None, (synced_store sample_current, []))"
    by (simp add: sample_full_sync sample_locked)
  then have "watch_step sample_env sample_syncer sample_client ?x ?y"
    using watch_step.resync [of ?x] by simp
  then have "watch_reachable sample_env sample_syncer sample_client ?x ?y"
    by (blast intro: watch_reachable.intros)
  moreover have "store_wf (fst (wt_synced ?x))"
    by (simp add: store_wf_def synced_store_def snapshot_wf_empty EmptySnapshot_def)
  moreover have "0 <s syc_WatchEventBuffer (sy_config sample_syncer)"
    by (simp add: NewSyncer_def sample_config_def word_sle_eq word_sless_alt)
  ultimately show ?thesis using watch_keeps_store_well_formed [of sample_env sample_syncer sample_client ?x ?y] by simp
qed

end
