(* ===== verification/StarterProperties.thy ===== *)
theory StarterProperties
  imports Starter SyncerProperties
begin

text \<open>
  The properties of the service as a whole: when it starts, what it then shows other
  instances, and how the provider follows the rule store while both change.
\<close>

subsection \<open>Starting\<close>

text \<open>The service initialises exactly when the framework has a cache and a gRPC server and
  nothing it asks of the framework fails; then it has a store, a syncer, a provider and one
  server registered as both services.\<close>

theorem Init_succeeds_iff:
  assumes "Init app now s = (err, s', services)" and "cfg = str_cfg s"
  shows "err = None \<longleftrightarrow>
    (\<exists>cache st conn metrics.
       app_Cache app = Some cache \<and>
       AttachCache (cs_marshal (app_cache_service app)) (cs_unmarshal (app_cache_service app))
         (cs_get (app_cache_service app)) (cs_set (app_cache_service app)) now (Some cache)
         (NewEmptyStore now) = (st, None) \<and>
       open_client app cfg = Inr conn \<and> app_has_RPC app \<and> topology_metrics app cfg = Inr metrics \<and>
       app_Register app discovery_service = None \<and> app_Register app runtime_service = None \<and>
       str_store s' = Some st \<and>
       str_provider s' = Some (NewProvider (app_has_ServiceRegistry app) cfg) \<and>
       str_syncer s' = Some (NewSyncer (Some (NewClient (so_RuntimeEndpoint (sc_StellOrbit cfg))
           (Some (so_AuthToken (sc_StellOrbit cfg))))) (syncer_config (sc_Rules cfg))) \<and>
       services =
         [(discovery_service,
           NewServer (NewEngine (engine_config (sc_Rules cfg))) (server_config cfg metrics)),
          (runtime_service,
           NewServer (NewEngine (engine_config (sc_Rules cfg))) (server_config cfg metrics))])"
  using assms
  by (auto simp: Init_def Let_def register_services_def split: option.splits prod.splits sum.splits if_splits)

text \<open>What a provider shows of its own instance.\<close>

definition shown_revision :: "Provider \<Rightarrow> string" where
  "shown_revision p = inst_RuleRevision (self_instance p)"

lemma shown_revision_update [simp]: "shown_revision (Provider_Update snapshot p) = FormatInt (snap_Version snapshot)"
  by (auto simp: shown_revision_def Provider_Update_def StellarProvider_Update_def LocalProvider_Update_def
      self_instance_def Let_def split: Provider.split)

lemma listed_revision:
  assumes "Provider_List discover p = Inr instances" and "i \<in> set instances"
    and "inst_InstanceID i = inst_InstanceID (self_instance p)"
  shows "inst_RuleRevision i = shown_revision p"
proof (cases p)
  case (Local l)
  then show ?thesis using assms
    by (auto simp: Provider_List_def LocalProvider_List_def shown_revision_def self_instance_def)
next
  case (Stellar sp)
  then obtain item where "i = with_local (sp_local sp) (fromStellar item)"
    using assms by (auto simp: Provider_List_def StellarProvider_List_def sortInstances_def Let_def split: sum.splits)
  then show ?thesis using assms(3) Stellar
    by (simp add: with_local_id shown_revision_def self_instance_def) (simp add: with_local_def)
qed


subsection \<open>Following the rule store\<close>

text \<open>
  The subscription's channel holds the snapshot the store serves, or is empty and the
  provider shows that snapshot's version.
\<close>

definition tracks :: "int64 \<Rightarrow> Provider \<Rightarrow> 'c Store \<Rightarrow> bool" where
  "tracks k p st \<longleftrightarrow> store_wf st \<and>
     (\<exists>ch. fmlookup (store_subscribers st) k = Some ch \<and> chan_capacity ch = 1 \<and>
        (chan_buffer ch = [] \<and> shown_revision p = FormatInt (snap_Version (Store_Snapshot 0 st)) \<or>
         chan_buffer ch = [Store_Snapshot 0 st] \<and> store_current st \<noteq> None))"

lemma tracks_replaced:
  assumes "tracks k p st" and "snapshot_wf snapshot" and "ReplaceWithContext m set_cache snapshot st = (st', err)"
  shows "tracks k p st'"
proof -
  obtain ch where ch: "fmlookup (store_subscribers st) k = Some ch" "chan_capacity ch = 1"
    "length (chan_buffer ch) \<le> 1"
    using assms(1) by (auto simp: tracks_def)
  have "chan_buffer (send_latest snapshot ch) = [snapshot]" "chan_capacity (send_latest snapshot ch) = 1"
    using ch(2,3) by (cases "chan_buffer ch"; simp add: send_latest_def try_send_def)+
  then show ?thesis
    using assms ch(1) ReplaceWithContext_wf [OF assms(3)]
    by (auto simp: tracks_def ReplaceWithContext_current [OF assms(3)] Store_Snapshot_def)
qed

lemma tracks_wf: "tracks k p st \<Longrightarrow> store_wf st"
  by (simp add: tracks_def)

interpretation tracked: store_invariant env "tracks k p" for env k p
  using tracks_replaced by unfold_locales (auto simp: tracks_wf)

lemma store_with_store [simp]:
  "sv_store (with_store st x) = st" "sv_provider (with_store st x) = sv_provider x"
  "sv_updates (with_store st x) = sv_updates x" "sv_sessions (with_store st x) = sv_sessions x"
  by (simp_all add: with_store_def)

lemma tracks_frame:
  assumes "tracks k p st" and "store_wf st'" and "store_current st' = store_current st"
    and "fmlookup (store_subscribers st') k = fmlookup (store_subscribers st) k"
  shows "tracks k p st'"
  using assms by (simp add: tracks_def Store_Snapshot_def)

lemma Snapshot_version_now: "snap_Version (Store_Snapshot now st) = snap_Version (Store_Snapshot 0 st)"
  by (simp add: Store_Snapshot_def EmptySnapshot_def split: option.split)

lemma Start_launches:
  assumes "Start env now w s = Some (None, s', w')" and "str_store s = Some st0" and "store_wf st0"
    and "str_store s' = Some st" and "str_provider s' = Some p"
  shows "store_wf st" "shown_revision p = FormatInt (snap_Version (Store_Snapshot now st))"
proof -
  obtain sy where "Bootstrap env sy now (st0, w) = (None, (st, w'))"
    using assms(1,2,4) by (auto simp: Start_def split: option.splits prod.splits)
  then show "store_wf st" using assms(3) by (rule wf_store.Bootstrap_inv)
  show "shown_revision p = FormatInt (snap_Version (Store_Snapshot now st))"
    using assms(1,2,4,5) by (auto simp: Start_def Provider_Start_def split: option.splits prod.splits)
qed

subsubsection \<open>The ids of the subscriptions\<close>

text \<open>
  No id is beyond the counter, the counter is at most the number of steps taken, and the
  provider's subscription is none of a session's.
\<close>

definition numbered :: "nat \<Rightarrow> ('c, 'w) Service \<Rightarrow> bool" where
  "numbered n x \<longleftrightarrow>
     0 \<le> sint (store_nextSubscriber (sv_store x)) \<and> sint (store_nextSubscriber (sv_store x)) \<le> int n \<and>
     (\<forall>k. k |\<in>| fmdom (store_subscribers (sv_store x)) \<longrightarrow> sint k \<le> sint (store_nextSubscriber (sv_store x))) \<and>
     (\<forall>k \<in> set (sv_sessions x). sint k \<le> sint (store_nextSubscriber (sv_store x))) \<and>
     (\<forall>k. sv_updates x = Some k \<longrightarrow> sint k \<le> sint (store_nextSubscriber (sv_store x)) \<and> k \<notin> set (sv_sessions x))"

definition known_ids :: "int64 \<Rightarrow> int64 fset \<Rightarrow> 'c Store \<Rightarrow> bool" where
  "known_ids v D st \<longleftrightarrow> store_wf st \<and> store_nextSubscriber st = v \<and> fmdom (store_subscribers st) = D"

lemma ReplaceWithContext_next:
  assumes "ReplaceWithContext m set_cache snapshot st = (st', err)"
  shows "store_nextSubscriber st' = store_nextSubscriber st"
  using assms by (auto simp: ReplaceWithContext_def Let_def notify_def frame_simps split: prod.splits)

interpretation ids: store_invariant env "known_ids v D" for env v D
  by unfold_locales
    (auto simp: known_ids_def ReplaceWithContext_wf ReplaceWithContext_current(2) ReplaceWithContext_next)

lemma Subscribe_numbered:
  assumes "numbered n x" and "int n + 1 < 2 ^ 63" and "Subscribe buffer (sv_store x) = (k, st)"
  shows "sint k = sint (store_nextSubscriber (sv_store x)) + 1" "store_nextSubscriber st = k"
    "k |\<notin>| fmdom (store_subscribers (sv_store x))" "k \<notin> set (sv_sessions x)" "sv_updates x \<noteq> Some k"
    "fmdom (store_subscribers st) = finsert k (fmdom (store_subscribers (sv_store x)))"
proof -
  let ?next = "store_nextSubscriber (sv_store x)"
  have k: "k = ?next + 1" "store_nextSubscriber st = k"
    "fmdom (store_subscribers st) = finsert k (fmdom (store_subscribers (sv_store x)))"
    using assms(3) by (auto simp: Subscribe_def Let_def)
  have "sint (?next + 1) = sint ?next + 1"
    using sint64_of_int [of "sint ?next + 1"] assms(1,2) by (simp add: numbered_def)
  then have s: "sint k = sint ?next + 1" using k by simp
  have old: "k \<noteq> j" if "sint j \<le> sint ?next" for j using s that by auto
  show "sint k = sint ?next + 1" "store_nextSubscriber st = k"
    "fmdom (store_subscribers st) = finsert k (fmdom (store_subscribers (sv_store x)))"
    using s k by simp_all
  show "k |\<notin>| fmdom (store_subscribers (sv_store x))" "k \<notin> set (sv_sessions x)" "sv_updates x \<noteq> Some k"
    using assms(1) old by (auto simp: numbered_def)
qed

lemma Subscribe_fits:
  assumes "numbered n x" and "int n + 1 < 2 ^ 63" and "Subscribe buffer (sv_store x) = (k, st)"
  shows "0 \<le> sint (store_nextSubscriber st)" "sint (store_nextSubscriber st) \<le> int (Suc n)"
    "\<forall>j. j |\<in>| fmdom (store_subscribers st) \<longrightarrow> sint j \<le> sint (store_nextSubscriber st)"
    "\<forall>j \<in> set (sv_sessions x). sint j \<le> sint (store_nextSubscriber st)"
    "\<forall>j. sv_updates x = Some j \<longrightarrow> sint j \<le> sint (store_nextSubscriber st) \<and> j \<notin> set (sv_sessions x)"
    "k \<notin> set (sv_sessions x)" "sv_updates x \<noteq> Some k" "store_nextSubscriber st = k"
proof -
  note k = Subscribe_numbered [OF assms]
  have x: "0 \<le> sint (store_nextSubscriber (sv_store x))" "sint (store_nextSubscriber (sv_store x)) \<le> int n"
    using assms(1) by (simp_all add: numbered_def)
  show "0 \<le> sint (store_nextSubscriber st)" "sint (store_nextSubscriber st) \<le> int (Suc n)"
    using x k(1,2) by simp_all
  show "\<forall>j. j |\<in>| fmdom (store_subscribers st) \<longrightarrow> sint j \<le> sint (store_nextSubscriber st)"
    "\<forall>j \<in> set (sv_sessions x). sint j \<le> sint (store_nextSubscriber st)"
    "\<forall>j. sv_updates x = Some j \<longrightarrow> sint j \<le> sint (store_nextSubscriber st) \<and> j \<notin> set (sv_sessions x)"
    using assms(1) k(1,2,6) by (auto simp: numbered_def intro: order_trans)
  show "k \<notin> set (sv_sessions x)" "sv_updates x \<noteq> Some k" "store_nextSubscriber st = k"
    by (rule k(4), rule k(5), rule k(2))
qed

lemma pop_channel_wf: "store_wf st \<Longrightarrow> store_wf (pop_channel k st)"
proof (cases "fmlookup (store_subscribers st) k")
  case (Some ch)
  assume wf: "store_wf st"
  with Some have "int (length (chan_buffer ch)) \<le> sint (chan_capacity ch)" by (auto simp: store_wf_def)
  then have "int (length (tl (chan_buffer ch))) \<le> sint (chan_capacity ch)" by simp
  with wf Some show ?thesis by (simp add: pop_channel_def store_wf_def del: length_tl)
qed (simp add: pop_channel_def)

lemma fmdom_pop_channel [simp]: "fmdom (store_subscribers (pop_channel k st)) = fmdom (store_subscribers st)"
  by (auto simp: pop_channel_def fmlookup_dom_iff split: option.split)

lemma pop_channel_next [simp]:
  "store_nextSubscriber (pop_channel k st) = store_nextSubscriber st" "store_current (pop_channel k st) = store_current st"
  by (simp_all add: pop_channel_def split: option.split)

lemma service_step_numbered:
  assumes "service_step env sy c x y" and "numbered n x" and "int n + 1 < 2 ^ 63" and "store_wf (sv_store x)"
  shows "numbered (Suc n) y"
  using assms(1)
proof cases
  case (watch w)
  have "known_ids (store_nextSubscriber (sv_store x)) (fmdom (store_subscribers (sv_store x))) (fst (wt_synced w))"
    using ids.watch_step_inv [OF watch(3)] assms(4) by (auto simp: known_ids_def)
  then show ?thesis using watch(1) assms(2) by (auto simp: numbered_def known_ids_def)
next
  case (subscribe k st)
  show ?thesis unfolding subscribe(1) numbered_def using Subscribe_fits [OF assms(2,3) subscribe(3)] by simp
next
  case (session_opens buffer k st)
  show ?thesis
    unfolding session_opens(1) numbered_def using Subscribe_fits [OF assms(2,3) session_opens(2)] by auto
next
  case (session_closes k)
  have "set (remove1 k (sv_sessions x)) \<subseteq> set (sv_sessions x)" by (rule set_remove1_subset)
  then show ?thesis using assms(2) session_closes(1) by (auto simp: numbered_def unsubscribe_def)
qed (use assms(2) in \<open>auto simp: numbered_def\<close>)

lemma service_step_wf:
  assumes "service_step env sy c x y" and "store_wf (sv_store x)"
  shows "store_wf (sv_store y)"
  using assms(1)
proof cases
  case (watch w)
  then show ?thesis using assms(2) wf_store.watch_step_inv by auto
next
  case (update k ch snapshot rest)
  then show ?thesis using assms(2) pop_channel_wf by simp
next
  case (subscribe k st)
  then show ?thesis using Subscribe_wf [OF assms(2), of 1] by simp
next
  case (session_opens buffer k st)
  then show ?thesis using Subscribe_wf [OF assms(2), of buffer] by simp
next
  case (session_closes k)
  then show ?thesis using unsubscribe_wf [OF assms(2)] by simp
qed

lemma service_run_numbered:
  assumes "service_run env sy c n x y" and "numbered m x" and "store_wf (sv_store x)" and "int (m + n) < 2 ^ 63"
  shows "numbered (m + n) y \<and> store_wf (sv_store y)"
  using assms
proof induction
  case (step n x y z)
  then have "numbered (m + n) y" "store_wf (sv_store y)" by simp_all
  with service_step_numbered [OF step(2) this(1)] service_step_wf [OF step(2)] step.prems(3) show ?case by simp
qed simp

lemma launched_numbered:
  assumes "fmdom (store_subscribers st) = {||}" and "store_nextSubscriber st = 0"
  shows "numbered 0 (launched st w p)"
  using assms by (simp add: numbered_def launched_def)

lemma Start_ids:
  assumes "Start env now w s = Some (None, s', w')" and "str_store s = Some st0" and "store_wf st0"
    and "str_store s' = Some st"
  shows "store_nextSubscriber st = store_nextSubscriber st0" "fmdom (store_subscribers st) = fmdom (store_subscribers st0)"
proof -
  obtain sy where "Bootstrap env sy now (st0, w) = (None, (st, w'))"
    using assms(1,2,4) by (auto simp: Start_def split: option.splits prod.splits)
  from ids.Bootstrap_inv [OF this] assms(3)
  show "store_nextSubscriber st = store_nextSubscriber st0" "fmdom (store_subscribers st) = fmdom (store_subscribers st0)"
    by (auto simp: known_ids_def)
qed

subsubsection \<open>Before and after the subscription\<close>

lemma unsubscribed_step:
  assumes "service_step env sy c x y" and "sv_updates y = None"
  shows "sv_updates x = None \<and> sv_provider y = sv_provider x"
  using assms by (cases rule: service_step.cases) auto

lemma unsubscribed_run:
  assumes "service_run env sy c n x y" and "sv_updates y = None"
  shows "sv_updates x = None \<and> sv_provider y = sv_provider x"
  using assms by induction (auto dest: unsubscribed_step)

lemma tracks_popped:
  assumes "tracks k p st" and "fmlookup (store_subscribers st) k = Some ch" and "chan_buffer ch = snapshot # rest"
  shows "tracks k (Provider_Update snapshot p) (pop_channel k st)"
  using assms by (auto simp: tracks_def pop_channel_def store_wf_def Store_Snapshot_def)

text \<open>A subscription begins with an empty channel and leaves those of the others alone.\<close>

lemma Subscribe_channel:
  assumes "numbered n x" and "int n + 1 < 2 ^ 63" and "Subscribe buffer (sv_store x) = (k, st)"
  shows "fmlookup (store_subscribers st) k =
      Some \<lparr>chan_buffer = [], chan_capacity = (if buffer \<le>s 0 then 1 else buffer)\<rparr>"
    "j \<noteq> k \<Longrightarrow> fmlookup (store_subscribers st) j = fmlookup (store_subscribers (sv_store x)) j"
    "store_current st = store_current (sv_store x)"
  using assms(3) by (auto simp: Subscribe_def Let_def)

lemma service_step_tracks:
  assumes "service_step env sy c x y" and "numbered n x" and "int n + 1 < 2 ^ 63"
    and "sv_updates x = Some k" and "tracks k (sv_provider x) (sv_store x)"
  shows "sv_updates y = Some k \<and> tracks k (sv_provider y) (sv_store y)"
  using assms(1)
proof cases
  case (watch w)
  then show ?thesis using assms(4,5) tracked.watch_step_inv by auto
next
  case (session_opens buffer j st)
  note j = Subscribe_numbered(5) [OF assms(2,3) session_opens(2)] Subscribe_channel [OF assms(2,3) session_opens(2)]
  have "store_wf st"
    using Subscribe_wf [OF tracks_wf [OF assms(5)], of buffer] session_opens(2) by simp
  with j have "tracks k (sv_provider x) st"
    using assms(4) by (intro tracks_frame [OF assms(5)]) auto
  then show ?thesis using session_opens(1) assms(4) by simp
next
  case (session_closes j)
  then have "j \<noteq> k" using assms(2,4) by (auto simp: numbered_def)
  then have "tracks k (sv_provider x) (unsubscribe j (sv_store x))"
    using assms(5) unsubscribe_wf
    by (intro tracks_frame [OF assms(5)]) (auto simp: tracks_def unsubscribe_def)
  then show ?thesis using session_closes(1) assms(4) by simp
qed (use assms(4,5) tracks_popped in auto)

lemma service_run_tracks:
  assumes "service_run env sy c n x y" and "numbered m x" and "store_wf (sv_store x)" and "int (m + n) < 2 ^ 63"
    and "sv_updates x = Some k" and "tracks k (sv_provider x) (sv_store x)"
  shows "sv_updates y = Some k \<and> tracks k (sv_provider y) (sv_store y)"
  using assms
proof induction
  case (step n x y z)
  then have bound: "int (m + n) + 1 < 2 ^ 63" by simp
  then have "numbered (m + n) y"
    using service_run_numbered [OF step(1) step.prems(1,2)] by simp
  with service_step_tracks [OF step(2) this bound] step bound show ?case by simp
qed simp

lemma subscribed_step:
  assumes "service_step env sy c x y" and "sv_updates x = None" and "sv_updates y = Some k"
    and "numbered n x" and "int n + 1 < 2 ^ 63"
  shows "sv_provider y = sv_provider x" "store_current (sv_store y) = store_current (sv_store x)"
    "fmlookup (store_subscribers (sv_store y)) k = Some \<lparr>chan_buffer = [], chan_capacity = 1\<rparr>"
proof -
  obtain st where sub: "Subscribe 1 (sv_store x) = (k, st)" "y = (with_store st x)\<lparr>sv_updates := Some k\<rparr>"
    using assms(1-3) by (cases rule: service_step.cases) auto
  note ch = Subscribe_channel [OF assms(4,5) sub(1)]
  show "sv_provider y = sv_provider x" using sub(2) by simp
  show "store_current (sv_store y) = store_current (sv_store x)"
    "fmlookup (store_subscribers (sv_store y)) k = Some \<lparr>chan_buffer = [], chan_capacity = 1\<rparr>"
    using ch sub(2) by (simp_all add: word_sle_eq)
qed

lemma tracks_catches_up:
  assumes "sv_updates y = Some k" and "tracks k (sv_provider y) (sv_store y)"
  shows "shown_revision (sv_provider y) = FormatInt (snap_Version (Store_Snapshot now (sv_store y))) \<or>
    (\<exists>z. service_step env sy c y z \<and> sv_updates z = Some k \<and>
       Store_Snapshot now (sv_store z) = Store_Snapshot now (sv_store y) \<and>
       shown_revision (sv_provider z) = FormatInt (snap_Version (Store_Snapshot now (sv_store y))))"
proof -
  obtain ch where ch: "fmlookup (store_subscribers (sv_store y)) k = Some ch"
    "chan_buffer ch = [] \<and> shown_revision (sv_provider y) = FormatInt (snap_Version (Store_Snapshot 0 (sv_store y)))
     \<or> chan_buffer ch = [Store_Snapshot 0 (sv_store y)]"
    using assms(2) by (auto simp: tracks_def)
  show ?thesis
  proof (cases "chan_buffer ch")
    case Nil
    then show ?thesis using ch(2) by (auto simp: Store_Snapshot_def EmptySnapshot_def split: option.splits)
  next
    case (Cons a as)
    then have buffer: "chan_buffer ch = [Store_Snapshot 0 (sv_store y)]" using ch(2) by simp
    let ?z = "(with_store (pop_channel k (sv_store y)) y)
      \<lparr>sv_provider := Provider_Update (Store_Snapshot 0 (sv_store y)) (sv_provider y)\<rparr>"
    have "service_step env sy c y ?z" by (rule service_step.update [OF assms(1) ch(1) buffer])
    moreover have "Store_Snapshot now (sv_store ?z) = Store_Snapshot now (sv_store y)"
      by (simp add: with_store_def pop_channel_def Store_Snapshot_def split: option.split)
    ultimately show ?thesis
      using assms(1) by (intro disjI2 exI [of _ ?z]) (simp add: with_store_def, auto simp: Store_Snapshot_def EmptySnapshot_def split: option.split)
  qed
qed

text \<open>C11: after a start, from a store as \<open>Init\<close> leaves it without subscribers, let the service take
  any steps that do not change the snapshot, then subscribe for the provider, then take any steps:
  of the watch, of sessions that open and close subscriptions, of the updates. This server's own
  instance shows the version of the rules the store serves, or one update that is waiting will make
  it do so: no replacement is lost. The ids of the subscriptions come from the store's counter, which
  does not overflow in fewer than 2 ^ 63 steps.\<close>

theorem provider_follows_store:
  assumes "Start env now w s = Some (None, s', w')" and "str_store s = Some st0" and "store_wf st0"
    and "store_subscribers st0 = fmempty" and "store_nextSubscriber st0 = 0"
    and "str_store s' = Some st" and "str_provider s' = Some p"
    and "service_run env sy c m (launched st w' p) x0" and "sv_updates x0 = None"
    and "store_current (sv_store x0) = store_current st"
    and "service_step env sy c x0 x" and "sv_updates x = Some k"
    and "service_run env sy c n x y" and "int m + int n + 1 < 2 ^ 63"
  shows "shown_revision (sv_provider y) = FormatInt (snap_Version (Store_Snapshot now (sv_store y))) \<or>
    (\<exists>z. service_step env sy c y z \<and>
       Store_Snapshot now (sv_store z) = Store_Snapshot now (sv_store y) \<and>
       shown_revision (sv_provider z) = FormatInt (snap_Version (Store_Snapshot now (sv_store y))))"
proof -
  note started = Start_launches [OF assms(1,2,3,6,7)]
  have fresh: "numbered 0 (launched st w' p)"
    using Start_ids [OF assms(1-3,6)] assms(4,5) by (intro launched_numbered) simp_all
  have x0: "numbered m x0" "store_wf (sv_store x0)"
    using service_run_numbered [OF assms(8) fresh] assms(14) started(1) by (simp_all add: launched_def)
  note sub = subscribed_step [OF assms(11,9,12) x0(1)]
  have bound: "int m + 1 < 2 ^ 63" using assms(14) by simp
  have x: "numbered (Suc m) x" "store_wf (sv_store x)"
    using service_step_numbered [OF assms(11) x0(1) bound x0(2)] service_step_wf [OF assms(11) x0(2)] by simp_all
  have "sv_provider x = p"
    using sub(1) [OF bound] unsubscribed_run [OF assms(8,9)] by (simp add: launched_def)
  moreover have "Store_Snapshot 0 (sv_store x) = Store_Snapshot 0 st"
    using sub(2) [OF bound] assms(10) by (simp add: Store_Snapshot_def)
  ultimately have "tracks k (sv_provider x) (sv_store x)"
    using sub(3) [OF bound] x(2) started(2) by (simp add: tracks_def Snapshot_version_now [of now st])
  with service_run_tracks [OF assms(13) x _ assms(12)] assms(14)
  have "sv_updates y = Some k" "tracks k (sv_provider y) (sv_store y)" by simp_all
  from tracks_catches_up [OF this, where now = now] show ?thesis by blast
qed

subsection \<open>A sample service\<close>

definition sample_environment :: "string \<Rightarrow> string" where
  "sample_environment key =
     (if key = ''STELLPULSAR_OBSERVABILITY_TOPOLOGY_METRICS'' then ''false'' else [])"

definition sample_conditioned :: "(unit, unit) Starter" where
  "sample_conditioned = snd (Condition sample_environment
     \<lparr>st_AppName = [], st_Zone = [], st_Version = [], st_Registry = None\<rparr> zero_fileConfig NewStarter)"

definition sample_app :: "(unit, unit, string) App" where
  "sample_app =
     \<lparr>app_Cache = Some (),
      app_cache_service =
        \<lparr>cs_marshal = (\<lambda>_. Inr []), cs_unmarshal = (\<lambda>_. Inl ''bad''), cs_get = (\<lambda>_ _. Inr None),
         cs_set = (\<lambda>u _ _. (u, None))\<rparr>,
      app_NewGRPCClient = (\<lambda>_. Inr ()), app_has_ServiceRegistry = False, app_has_RPC = True,
      app_Meter = None, app_Register = (\<lambda>_. None)\<rparr>"

lemma sample_Init: "fst (Init sample_app 0 sample_conditioned) = None"
proof -
  have "TrimSpace ''false'' = ''false''" by code_simp
  then have "sc_GRPC_ClientName (str_cfg sample_conditioned) = []"
    "\<not> sc_Observability_TopologyMetrics (str_cfg sample_conditioned)"
    by (simp_all add: sample_conditioned_def Condition_def Load_def envString_def envBool_def ParseBool_def
        sample_environment_def zero_fileConfig_def)
  then show ?thesis
    by (simp add: Init_def sample_app_def AttachCache_def cacheSnapshot_def Let_def open_client_def
        topology_metrics_def register_services_def NewEmptyStore_def NewStore_def Replace_def
        ReplaceWithContext_def notify_def sample_conditioned_def Condition_def NewStarter_def)
qed

lemma Init_succeeds_iff_witness:
  "app_Register sample_app runtime_service = None \<and>
   str_provider (fst (snd (Init sample_app 0 sample_conditioned))) =
     Some (NewProvider False (str_cfg sample_conditioned))"
proof -
  let ?r = "Init sample_app 0 sample_conditioned"
  have "?r = (fst ?r, (fst (snd ?r), snd (snd ?r)))" by simp
  from Init_succeeds_iff [OF this refl] sample_Init show ?thesis
    by (auto simp: sample_app_def)
qed

abbreviation sample_provider :: Provider where
  "sample_provider \<equiv> NewProvider False (str_cfg sample_conditioned)"

definition sample_starter :: "(unit, unit) Starter" where
  "sample_starter = sample_conditioned
     \<lparr>str_store := Some (synced_store sample_current), str_syncer := Some sample_syncer,
      str_provider := Some sample_provider\<rparr>"

lemma sample_synced_wf: "store_wf (synced_store sample_current)"
  by (simp add: store_wf_def synced_store_def sample_current_def snapshot_wf_empty)

lemma sample_Start:
  "Start sample_env 0 [page_body] sample_starter =
     Some (None, sample_starter\<lparr>str_store := Some (synced_store sample_current),
       str_provider := Some (Provider_Start sample_current sample_provider), str_launched := True\<rparr>, [])"
proof -
  have "Bootstrap sample_env sample_syncer 0 (synced_store sample_current, [page_body]) =
      (None, (synced_store sample_current, []))"
    using sample_client_enabled
    by (simp add: Bootstrap_def sample_syncer_config sample_full_sync sample_locked)
  then show ?thesis
    by (simp add: Start_def sample_starter_def Store_Snapshot_def synced_store_def)
qed

lemma sample_subscription:
  assumes "sv_updates x = None" and "sv_store x = synced_store snapshot"
  shows "service_step env sy c x
    ((with_store (snd (Subscribe 1 (synced_store snapshot))) x)\<lparr>sv_updates := Some 1\<rparr>)"
  using assms by (intro service_step.subscribe) (simp_all add: Subscribe_def Let_def synced_store_def)

lemma provider_follows_store_witness:
  "\<exists>x y. service_run sample_env sample_syncer sample_client 1 x y \<and> sv_updates x = Some 1 \<and> sv_sessions y = [2] \<and>
     (shown_revision (sv_provider y) = FormatInt 0 \<or>
      (\<exists>z. service_step sample_env sample_syncer sample_client y z \<and> shown_revision (sv_provider z) = FormatInt 0))"
proof -
  let ?step = "service_step sample_env sample_syncer sample_client"
  let ?l = "launched (synced_store sample_current) ([] :: string list) (Provider_Start sample_current sample_provider)"
  let ?x = "(with_store (snd (Subscribe 1 (synced_store sample_current))) ?l)\<lparr>sv_updates := Some 1\<rparr>"
  let ?y = "(with_store (snd (Subscribe 5 (sv_store ?x))) ?x)\<lparr>sv_sessions := [2]\<rparr>"
  have first: "service_run sample_env sample_syncer sample_client 0 ?l ?l" by (rule service_run.start)
  have step: "?step ?l ?x" by (rule sample_subscription) (simp_all add: launched_def)
  have "fst (Subscribe 5 (sv_store ?x)) = 2" "sv_sessions ?x = []"
    by (simp_all add: Subscribe_def Let_def synced_store_def launched_def)
  then have open_session: "?step ?x ?y"
    using service_step.session_opens [of 5 ?x] by (metis prod.collapse)
  have run: "service_run sample_env sample_syncer sample_client 1 ?x ?y"
    using service_run.step [OF service_run.start open_session] by simp
  have empty: "store_subscribers (synced_store sample_current) = fmempty"
    "store_nextSubscriber (synced_store sample_current) = 0"
    by (simp_all add: synced_store_def)
  have "shown_revision (sv_provider ?y) = FormatInt 0 \<or>
      (\<exists>z. ?step ?y z \<and> shown_revision (sv_provider z) = FormatInt 0)"
    using provider_follows_store [OF sample_Start _ sample_synced_wf empty _ _ first _ _ step _ run]
    by (auto simp: sample_starter_def Store_Snapshot_def Subscribe_def synced_store_def sample_current_def
        Let_def launched_def)
  then show ?thesis using run by (intro exI [of _ ?x] exI [of _ ?y]) simp
qed

lemma sample_watched: "RunWatch_client sample_syncer = Some sample_client"
  using sample_client_enabled sample_syncer_config(3) by (simp add: RunWatch_client_def)

subsection \<open>A replacement that is lost\<close>

text \<open>Runs in which no step of the watch replaces the snapshot.\<close>

definition keeps_store ::
    "('c, 'w, 'e) env \<Rightarrow> Syncer \<Rightarrow> Client \<Rightarrow> ('c, 'w) Service \<Rightarrow> ('c, 'w) Service \<Rightarrow> bool" where
  "keeps_store env sy c x y \<longleftrightarrow>
     (\<forall>w. watch_step env sy c (sv_watch x) w \<longrightarrow> y = x\<lparr>sv_watch := w\<rparr> \<longrightarrow> fst (wt_synced w) = sv_store x)"

inductive quiet_run ::
    "('c, 'w, 'e) env \<Rightarrow> Syncer \<Rightarrow> Client \<Rightarrow> nat \<Rightarrow> ('c, 'w) Service \<Rightarrow> ('c, 'w) Service \<Rightarrow> bool"
  for env :: "('c, 'w, 'e) env" and sy :: Syncer and c :: Client where
  start: "quiet_run env sy c 0 x x"
| step: "quiet_run env sy c n x y \<Longrightarrow> service_step env sy c y z \<Longrightarrow> keeps_store env sy c y z \<Longrightarrow>
    quiet_run env sy c (Suc n) x z"

lemma quiet_run_run: "quiet_run env sy c n x y \<Longrightarrow> service_run env sy c n x y"
  by (induction rule: quiet_run.induct) (auto intro: service_run.intros)

definition waiting :: "int64 \<Rightarrow> Provider \<Rightarrow> Snapshot option \<Rightarrow> ('c, 'w) Service \<Rightarrow> bool" where
  "waiting k p current x \<longleftrightarrow>
     sv_updates x = Some k \<and> sv_provider x = p \<and> store_current (sv_store x) = current \<and>
     (\<exists>ch. fmlookup (store_subscribers (sv_store x)) k = Some ch \<and> chan_buffer ch = [])"

lemma quiet_step_waiting:
  assumes "service_step env sy c x y" and "keeps_store env sy c x y" and "numbered n x" and "int n + 1 < 2 ^ 63"
    and "waiting k p current x"
  shows "waiting k p current y"
  using assms(1)
proof cases
  case (watch w)
  then show ?thesis using assms(2,5) by (auto simp: keeps_store_def waiting_def)
next
  case (session_opens buffer j st)
  note j = Subscribe_numbered(5) [OF assms(3,4) session_opens(2)] Subscribe_channel [OF assms(3,4) session_opens(2)]
  then show ?thesis using session_opens(1) assms(5) by (auto simp: waiting_def)
next
  case (session_closes j)
  then have "j \<noteq> k" using assms(3,5) by (auto simp: numbered_def waiting_def)
  then show ?thesis using session_closes(1) assms(5) by (auto simp: waiting_def unsubscribe_def)
qed (use assms(5) in \<open>auto simp: waiting_def\<close>)

lemma quiet_run_waiting:
  assumes "quiet_run env sy c n x y" and "numbered m x" and "store_wf (sv_store x)" and "int (m + n) < 2 ^ 63"
    and "waiting k p current x"
  shows "waiting k p current y"
  using assms
proof induction
  case (step n x y z)
  then have bound: "int (m + n) + 1 < 2 ^ 63" by simp
  then have "numbered (m + n) y"
    using service_run_numbered [OF quiet_run_run [OF step(1)] step.prems(1,2)] by simp
  with quiet_step_waiting [OF step(2,3) this] step bound show ?case by simp
qed simp



end
