(* ===== verification/ServiceRestart.thy ===== *)
theory ServiceRestart
  imports SnapshotCache StarterProperties
begin

text \<open>
  A restart of the service, from \<open>internal/app/starter.go\<close> down to the cache: one process has
  stored rules, a later one initialises and starts while the control plane cannot be reached.
\<close>

definition unreachable :: "('w, 'e) transport \<Rightarrow> bool" where
  "unreachable transport \<longleftrightarrow> (\<forall>request w. \<exists>e w'. transport request w = (Inl e, w'))"

lemma unreachable_fullSyncLocked:
  assumes "unreachable (env_transport env)"
  shows "\<exists>e w'. fullSyncLocked env sy c (st, w) = (Some (ClientError (TransportError e)), (st, w'))"
proof -
  let ?request = "client_request c ''/snapshot''
    [(''page'', FormatInt 0), (''size'', FormatInt (syc_SnapshotPageSize (sy_config sy)))] ''application/json''"
  obtain e w' where "env_transport env ?request w = (Inl e, w')"
    using assms unfolding unreachable_def by blast
  then show ?thesis
    by (simp add: fullSyncLocked_def fetch_snapshot_def Client_Snapshot_def getJSON_def)
qed

lemma unreachable_fullSync:
  assumes "unreachable (env_transport env)"
  shows "\<exists>e w'. fullSync env (NewSyncer client config) c (st, w) = (Some e, (st, w'))"
proof -
  obtain e w' where failed: "fullSyncLocked env (NewSyncer client config) c (st, w) =
      (Some (ClientError (TransportError e)), (st, w'))"
    using unreachable_fullSyncLocked [OF assms] by blast
  obtain n where "nat (sint (syc_FullSyncMaxRetries (sy_config (NewSyncer client config)))) = Suc n"
    using NewSyncer_retries [of client config] gr0_implies_Suc by blast
  then show ?thesis by (simp add: fullSync_def failed is_paging_error_def)
qed

lemma unreachable_Bootstrap:
  assumes "unreachable (env_transport env)" and "syc_AllowEmptyStartup config"
    and "\<not> Snapshot_Empty (Store_Snapshot now st)"
  shows "\<exists>w'. Bootstrap env (NewSyncer (Some c) config) now (st, w) = (None, (st, w'))"
proof -
  have sy: "sy_client (NewSyncer (Some c) config) = Some c"
    "syc_AllowEmptyStartup (sy_config (NewSyncer (Some c) config))"
    using assms(2) by (simp_all add: NewSyncer_def)
  have kept: "start_empty env now (st, v) = (None, (st, v))" for v
    using assms(3) by (simp add: start_empty_def)
  obtain e w' where "fullSync env (NewSyncer (Some c) config) c (st, w) = (Some e, (st, w'))"
    using unreachable_fullSync [OF assms(1)] by blast
  then show ?thesis by (simp add: Bootstrap_def sy kept)
qed

text \<open>Without permission to start empty, nothing is asked of the store: the start fails.\<close>

lemma unreachable_Bootstrap_refused:
  assumes "unreachable (env_transport env)" and "\<not> syc_AllowEmptyStartup config"
  shows "\<exists>e w'. Bootstrap env (NewSyncer (Some c) config) now (st, w) = (Some e, (st, w'))"
proof -
  have sy: "sy_client (NewSyncer (Some c) config) = Some c"
    "\<not> syc_AllowEmptyStartup (sy_config (NewSyncer (Some c) config))"
    using assms(2) by (simp_all add: NewSyncer_def)
  obtain e w' where "fullSync env (NewSyncer (Some c) config) c (st, w) = (Some e, (st, w'))"
    using unreachable_fullSync [OF assms(1)] by blast
  then show ?thesis by (simp add: Bootstrap_def sy)
qed

text \<open>Attaching the cache succeeded, and so did all that is asked of the framework.\<close>

lemma Init_succeeds:
  assumes "app_Cache app = Some cache"
    and "AttachCache (cs_marshal (app_cache_service app)) (cs_unmarshal (app_cache_service app))
       (cs_get (app_cache_service app)) (cs_set (app_cache_service app)) now (Some cache)
       (NewEmptyStore now) = (st, None)"
    and "open_client app (str_cfg s) = Inr conn" and "app_has_RPC app"
    and "topology_metrics app (str_cfg s) = Inr metrics"
    and "app_Register app discovery_service = None" and "app_Register app runtime_service = None"
  shows "\<exists>s' services c. Init app now s = (None, s', services) \<and> str_store s' = Some st \<and>
    str_provider s' = Some (NewProvider (app_has_ServiceRegistry app) (str_cfg s)) \<and>
    str_syncer s' = Some (NewSyncer (Some c) (syncer_config (sc_Rules (str_cfg s)))) \<and>
    map fst services = [discovery_service, runtime_service]"
  using assms by (auto simp: Init_def Let_def register_services_def)

lemma compact_Snapshot_simps [simp]:
  "snap_Version (compact_Snapshot s) = snap_Version s" "snap_Checksum (compact_Snapshot s) = snap_Checksum s"
  "snap_GeneratedAt (compact_Snapshot s) = snap_GeneratedAt s"
  "Snapshot_Empty (compact_Snapshot s) = Snapshot_Empty s"
  by (simp_all add: compact_Snapshot_def Snapshot_Empty_def go_len_def)

lemma compact_Snapshot_wf: "snapshot_wf s \<Longrightarrow> snapshot_wf (compact_Snapshot s)"
proof -
  have "app_wf code (compact_Application a)" if a: "app_wf code a" for code a
  proof -
    have "rule_wf code (app_Configs (compact_Application a)) k (compact_Rule r)"
      if "fmlookup (app_Rules a) k = Some r" for k r
      using app_wf_rule [OF a that]
      by (auto simp: rule_wf_def compact_Application_def compact_Rule_def compact_Config_def split: option.splits)
    moreover have "fmmap compact_Config m = fmempty \<Longrightarrow> m = fmempty" for m
      by (rule fmap_ext) (metis fmlookup_map fmempty_lookup option.map_disc_iff)
    ultimately show ?thesis
      using a by (fastforce simp: app_wf_def compact_Application_def compact_Rule_def compact_Config_def config_wf_def)
  qed
  then show "snapshot_wf s \<Longrightarrow> snapshot_wf (compact_Snapshot s)"
    by (auto simp: snapshot_wf_def compact_Snapshot_def)
qed

text \<open>C7: a store wrote a snapshot to the cache, successfully; the snapshot is not empty and can be
  stored (its texts are valid UTF-8 and its raw texts are not nested too deeply), and the cache keeps
  what it is given. Then a new process that finds the cache, when the framework gives it its client,
  gRPC server, instruments and registrations, initialises and registers both services. If it cannot
  reach the control plane it starts exactly if empty starts are allowed, although it would not be
  empty. It serves the rules of the old one, with the same version, checksum and time, and when it has
  started shows that version to the other instances; a rule differs from the old one at most in its
  raw text, which is compacted. If the old snapshot was well formed, so is the new store, and all that
  holds of a running service from such a store holds again.\<close>

theorem restart_serves_cached_rules:
  assumes "ReplaceWithContext (marshal_with err) set_cache snapshot st = (st', None)"
    and "store_cache st \<noteq> None" and "storable snapshot" and "\<not> Snapshot_Empty snapshot"
    and "\<forall>c payload c'. set_cache c SnapshotCacheKey payload = (c', None) \<longrightarrow>
      get_cache c' SnapshotCacheKey = Inr (Some payload)"
    and "app_Cache app = store_cache st'" and "app_cache_service app =
      \<lparr>cs_marshal = marshal_with err, cs_unmarshal = unmarshal_with bad, cs_get = get_cache, cs_set = set_cache\<rparr>"
    and "open_client app (str_cfg s) = Inr conn" and "app_has_RPC app"
    and "topology_metrics app (str_cfg s) = Inr metrics"
    and "app_Register app discovery_service = None" and "app_Register app runtime_service = None"
    and "unreachable (env_transport env)"
  shows "\<exists>s1 services result s2 w' st2. Init app now s = (None, s1, services) \<and>
    map fst services = [discovery_service, runtime_service] \<and>
    Start env later w s1 = Some (result, s2, w') \<and>
    (result = None \<longleftrightarrow> rc_AllowEmptyStartup (sc_Rules (str_cfg s))) \<and>
    str_store s2 = Some st2 \<and> serves_same st2 st' \<and> (snapshot_wf snapshot \<longrightarrow> store_wf st2) \<and>
    (case Store_Snapshot later st2 of current \<Rightarrow>
       snap_Version current = snap_Version snapshot \<and> snap_Checksum current = snap_Checksum snapshot \<and>
       snap_GeneratedAt current = snap_GeneratedAt snapshot) \<and>
    (result = None \<longrightarrow> (\<exists>p. str_provider s2 = Some p \<and> shown_revision p = FormatInt (snap_Version snapshot)))"
proof -
  obtain cache where cache: "store_cache st' = Some cache"
    using assms(1,2) by (auto simp: ReplaceWithContext_def cacheSnapshot_def notify_def Let_def
        split: option.splits sum.splits prod.splits)
  define st1 where
    "st1 = (NewEmptyStore now)\<lparr>store_cache := Some cache, store_current := Some (compact_Snapshot snapshot)\<rparr>"
  have attached: "AttachCache (marshal_with err) (unmarshal_with bad) get_cache set_cache now (Some cache)
      (NewEmptyStore now) = (st1, None)"
    unfolding st1_def using AttachCache_restores [where err = err and set_cache = set_cache and get_cache = get_cache and
        snapshot = snapshot and bad = bad and now = now and fresh = "NewEmptyStore now",
        OF assms(1,2) cache assms(3,5)]
    by auto
  have app: "app_Cache app = Some cache" using assms(6) cache by simp
  have "AttachCache (cs_marshal (app_cache_service app)) (cs_unmarshal (app_cache_service app))
      (cs_get (app_cache_service app)) (cs_set (app_cache_service app)) now (Some cache)
      (NewEmptyStore now) = (st1, None)"
    using attached assms(7) by simp
  from Init_succeeds [OF app this assms(8-12)]
  obtain s1 services client where parts: "Init app now s = (None, s1, services)" "str_store s1 = Some st1"
      "str_provider s1 = Some (NewProvider (app_has_ServiceRegistry app) (str_cfg s))"
      "str_syncer s1 = Some (NewSyncer (Some client) (syncer_config (sc_Rules (str_cfg s))))"
      "map fst services = [discovery_service, runtime_service]"
    by (elim exE conjE) (rule that; assumption)
  have current: "store_current st1 = Some (compact_Snapshot snapshot)" by (simp add: st1_def)
  then have served: "Store_Snapshot later st1 = compact_Snapshot snapshot" by (simp add: Store_Snapshot_def)
  let ?config = "syncer_config (sc_Rules (str_cfg s))"
  have allow: "syc_AllowEmptyStartup ?config \<longleftrightarrow> rc_AllowEmptyStartup (sc_Rules (str_cfg s))"
    by (simp add: syncer_config_def)
  obtain e w' where run: "Bootstrap env (NewSyncer (Some client) ?config) later (st1, w) = (e, (st1, w'))"
      "e = None \<longleftrightarrow> rc_AllowEmptyStartup (sc_Rules (str_cfg s))"
    using unreachable_Bootstrap [OF assms(13), of ?config later st1 client w] allow assms(4) served
      unreachable_Bootstrap_refused [OF assms(13), of ?config client later st1 w]
    by (cases "rc_AllowEmptyStartup (sc_Rules (str_cfg s))") auto
  have same: "serves_same st1 st'"
    by (rule serves_same_compacted [OF current ReplaceWithContext_current(1) [OF assms(1)]])
  have wf: "snapshot_wf snapshot \<longrightarrow> store_wf st1"
    using NewStore_wf [OF snapshot_wf_empty, of "EmptySnapshot now"] compact_Snapshot_wf
    by (auto simp: st1_def store_wf_def NewEmptyStore_def EmptySnapshot_def)
  show ?thesis
    using parts run same wf by (cases e) (simp_all add: Start_def served Provider_Start_def)
qed

subsection \<open>A sample restart\<close>

definition restart_environment :: "string \<Rightarrow> string" where
  "restart_environment key =
     (if key = ''STELLPULSAR_RULES_ALLOW_EMPTY_STARTUP'' then ''true''
      else if key = ''STELLPULSAR_OBSERVABILITY_TOPOLOGY_METRICS'' then ''false'' else [])"

definition restart_starter :: "(string option, unit) Starter" where
  "restart_starter = snd (Condition restart_environment
     \<lparr>st_AppName = [], st_Zone = [], st_Version = [], st_Registry = None\<rparr> zero_fileConfig NewStarter)"

definition restart_app :: "string option \<Rightarrow> (string option, unit, string) App" where
  "restart_app c =
     \<lparr>app_Cache = Some c,
      app_cache_service =
        \<lparr>cs_marshal = marshal_with (\<lambda>_. ''bad''), cs_unmarshal = unmarshal_with ''bad'', cs_get = kept_payload,
         cs_set = keep_payload\<rparr>,
      app_NewGRPCClient = (\<lambda>_. Inr ()), app_has_ServiceRegistry = False, app_has_RPC = True,
      app_Meter = None, app_Register = (\<lambda>_. None)\<rparr>"

definition restart_env :: "(string option, unit, string) env" where
  "restart_env =
     \<lparr>env_transport = (\<lambda>request w. (Inl ''down'', w)), env_marshal = marshal_with (\<lambda>_. ''bad''),
      env_set_cache = keep_payload\<rparr>"

lemma restart_config:
  "sc_GRPC_ClientName (str_cfg restart_starter) = []"
  "\<not> sc_Observability_TopologyMetrics (str_cfg restart_starter)"
  "rc_AllowEmptyStartup (sc_Rules (str_cfg restart_starter))"
proof -
  have "TrimSpace ''false'' = ''false''" "TrimSpace ''true'' = ''true''" by code_simp+
  then show "sc_GRPC_ClientName (str_cfg restart_starter) = []"
    "\<not> sc_Observability_TopologyMetrics (str_cfg restart_starter)"
    "rc_AllowEmptyStartup (sc_Rules (str_cfg restart_starter))"
    by (simp_all add: restart_starter_def Condition_def Load_def envString_def envBool_def ParseBool_def
        restart_environment_def zero_fileConfig_def load_rules_def)
qed

lemma example_cached:
  "\<exists>payload st'.
    ReplaceWithContext (marshal_with (\<lambda>_. ''bad'')) keep_payload (example_delta 7) restart_store = (st', None) \<and>
    store_cache st' = Some (Some payload) \<and> store_current st' = Some (example_delta 7) \<and>
    unmarshal_Snapshot payload = Some (compact_Snapshot (example_delta 7))"
proof -
  let ?s = "example_delta 7"
  obtain payload where payload: "marshal_Snapshot ?s = Inr payload"
    using marshal_ok_iff [of ?s] made_raws_ok [OF example_made] example_written by (cases "marshal_Snapshot ?s") simp_all
  have run: "ReplaceWithContext (marshal_with (\<lambda>_. ''bad'')) keep_payload ?s restart_store =
      (restart_store\<lparr>store_current := Some ?s, store_cache := Some (Some payload)\<rparr>, None)"
    by (simp add: ReplaceWithContext_def cacheSnapshot_def Let_def restart_store_def marshal_with_def payload
        keep_payload_def notify_def NewStore_def Replace_def)
  have "unmarshal_Snapshot payload = Some (compact_Snapshot ?s)"
    using payload example_storable by (rule unmarshal_marshal)
  then show ?thesis using run by (intro exI conjI) (assumption | simp)+
qed

lemma restart_framework:
  "open_client (restart_app c) (str_cfg restart_starter) = Inr None" "app_has_RPC (restart_app c)"
  "topology_metrics (restart_app c) (str_cfg restart_starter) = Inr None"
  "app_Register (restart_app c) discovery_service = None" "app_Register (restart_app c) runtime_service = None"
  using restart_config by (simp_all add: open_client_def topology_metrics_def restart_app_def)

lemma restart_serves_cached_rules_witness:
  "\<exists>c s1 services s2 st2 w'. Init (restart_app c) 8 restart_starter = (None, s1, services) \<and>
     Start restart_env 9 () s1 = Some (None, s2, w') \<and>
    str_store s2 = Some st2 \<and> snap_Version (Store_Snapshot 9 st2) = 2 \<and> snd (FindRule st2 ''shop'' ''a'')"
proof -
  obtain payload st' where run:
      "ReplaceWithContext (marshal_with (\<lambda>_. ''bad'')) keep_payload (example_delta 7) restart_store = (st', None)"
      "store_cache st' = Some (Some payload)" "store_current st' = Some (example_delta 7)"
      "unmarshal_Snapshot payload = Some (compact_Snapshot (example_delta 7))"
    using example_cached by blast
  let ?app = "restart_app (Some payload)"
  have cache: "store_cache restart_store \<noteq> None" by (simp add: restart_store_def)
  have kept: "\<forall>c payload c'. keep_payload c SnapshotCacheKey payload = (c', None) \<longrightarrow>
      kept_payload c' SnapshotCacheKey = Inr (Some payload)"
    by (auto simp: keep_payload_def kept_payload_def)
  have version: "snap_Version (example_delta 7) = 2" by (simp add: example_delta_def example_snapshot_def)
  then have nonempty: "\<not> Snapshot_Empty (example_delta 7)" by (simp add: Snapshot_Empty_def)
  have found: "snd (FindRule st' ''shop'' ''a'')"
    by (simp add: FindRule_def run(3) example_delta_def example_snapshot_def example_app_def)
  have app: "app_Cache ?app = store_cache st'" "app_cache_service ?app =
      \<lparr>cs_marshal = marshal_with (\<lambda>_. ''bad''), cs_unmarshal = unmarshal_with ''bad'', cs_get = kept_payload,
       cs_set = keep_payload\<rparr>"
    by (simp_all add: restart_app_def run(2))
  have down: "unreachable (env_transport restart_env)" by (simp add: unreachable_def restart_env_def)
  from restart_serves_cached_rules [OF run(1) cache example_storable nonempty kept app restart_framework down, of 8 9 "()"]
  show ?thesis using version found restart_config(3) unfolding serves_same_def by metis
qed

end
