(* ===== verification/Session.thy ===== *)
theory Session
  imports GrpcServer
begin

text \<open>
  The bidirectional stream of \<open>internal/grpcapi/server.go\<close>: \<open>OpenSession\<close>, its receiving
  goroutine \<open>receiveFrames\<close>, the \<open>streamSession\<close> the two share under a lock, and the
  frames they make. The functions come first, then their interleaving as a step relation
  over a connection: what each goroutine is about to do, the buffered channel between them,
  and what was received and sent so far. As in GrpcServer the rule store and the clock are
  arguments, one for each time the code reads them: the steps hold whatever other goroutines
  do to the store in between. The state of the cache behind the store plays no part, so the
  stores of the step relation have the trivial one. The steps allow a frame to be received
  after the stream has ended, more than gRPC does.
\<close>

subsection \<open>The state the two goroutines share\<close>

record streamSession =
  sess_sessionID :: string
  sess_application :: string
  sess_lastRevision :: string

definition new_streamSession :: streamSession where
  "new_streamSession = \<lparr>sess_sessionID = [], sess_application = [], sess_lastRevision = []\<rparr>"

definition session_set :: "string \<Rightarrow> string \<Rightarrow> streamSession \<Rightarrow> streamSession" where
  "session_set sessionID application ss =
     (let ss = ss\<lparr>sess_sessionID := sessionID\<rparr> in
      if TrimSpace application \<noteq> [] then ss\<lparr>sess_application := TrimSpace application\<rparr> else ss)"

definition setRevision :: "string \<Rightarrow> streamSession \<Rightarrow> streamSession" where
  "setRevision rv ss = ss\<lparr>sess_lastRevision := rv\<rparr>"

definition session_snapshot :: "streamSession \<Rightarrow> string \<times> string" where
  "session_snapshot ss = (sess_sessionID ss, sess_application ss)"

definition session_revision :: "streamSession \<Rightarrow> string" where
  "session_revision ss = sess_lastRevision ss"

subsection \<open>Frames\<close>

text \<open>The revision a frame reports: \<open>strconv.FormatInt\<close> of a snapshot's version.\<close>

definition store_revision :: "time \<Rightarrow> 'c Store \<Rightarrow> string" where
  "store_revision now st = FormatInt (snap_Version (Store_Snapshot now st))"

definition helloFrame ::
    "(string fset \<Rightarrow> string list) \<Rightarrow> time \<Rightarrow> 'c Store \<Rightarrow> 'c Store \<Rightarrow> string \<Rightarrow> string \<Rightarrow> Server \<Rightarrow> ServerFrame" where
  "helloFrame ord now st st' sessionID applicationCode s =
     \<lparr>SFrame_SessionId = sessionID, SFrame_ServerInstanceId = srv_instanceID s,
      SFrame_Payload = Some (ServerFrame_Hello
        \<lparr>SHello_ProtocolVersion = protocolVersion, SHello_ServerInstanceId = srv_instanceID s,
         SHello_GlobalRuleRevision = store_revision now st,
         SHello_RuleDigests = digests ord st' applicationCode,
         SHello_HeartbeatIntervalMs = Milliseconds (srv_heartbeatInterval s)\<rparr>)\<rparr>"

definition heartbeatFrame :: "time \<Rightarrow> time \<Rightarrow> 'c Store \<Rightarrow> string \<Rightarrow> Server \<Rightarrow> ServerFrame" where
  "heartbeatFrame now now' st sessionID s =
     \<lparr>SFrame_SessionId = sessionID, SFrame_ServerInstanceId = srv_instanceID s,
      SFrame_Payload = Some (ServerFrame_Heartbeat
        \<lparr>SHeart_SentAtUnixMs = UnixMilli now, SHeart_GlobalRuleRevision = store_revision now' st\<rparr>)\<rparr>"

definition ruleChangedFrame :: "string \<Rightarrow> string \<Rightarrow> RuleDigest list \<Rightarrow> Server \<Rightarrow> ServerFrame" where
  "ruleChangedFrame sessionID rv changed s =
     \<lparr>SFrame_SessionId = sessionID, SFrame_ServerInstanceId = srv_instanceID s,
      SFrame_Payload = Some (ServerFrame_RuleChanged
        \<lparr>SChanged_GlobalRuleRevision = rv, SChanged_ChangedRules = changed,
         SChanged_RequiresClientResync = True\<rparr>)\<rparr>"

definition unsupportedFrame :: "string \<Rightarrow> Server \<Rightarrow> ServerFrame" where
  "unsupportedFrame sessionID s =
     \<lparr>SFrame_SessionId = sessionID, SFrame_ServerInstanceId = srv_instanceID s,
      SFrame_Payload = Some (ServerFrame_Error
        (new_ServerError\<lparr>SError_Code := ''unsupported_frame'',
                         SError_Message := ''unsupported client frame''\<rparr>))\<rparr>"

text \<open>What an update of the rules makes of the session: the frame to push, if any.\<close>

definition ruleChangedFrameForSession ::
    "(string fset \<Rightarrow> string list) \<Rightarrow> Snapshot \<Rightarrow> Server \<Rightarrow> streamSession \<Rightarrow>
     ServerFrame option \<times> streamSession" where
  "ruleChangedFrameForSession ord snapshot s ss =
     (case session_snapshot ss of
        (sessionID, applicationCode) \<Rightarrow>
          (if sessionID = [] \<or> applicationCode = [] then (None, ss)
           else let rv = FormatInt (snap_Version snapshot) in
             if rv = session_revision ss then (None, ss)
             else (Some (ruleChangedFrame sessionID rv (digestsFromSnapshot ord snapshot applicationCode) s),
                   setRevision rv ss)))"

subsection \<open>Receiving a frame\<close>

text \<open>
  What the receiving goroutine does next: read the stream, record the revision of the hello
  it has built, offer a frame to the outbound channel (and then compare digests), compare
  digests, or nothing any more.
\<close>

datatype receiver =
    Receiving
  | Greeting ServerFrame string string "RuleDigest list"
  | Enqueue ServerFrame "(string \<times> string \<times> RuleDigest list) option"
  | Comparing string string "RuleDigest list"
  | Stopped

definition hello_revision :: "ServerFrame \<Rightarrow> string" where
  "hello_revision f =
     (case SFrame_Payload f of
        Some (ServerFrame_Hello hello) \<Rightarrow> SHello_GlobalRuleRevision hello | _ \<Rightarrow> [])"

text \<open>The readings of the store and of the clock that a step takes.\<close>

record 'c view =
  view_store :: "'c Store"
  view_store' :: "'c Store"
  view_now :: time
  view_now' :: time

definition changed_frame ::
    "'c view \<Rightarrow> string \<Rightarrow> RuleDigest list \<Rightarrow> Server \<Rightarrow> ServerFrame" where
  "changed_frame v sessionID changed s =
     ruleChangedFrame sessionID (store_revision (view_now v) (view_store' v)) changed s"

definition receive ::
    "(string fset \<Rightarrow> string list) \<Rightarrow> 'c view \<Rightarrow> ClientFrame \<Rightarrow> Server \<Rightarrow> streamSession \<Rightarrow>
     receiver \<times> streamSession" where
  "receive ord v frame s ss =
     (let sessionID = CFrame_SessionId frame; applicationCode = CFrame_ApplicationCode frame in
      case CFrame_Payload frame of
        Some (ClientFrame_Hello hello) \<Rightarrow>
          (let applicationCode = chooseString [applicationCode, CHello_ApplicationCode hello] in
           (Greeting (helloFrame ord (view_now v) (view_store v) (view_store' v) sessionID applicationCode s)
              sessionID applicationCode (CHello_RuleDigests hello),
            session_set sessionID applicationCode ss))
      | Some (ClientFrame_Heartbeat _) \<Rightarrow>
          (Enqueue (heartbeatFrame (view_now v) (view_now' v) (view_store v) sessionID s) None,
           session_set sessionID applicationCode ss)
      | Some (ClientFrame_RuleDigest digest) \<Rightarrow>
          (case changedDigests ord (view_store v) applicationCode (CDigest_RuleDigests digest) of
             [] \<Rightarrow> (Enqueue (heartbeatFrame (view_now v) (view_now' v) (view_store' v) sessionID s) None,
                    session_set sessionID applicationCode ss)
           | changed \<Rightarrow> (Enqueue (changed_frame v sessionID changed s) None,
                    session_set sessionID applicationCode ss))
      | Some (ClientFrame_Ack ack) \<Rightarrow>
          (Receiving, if CAck_Revision ack \<noteq> [] then setRevision (CAck_Revision ack) ss else ss)
      | None \<Rightarrow> (Enqueue (unsupportedFrame sessionID s) None, ss))"

text \<open>After the hello was enqueued, the digests the client sent are compared.\<close>

definition compare_digests ::
    "(string fset \<Rightarrow> string list) \<Rightarrow> 'c view \<Rightarrow> string \<Rightarrow> string \<Rightarrow> RuleDigest list \<Rightarrow> Server \<Rightarrow> receiver" where
  "compare_digests ord v sessionID applicationCode ds s =
     (case changedDigests ord (view_store v) applicationCode ds of
        [] \<Rightarrow> Receiving
      | changed \<Rightarrow> Enqueue (changed_frame v sessionID changed s) None)"

definition after_enqueue :: "(string \<times> string \<times> RuleDigest list) option \<Rightarrow> receiver" where
  "after_enqueue next =
     (case next of None \<Rightarrow> Receiving | Some (sessionID, app, ds) \<Rightarrow> Comparing sessionID app ds)"

subsection \<open>The connection\<close>

text \<open>
  What the loop of \<open>OpenSession\<close> is about to do: select, or the two later halves of
  \<open>ruleChangedFrameForSession\<close>, whose reads and write of the session are separate critical
  sections. A stream ends with \<open>io.EOF\<close>, an error of the transport or the context's error.
\<close>

datatype looping =
    Select
  | Check string string Snapshot
  | Push string string Snapshot

datatype 'e stream_error = EOF | ContextDone | Transport 'e

record 'e Conn =
  conn_session :: streamSession
  conn_receiver :: receiver
  conn_loop :: looping
  conn_outbound :: "ServerFrame list"
  conn_recvDone :: "'e stream_error option"
  conn_cancelled :: bool
  conn_received :: "ClientFrame list"
  conn_sent :: "ServerFrame list"
  conn_result :: "'e stream_error option option"

definition open_session :: "'e Conn" where
  "open_session =
     \<lparr>conn_session = new_streamSession, conn_receiver = Receiving, conn_loop = Select,
      conn_outbound = [], conn_recvDone = None, conn_cancelled = False,
      conn_received = [], conn_sent = [], conn_result = None\<rparr>"

definition outbound_capacity :: nat where "outbound_capacity = 16"

definition finish :: "'e stream_error option \<Rightarrow> 'e Conn \<Rightarrow> 'e Conn" where
  "finish result c = c\<lparr>conn_result := Some result, conn_cancelled := True\<rparr>"

text \<open>\<open>stream.Send\<close> reports an error or not; an error ends the loop.\<close>

definition send :: "'e option \<Rightarrow> ServerFrame \<Rightarrow> 'e Conn \<Rightarrow> 'e Conn" where
  "send err f c =
     (case err of
        None \<Rightarrow> c\<lparr>conn_sent := conn_sent c @ [f]\<rparr>
      | Some e \<Rightarrow> finish (Some (Transport e)) c)"

text \<open>
  The start of \<open>OpenSession\<close>: an unauthorised stream is refused, another subscribes to the
  store, and its goroutines begin.
\<close>

definition OpenSession ::
    "metadata \<Rightarrow> 'c Store \<Rightarrow> Server \<Rightarrow> 'e rpc_error + int64 \<times> 'c Store \<times> 'e Conn" where
  "OpenSession md st s =
     (case authorize md s of
        Some message \<Rightarrow> Inl (Unauthenticated message)
      | None \<Rightarrow> (case Subscribe 1 st of (k, st') \<Rightarrow> Inr (k, st', open_session)))"

text \<open>The steps of the receiving goroutine.\<close>

inductive recv_step :: "(string fset \<Rightarrow> string list) \<Rightarrow> Server \<Rightarrow> 'e Conn \<Rightarrow> 'e Conn \<Rightarrow> bool"
  for ord :: "string fset \<Rightarrow> string list" and s :: Server where
  recv_frame: "conn_receiver c = Receiving \<Longrightarrow> receive ord (v :: unit view) frame s (conn_session c) = (r, ss) \<Longrightarrow>
    recv_step ord s c (c\<lparr>conn_receiver := r, conn_session := ss,
      conn_received := conn_received c @ [frame]\<rparr>)"
| recv_error: "conn_receiver c = Receiving \<Longrightarrow>
    recv_step ord s c (c\<lparr>conn_receiver := Stopped, conn_recvDone := Some e\<rparr>)"
| greet: "conn_receiver c = Greeting hello sessionID app ds \<Longrightarrow>
    recv_step ord s c (c\<lparr>conn_receiver := Enqueue hello (Some (sessionID, app, ds)),
      conn_session := setRevision (hello_revision hello) (conn_session c)\<rparr>)"
| enqueue: "conn_receiver c = Enqueue f next \<Longrightarrow> length (conn_outbound c) < outbound_capacity \<Longrightarrow>
    recv_step ord s c (c\<lparr>conn_receiver := after_enqueue next, conn_outbound := conn_outbound c @ [f]\<rparr>)"
| abandon: "conn_receiver c = Enqueue f next \<Longrightarrow> conn_cancelled c \<Longrightarrow>
    recv_step ord s c (c\<lparr>conn_receiver := Stopped, conn_recvDone := Some ContextDone\<rparr>)"
| compare: "conn_receiver c = Comparing sessionID app ds \<Longrightarrow>
    recv_step ord s c (c\<lparr>conn_receiver := compare_digests ord (v :: unit view) sessionID app ds s\<rparr>)"

text \<open>The steps of the loop of \<open>OpenSession\<close>.\<close>

inductive loop_step :: "(string fset \<Rightarrow> string list) \<Rightarrow> Server \<Rightarrow> 'e Conn \<Rightarrow> 'e Conn \<Rightarrow> bool"
  for ord :: "string fset \<Rightarrow> string list" and s :: Server where
  context_done: "conn_loop c = Select \<Longrightarrow> conn_cancelled c \<Longrightarrow>
    loop_step ord s c (finish (Some ContextDone) c)"
| receive_done: "conn_loop c = Select \<Longrightarrow> conn_recvDone c = Some e \<Longrightarrow>
    loop_step ord s c (finish (if e = EOF then None else Some e) (c\<lparr>conn_recvDone := None\<rparr>))"
| send_outbound: "conn_loop c = Select \<Longrightarrow> conn_outbound c = f # fs \<Longrightarrow>
    loop_step ord s c (send err f (c\<lparr>conn_outbound := fs\<rparr>))"
| updates_closed: "conn_loop c = Select \<Longrightarrow> loop_step ord s c (finish None c)"
| update: "conn_loop c = Select \<Longrightarrow> session_snapshot (conn_session c) = (sessionID, app) \<Longrightarrow>
    loop_step ord s c (if sessionID = [] \<or> app = [] then c
      else c\<lparr>conn_loop := Check sessionID app snapshot\<rparr>)"
| check: "conn_loop c = Check sessionID app snapshot \<Longrightarrow>
    loop_step ord s c (c\<lparr>conn_loop :=
      (if FormatInt (snap_Version snapshot) = session_revision (conn_session c) then Select
       else Push sessionID app snapshot)\<rparr>)"
| push: "conn_loop c = Push sessionID app snapshot \<Longrightarrow>
    loop_step ord s c (send err
      (ruleChangedFrame sessionID (FormatInt (snap_Version snapshot)) (digestsFromSnapshot ord snapshot app) s)
      (c\<lparr>conn_loop := Select,
         conn_session := setRevision (FormatInt (snap_Version snapshot)) (conn_session c)\<rparr>))"
| tick: "conn_loop c = Select \<Longrightarrow> session_snapshot (conn_session c) = (sessionID, app) \<Longrightarrow>
    loop_step ord s c (if sessionID = [] then c
      else send err (heartbeatFrame now now' (st :: unit Store) sessionID s) c)"

text \<open>
  The connection's steps: those of the two goroutines, of the loop only until it has
  returned, and the cancellation of the stream's context from outside.
\<close>

inductive conn_step :: "(string fset \<Rightarrow> string list) \<Rightarrow> Server \<Rightarrow> 'e Conn \<Rightarrow> 'e Conn \<Rightarrow> bool"
  for ord :: "string fset \<Rightarrow> string list" and s :: Server where
  by_receiver: "recv_step ord s c c' \<Longrightarrow> conn_step ord s c c'"
| by_loop: "conn_result c = None \<Longrightarrow> loop_step ord s c c' \<Longrightarrow> conn_step ord s c c'"
| cancelled: "conn_step ord s c (c\<lparr>conn_cancelled := True\<rparr>)"

inductive_cases recv_stepE: "recv_step ord s c c'"
inductive_cases loop_stepE: "loop_step ord s c c'"
inductive_cases conn_stepE: "conn_step ord s c c'"

inductive conn_reachable :: "(string fset \<Rightarrow> string list) \<Rightarrow> Server \<Rightarrow> 'e Conn \<Rightarrow> bool"
  for ord :: "string fset \<Rightarrow> string list" and s :: Server where
  opened: "conn_reachable ord s open_session"
| stepped: "conn_reachable ord s c \<Longrightarrow> conn_step ord s c c' \<Longrightarrow> conn_reachable ord s c'"

end
