(* ===== verification/SessionProperties.thy ===== *)
theory SessionProperties
  imports Session GrpcProperties
begin

text \<open>
  The invariants of a connection, and the properties of sessions that follow from them.
\<close>

subsection \<open>What frames say\<close>

definition frame_revision :: "ServerFrame \<Rightarrow> string option" where
  "frame_revision f =
     (case SFrame_Payload f of
        Some (ServerFrame_Hello x) \<Rightarrow> Some (SHello_GlobalRuleRevision x)
      | Some (ServerFrame_Heartbeat x) \<Rightarrow> Some (SHeart_GlobalRuleRevision x)
      | Some (ServerFrame_RuleChanged x) \<Rightarrow> Some (SChanged_GlobalRuleRevision x)
      | _ \<Rightarrow> None)"

lemma frame_sel [simp]:
  "SFrame_SessionId (helloFrame ord now st st' sid app s) = sid"
  "SFrame_SessionId (heartbeatFrame now now' st sid s) = sid"
  "SFrame_SessionId (ruleChangedFrame sid rv ds s) = sid"
  "SFrame_SessionId (unsupportedFrame sid s) = sid"
  "SFrame_ServerInstanceId (helloFrame ord now st st' sid app s) = srv_instanceID s"
  "SFrame_ServerInstanceId (heartbeatFrame now now' st sid s) = srv_instanceID s"
  "SFrame_ServerInstanceId (ruleChangedFrame sid rv ds s) = srv_instanceID s"
  "SFrame_ServerInstanceId (unsupportedFrame sid s) = srv_instanceID s"
  "frame_revision (helloFrame ord now st st' sid app s) = Some (store_revision now st)"
  "frame_revision (heartbeatFrame now now' st sid s) = Some (store_revision now' st)"
  "frame_revision (ruleChangedFrame sid rv ds s) = Some rv"
  "hello_revision (helloFrame ord now st st' sid app s) = store_revision now st"
  by (simp_all add: helloFrame_def heartbeatFrame_def ruleChangedFrame_def unsupportedFrame_def
      frame_revision_def hello_revision_def)

lemma session_sel [simp]:
  "sess_sessionID (setRevision rv ss) = sess_sessionID ss"
  "sess_application (setRevision rv ss) = sess_application ss"
  "sess_lastRevision (setRevision rv ss) = rv"
  "sess_sessionID (session_set sid app ss) = sid"
  "sess_lastRevision (session_set sid app ss) = sess_lastRevision ss"
  "sess_application (session_set sid app ss) =
     (if TrimSpace app \<noteq> [] then TrimSpace app else sess_application ss)"
  by (simp_all add: setRevision_def session_set_def Let_def)

lemmas session_reads [simp] = session_snapshot_def session_revision_def

text \<open>The frame a receiver holds, and the revisions a client has acknowledged.\<close>

definition receiver_frames :: "receiver \<Rightarrow> ServerFrame list" where
  "receiver_frames r =
     (case r of Greeting f _ _ _ \<Rightarrow> [f] | Enqueue f _ \<Rightarrow> [f] | _ \<Rightarrow> [])"

lemma receiver_frames_simps [simp]:
  "receiver_frames Receiving = []" "receiver_frames Stopped = []"
  "receiver_frames (Greeting f a b ds) = [f]" "receiver_frames (Enqueue f nxt) = [f]"
  "receiver_frames (Comparing a b ds) = []" "receiver_frames (after_enqueue nxt) = []"
  by (simp_all add: receiver_frames_def after_enqueue_def split: option.split prod.split)

definition all_frames :: "'e Conn \<Rightarrow> ServerFrame list" where
  "all_frames c = conn_sent c @ conn_outbound c @ receiver_frames (conn_receiver c)"

fun acked_revisions :: "ClientFrame list \<Rightarrow> string list" where
  "acked_revisions [] = []"
| "acked_revisions (f # fs) =
     (case CFrame_Payload f of
        Some (ClientFrame_Ack ack) \<Rightarrow> CAck_Revision ack # acked_revisions fs
      | _ \<Rightarrow> acked_revisions fs)"

lemma acked_revisions_append [simp]:
  "acked_revisions (xs @ ys) = acked_revisions xs @ acked_revisions ys"
  by (induction xs) (auto split: option.split ClientFrame_Payload.split)

text \<open>The session ids a receiver or a loop still holds.\<close>

definition held_sessions :: "'e Conn \<Rightarrow> string list" where
  "held_sessions c =
     (case conn_receiver c of
        Greeting _ sid _ _ \<Rightarrow> [sid] | Enqueue _ (Some (sid, _)) \<Rightarrow> [sid]
      | Comparing sid _ _ \<Rightarrow> [sid] | _ \<Rightarrow> []) @
     (case conn_loop c of Check sid _ _ \<Rightarrow> [sid] | Push sid _ _ \<Rightarrow> [sid] | Select \<Rightarrow> [])"

definition revision_known :: "'e Conn \<Rightarrow> bool" where
  "revision_known c \<longleftrightarrow>
     sess_lastRevision (conn_session c) = [] \<or>
     sess_lastRevision (conn_session c) \<in> set (acked_revisions (conn_received c)) \<or>
     Some (sess_lastRevision (conn_session c)) \<in> frame_revision ` set (all_frames c)"

definition addressed :: "Server \<Rightarrow> 'e Conn \<Rightarrow> bool" where
  "addressed s c \<longleftrightarrow>
     (\<forall>f \<in> set (all_frames c). SFrame_ServerInstanceId f = srv_instanceID s \<and>
        SFrame_SessionId f \<in> CFrame_SessionId ` set (conn_received c)) \<and>
     set (held_sessions c) \<subseteq> CFrame_SessionId ` set (conn_received c) \<and>
     (sess_sessionID (conn_session c) = [] \<or>
      sess_sessionID (conn_session c) \<in> CFrame_SessionId ` set (conn_received c))"

text \<open>A built hello reports the revision that is recorded for it.\<close>

definition greeting_ok :: "'e Conn \<Rightarrow> bool" where
  "greeting_ok c \<longleftrightarrow>
     (\<forall>f a b ds. conn_receiver c = Greeting f a b ds \<longrightarrow> frame_revision f = Some (hello_revision f))"

definition conn_ok :: "Server \<Rightarrow> 'e Conn \<Rightarrow> bool" where
  "conn_ok s c \<longleftrightarrow>
     addressed s c \<and> greeting_ok c \<and> length (conn_outbound c) \<le> outbound_capacity \<and>
     (conn_cancelled c \<or> revision_known c) \<and>
     (conn_result c \<noteq> None \<longrightarrow> conn_cancelled c) \<and>
     (conn_recvDone c \<noteq> None \<longrightarrow> conn_receiver c = Stopped)"

lemmas conn_parts = conn_ok_def addressed_def greeting_ok_def revision_known_def all_frames_def
  held_sessions_def

lemma conn_ok_open: "conn_ok s open_session"
  by (simp add: conn_parts open_session_def new_streamSession_def outbound_capacity_def)

subsection \<open>Every step keeps the invariant\<close>

lemma receive_cases:
  assumes "receive ord v frame s ss = (r, ss')"
  obtains (hello) f sid app ds where "r = Greeting f sid app ds" "sid = CFrame_SessionId frame"
      "frame_revision f = Some (hello_revision f)" "SFrame_SessionId f = sid"
      "SFrame_ServerInstanceId f = srv_instanceID s" "ss' = session_set sid app ss"
    | (reply) f where "r = Enqueue f None" "SFrame_SessionId f = CFrame_SessionId frame"
      "SFrame_ServerInstanceId f = srv_instanceID s"
      "sess_lastRevision ss' = sess_lastRevision ss"
      "sess_sessionID ss' = CFrame_SessionId frame \<or> sess_sessionID ss' = sess_sessionID ss"
    | (ack) ack where "CFrame_Payload frame = Some (ClientFrame_Ack ack)" "r = Receiving"
      "ss' = (if CAck_Revision ack \<noteq> [] then setRevision (CAck_Revision ack) ss else ss)"
  using assms
  by (auto simp: receive_def Let_def changed_frame_def
      split: option.splits ClientFrame_Payload.splits list.splits)

lemma recv_step_ok:
  assumes "recv_step ord s c c'" and "conn_ok s c"
  shows "conn_ok s c'"
  using assms(1)
proof cases
  case (recv_frame v frame r ss)
  from recv_frame(3) show ?thesis
  proof (cases rule: receive_cases)
    case (hello f sid app ds)
    then show ?thesis using assms(2) recv_frame(1,2) by (auto simp: conn_parts)
  next
    case (reply f)
    then show ?thesis using assms(2) recv_frame(1,2) by (auto simp: conn_parts)
  next
    case (ack ack)
    then show ?thesis using assms(2) recv_frame(1,2) by (auto simp: conn_parts)
  qed
next
  case (compare sid app ds v)
  then show ?thesis using assms(2)
    by (auto simp: conn_parts compare_digests_def changed_frame_def split: list.splits)
next
  case (enqueue f nxt)
  then show ?thesis using assms(2)
    by (auto simp: conn_parts after_enqueue_def outbound_capacity_def split: option.splits)
qed (use assms(2) in \<open>auto simp: conn_parts\<close>)

lemma finish_frame [simp]:
  "conn_session (finish x c) = conn_session c" "conn_receiver (finish x c) = conn_receiver c"
  "conn_loop (finish x c) = conn_loop c" "conn_outbound (finish x c) = conn_outbound c"
  "conn_recvDone (finish x c) = conn_recvDone c" "conn_received (finish x c) = conn_received c"
  "conn_sent (finish x c) = conn_sent c" "conn_result (finish x c) = Some x"
  "conn_cancelled (finish x c)"
  by (simp_all add: finish_def)

lemma conn_ok_finish: "conn_ok s c \<Longrightarrow> conn_ok s (finish x c)"
  by (auto simp: conn_parts)

text \<open>Sending a frame that was already part of the connection, or one that is addressed to it.\<close>

lemma conn_ok_send:
  assumes "conn_ok s (c\<lparr>conn_sent := conn_sent c @ [f]\<rparr>)" and "conn_ok s c \<or> err = None \<or>
    conn_ok s (c\<lparr>conn_cancelled := True\<rparr>)"
  shows "conn_ok s (send err f c)"
  using assms by (cases err) (auto simp: send_def finish_def conn_parts)

lemma loop_step_ok:
  assumes "loop_step ord s c c'" and "conn_ok s c"
  shows "conn_ok s c'"
  using assms(1)
proof cases
  case (send_outbound f fs err)
  show ?thesis unfolding send_outbound(1)
    by (rule conn_ok_send) (use assms(2) send_outbound(3) in \<open>auto simp: conn_parts\<close>)
next
  case (push sid app snapshot err)
  show ?thesis unfolding push(1)
    by (rule conn_ok_send) (use assms(2) push(2) in \<open>auto simp: conn_parts\<close>)
next
  case (tick sid app err now now' st)
  have "conn_ok s (send err (heartbeatFrame now now' st sid s) c)" if "sid \<noteq> []"
    by (rule conn_ok_send) (use assms(2) tick(3) that in \<open>auto simp: conn_parts\<close>)
  with assms(2) show ?thesis unfolding tick(1) by simp
next
  case (check sid app snapshot)
  then show ?thesis using assms(2) by (auto simp: conn_parts)
next
  case (update sid app snapshot)
  then show ?thesis using assms(2) by (auto simp: conn_parts)
next
  case (receive_done e)
  then show ?thesis using assms(2) by (auto simp: conn_parts)
qed (use assms(2) in \<open>auto simp: conn_parts\<close>)

lemma conn_step_ok:
  assumes "conn_step ord s c c'" and "conn_ok s c"
  shows "conn_ok s c'"
  using assms(1)
proof cases
  case by_receiver
  then show ?thesis using assms(2) by (rule recv_step_ok)
next
  case by_loop
  from by_loop(2) assms(2) show ?thesis by (rule loop_step_ok)
next
  case cancelled
  then show ?thesis using assms(2) by (simp add: conn_parts)
qed

lemma reachable_ok: "conn_reachable ord s c \<Longrightarrow> conn_ok s c"
  by (induction rule: conn_reachable.induct) (auto intro: conn_ok_open conn_step_ok)

subsection \<open>What the client has said\<close>

text \<open>
  The session id of the last frame that sets one, and the last application that a frame names. A
  hello may name it in either of two places; a frame that names none leaves it as it was.
\<close>

definition session_frame :: "ClientFrame \<Rightarrow> bool" where
  "session_frame f \<longleftrightarrow>
     (case CFrame_Payload f of
        Some (ClientFrame_Hello _) \<Rightarrow> True | Some (ClientFrame_Heartbeat _) \<Rightarrow> True
      | Some (ClientFrame_RuleDigest _) \<Rightarrow> True | _ \<Rightarrow> False)"

definition frame_application :: "ClientFrame \<Rightarrow> string" where
  "frame_application f =
     (case CFrame_Payload f of
        Some (ClientFrame_Hello hello) \<Rightarrow> chooseString [CFrame_ApplicationCode f, CHello_ApplicationCode hello]
      | Some (ClientFrame_Heartbeat _) \<Rightarrow> TrimSpace (CFrame_ApplicationCode f)
      | Some (ClientFrame_RuleDigest _) \<Rightarrow> TrimSpace (CFrame_ApplicationCode f)
      | _ \<Rightarrow> [])"

definition client_session :: "ClientFrame list \<Rightarrow> string" where
  "client_session fs =
     (case rev (filter session_frame fs) of [] \<Rightarrow> [] | f # _ \<Rightarrow> CFrame_SessionId f)"

definition client_application :: "ClientFrame list \<Rightarrow> string" where
  "client_application fs =
     (case rev (filter (\<lambda>f. frame_application f \<noteq> []) fs) of [] \<Rightarrow> [] | f # _ \<Rightarrow> frame_application f)"

lemma client_snoc:
  "client_session (fs @ [f]) = (if session_frame f then CFrame_SessionId f else client_session fs)"
  "client_application (fs @ [f]) =
     (if frame_application f \<noteq> [] then frame_application f else client_application fs)"
  by (simp_all add: client_session_def client_application_def)

lemma receive_session:
  assumes "receive ord v frame s ss = (r, ss')"
  shows "sess_sessionID ss' = (if session_frame frame then CFrame_SessionId frame else sess_sessionID ss)"
    "sess_application ss' =
       (if frame_application frame \<noteq> [] then frame_application frame else sess_application ss)"
proof -
  show "sess_sessionID ss' = (if session_frame frame then CFrame_SessionId frame else sess_sessionID ss)"
    using assms by (auto simp: receive_def Let_def session_frame_def
        split: option.splits ClientFrame_Payload.splits list.splits if_splits)
  show "sess_application ss' =
       (if frame_application frame \<noteq> [] then frame_application frame else sess_application ss)"
    using assms by (auto simp: receive_def Let_def frame_application_def simp del: chooseString.simps
        split: option.splits ClientFrame_Payload.splits list.splits if_splits)
qed

text \<open>The session that the two goroutines share is what the client has said last.\<close>

definition follows_client :: "'e Conn \<Rightarrow> bool" where
  "follows_client c \<longleftrightarrow>
     sess_sessionID (conn_session c) = client_session (conn_received c) \<and>
     sess_application (conn_session c) = client_application (conn_received c)"

lemma follows_client_send [simp]:
  "follows_client (finish x c) = follows_client c" "follows_client (send err f c) = follows_client c"
  by (auto simp: follows_client_def send_def split: option.split)

lemma conn_step_follows:
  assumes "conn_step ord s c c'" and "follows_client c"
  shows "follows_client c'"
  using assms(1)
proof cases
  case by_receiver
  then show ?thesis
  proof cases
    case (recv_frame v frame r ss)
    then show ?thesis using assms(2) receive_session [OF recv_frame(3)] by (simp add: follows_client_def client_snoc)
  qed (use assms(2) in \<open>auto simp: follows_client_def\<close>)
next
  case by_loop
  from by_loop(2) show ?thesis
    by cases (use assms(2) in \<open>auto simp: follows_client_def send_def split: option.split\<close>)
next
  case cancelled
  then show ?thesis using assms(2) by (simp add: follows_client_def)
qed

lemma follows_client_open: "follows_client open_session"
  by (simp add: follows_client_def open_session_def new_streamSession_def client_session_def client_application_def)

lemma reachable_follows: "conn_reachable ord s c \<Longrightarrow> follows_client c"
  by (induction rule: conn_reachable.induct) (auto intro: conn_step_follows follows_client_open)

subsection \<open>Sample connections\<close>

definition stream_server :: Server where "stream_server = sample_server ''i''"

definition sample_view :: "int64 \<Rightarrow> unit view" where
  "sample_view v =
     (let st = \<lparr>store_current = Some \<lparr>snap_Version = v, snap_Checksum = ''c'', snap_GeneratedAt = 0,
                   snap_Apps = fmempty\<rparr>,
                store_cache = None, store_nextSubscriber = 0, store_subscribers = fmempty\<rparr> in
      \<lparr>view_store = st, view_store' = st, view_now = 0, view_now' = 0\<rparr>)"

lemma sample_view_sel:
  "view_store' (sample_view v) = view_store (sample_view v)"
  "store_revision now (view_store (sample_view v)) = FormatInt v"
  "digests ord (view_store (sample_view v)) app = []"
  "changedDigests ord (view_store (sample_view v)) app [] = []"
  by (simp_all add: sample_view_def Let_def store_revision_def Store_Snapshot_def Snapshot_Clone_def
      digests_def changedDigests_def Rules_def)

definition sample_hello :: ClientFrame where
  "sample_hello =
     \<lparr>CFrame_SessionId = ''s'', CFrame_ClientId = ''c'', CFrame_ApplicationCode = ''a'',
      CFrame_Payload = Some (ClientFrame_Hello
        \<lparr>CHello_ProtocolVersion = [], CHello_SdkVersion = [], CHello_ApplicationCode = [],
         CHello_ClientId = [], CHello_SelectedInstanceId = [], CHello_RuleDigests = []\<rparr>)\<rparr>"

definition sample_greeting :: "(string fset \<Rightarrow> string list) \<Rightarrow> Server \<Rightarrow> int64 \<Rightarrow> ServerFrame" where
  "sample_greeting ord s v =
     helloFrame ord 0 (view_store (sample_view v)) (view_store (sample_view v)) ''s'' ''a'' s"

text \<open>The connection once the client's hello was answered, and the answer still queued.\<close>

definition sample_conn :: "(string fset \<Rightarrow> string list) \<Rightarrow> Server \<Rightarrow> int64 \<Rightarrow> unit Conn" where
  "sample_conn ord s v =
     open_session\<lparr>conn_session := \<lparr>sess_sessionID = ''s'', sess_application = ''a'',
        sess_lastRevision = FormatInt v\<rparr>,
      conn_outbound := [sample_greeting ord s v], conn_received := [sample_hello]\<rparr>"

lemma choose_a: "chooseString [''a'', []] = ''a''" "TrimSpace ''a'' = ''a''"
  by code_simp+

lemma sample_receive:
  "receive ord (sample_view v) sample_hello s ss =
     (Greeting (sample_greeting ord s v) ''s'' ''a'' [], session_set ''s'' ''a'' ss)"
  by (simp add: receive_def sample_hello_def Let_def choose_a sample_greeting_def sample_view_sel)
    (simp add: sample_view_def Let_def)

lemma sample_conn_reachable: "conn_reachable ord s (sample_conn ord s v)"
proof -
  let ?hello = "sample_greeting ord s v"
  let ?ss = "session_set ''s'' ''a'' new_streamSession"
  let ?c1 = "open_session\<lparr>conn_receiver := Greeting ?hello ''s'' ''a'' [], conn_session := ?ss,
    conn_received := [sample_hello]\<rparr> :: unit Conn"
  let ?c2 = "?c1\<lparr>conn_receiver := Enqueue ?hello (Some (''s'', ''a'', [])),
    conn_session := setRevision (FormatInt v) ?ss\<rparr>"
  let ?c3 = "?c2\<lparr>conn_receiver := Comparing ''s'' ''a'' [], conn_outbound := [?hello]\<rparr>"
  have s1: "conn_step ord s open_session ?c1"
    using recv_step.recv_frame [where c = "open_session :: unit Conn", OF _ sample_receive]
    by (intro conn_step.by_receiver) (simp add: open_session_def)
  have s2: "conn_step ord s ?c1 ?c2"
    using recv_step.greet [where c = ?c1, of ?hello "''s''" "''a''" "[]" ord s]
    by (intro conn_step.by_receiver) (simp add: sample_greeting_def sample_view_sel)
  have s3: "conn_step ord s ?c2 ?c3"
    using recv_step.enqueue [where c = ?c2, of ?hello "Some (''s'', ''a'', [])" ord s]
    by (intro conn_step.by_receiver) (simp add: open_session_def outbound_capacity_def after_enqueue_def)
  have "recv_step ord s ?c3 (?c3\<lparr>conn_receiver :=
      compare_digests ord (sample_view v) ''s'' ''a'' [] s\<rparr>)"
    by (rule recv_step.compare) simp
  moreover have "?c3\<lparr>conn_receiver := compare_digests ord (sample_view v) ''s'' ''a'' [] s\<rparr> =
      sample_conn ord s v"
    by (simp add: compare_digests_def sample_view_sel sample_conn_def open_session_def
        new_streamSession_def session_set_def setRevision_def choose_a)
  ultimately have s4: "conn_step ord s ?c3 (sample_conn ord s v)"
    by (simp add: conn_step.by_receiver)
  show ?thesis
    by (rule conn_reachable.opened [THEN conn_reachable.stepped, OF s1, THEN conn_reachable.stepped, OF s2,
        THEN conn_reachable.stepped, OF s3, THEN conn_reachable.stepped, OF s4])
qed

subsection \<open>Properties\<close>

text \<open>C13: on a stream that was not cancelled, an update of the rules is withheld from a client only
  if the last frame of the client that sets the session has an empty session id, or no frame of the
  client has named an application, or the client has been sent the update's revision, is about to be
  (the frame is queued), or has acknowledged it itself.\<close>

theorem withheld_revision_is_known:
  assumes "conn_reachable ord s c" and "\<not> conn_cancelled c"
    and "ruleChangedFrameForSession ord snapshot s (conn_session c) = (None, ss)"
  shows "client_session (conn_received c) = [] \<or> client_application (conn_received c) = [] \<or>
    FormatInt (snap_Version snapshot) \<in> set (acked_revisions (conn_received c)) \<or>
    (\<exists>f \<in> set (all_frames c). frame_revision f = Some (FormatInt (snap_Version snapshot)))"
proof (cases "client_session (conn_received c) = [] \<or> client_application (conn_received c) = []")
  case False
  then have "FormatInt (snap_Version snapshot) = sess_lastRevision (conn_session c)"
    using assms(3) reachable_follows [OF assms(1)]
    by (auto simp: ruleChangedFrameForSession_def Let_def follows_client_def split: if_splits)
  moreover have "revision_known c" using reachable_ok [OF assms(1)] assms(2) by (simp add: conn_ok_def)
  ultimately show ?thesis by (force simp: revision_known_def)
qed blast

lemma withheld_revision_is_known_witness:
  "FormatInt 7 \<in> set (acked_revisions (conn_received (sample_conn sample_ord stream_server 7))) \<or>
    (\<exists>f \<in> set (all_frames (sample_conn sample_ord stream_server 7)). frame_revision f = Some (FormatInt 7))"
proof -
  have "client_session [sample_hello] = ''s''" "client_application [sample_hello] = ''a''"
    using choose_a by (simp_all add: client_session_def client_application_def session_frame_def
        frame_application_def sample_hello_def)
  then show ?thesis
    using withheld_revision_is_known [OF sample_conn_reachable [of sample_ord stream_server 7],
        where snapshot = "\<lparr>snap_Version = 7, snap_Checksum = [], snap_GeneratedAt = 0, snap_Apps = fmempty\<rparr>"]
    by (simp add: sample_conn_def open_session_def ruleChangedFrameForSession_def Let_def)
qed

text \<open>C20: every frame a client is sent names this server's instance and a session id that the
  client itself used on this stream.\<close>

theorem frames_stay_in_their_session:
  assumes "conn_reachable ord s c"
  shows "list_all (\<lambda>f. SFrame_ServerInstanceId f = srv_instanceID s \<and>
    SFrame_SessionId f \<in> CFrame_SessionId ` set (conn_received c)) (conn_sent c @ conn_outbound c)"
  using reachable_ok [OF assms] by (auto simp: conn_parts list_all_iff)

lemma frames_stay_in_their_session_witness:
  "list_all (\<lambda>f. SFrame_ServerInstanceId f = srv_instanceID stream_server \<and>
      SFrame_SessionId f \<in> {''s''}) [sample_greeting sample_ord stream_server 7]"
  using frames_stay_in_their_session [OF sample_conn_reachable [of sample_ord stream_server 7]]
  by (simp add: sample_conn_def open_session_def sample_hello_def)

text \<open>The updates that the loop takes off the store's channel, one after the other.\<close>

fun push_updates ::
    "(string fset \<Rightarrow> string list) \<Rightarrow> Server \<Rightarrow> Snapshot list \<Rightarrow> streamSession \<Rightarrow>
     ServerFrame list \<times> streamSession" where
  "push_updates ord s [] ss = ([], ss)"
| "push_updates ord s (snapshot # rest) ss =
     (case ruleChangedFrameForSession ord snapshot s ss of
        (f, ss') \<Rightarrow>
          (case push_updates ord s rest ss' of
             (fs, ss'') \<Rightarrow> (case f of None \<Rightarrow> fs | Some f \<Rightarrow> f # fs, ss'')))"

text \<open>While a session is open, the revisions it is pushed are those of the updates without
  repetition: one frame for each change of the version, none for a re-published snapshot.\<close>

theorem one_push_per_version:
  assumes "sess_sessionID ss \<noteq> []" and "sess_application ss \<noteq> []"
  shows "map frame_revision (fst (push_updates ord s snapshots ss)) =
    map Some (tl (remdups_adj (sess_lastRevision ss # map (\<lambda>x. FormatInt (snap_Version x)) snapshots)))"
  using assms
proof (induction snapshots arbitrary: ss)
  case (Cons snapshot rest)
  let ?rv = "FormatInt (snap_Version snapshot)"
  show ?case
  proof (cases "?rv = sess_lastRevision ss")
    case True
    then show ?thesis using Cons
      by (simp add: ruleChangedFrameForSession_def Let_def split: prod.split)
  next
    case False
    obtain fs ss' where push: "push_updates ord s rest (setRevision ?rv ss) = (fs, ss')"
      by fastforce
    obtain rs where rs: "remdups_adj (?rv # map (\<lambda>x. FormatInt (snap_Version x)) rest) = ?rv # rs"
      by (metis remdups_adj_Cons_alt)
    show ?thesis using Cons.IH [of "setRevision ?rv ss"] Cons.prems False
      by (simp add: ruleChangedFrameForSession_def Let_def push rs)
  qed
qed simp

lemma one_push_per_version_witness:
  "map frame_revision (fst (push_updates sample_ord s
      (map (\<lambda>v. \<lparr>snap_Version = v, snap_Checksum = [], snap_GeneratedAt = 0, snap_Apps = fmempty\<rparr>) [1, 2, 2, 3])
      \<lparr>sess_sessionID = ''s'', sess_application = ''a'', sess_lastRevision = FormatInt 1\<rparr>)) =
    [Some (FormatInt 2), Some (FormatInt 3)]"
  by (subst one_push_per_version) simp_all

lemma loop_pushes_update_steps:
  assumes "conn_loop c = Select" and "conn_result c = None"
    and "ruleChangedFrameForSession ord snapshot s (conn_session c) = (f, ss)"
  shows "(conn_step ord s)\<^sup>*\<^sup>* c (c\<lparr>conn_session := ss,
    conn_sent := conn_sent c @ (case f of None \<Rightarrow> [] | Some f \<Rightarrow> [f])\<rparr>)"
proof -
  obtain sid app where snap: "session_snapshot (conn_session c) = (sid, app)" by simp
  let ?rv = "FormatInt (snap_Version snapshot)"
  let ?c1 = "c\<lparr>conn_loop := Check sid app snapshot\<rparr>"
  have u: "conn_step ord s c (if sid = [] \<or> app = [] then c else ?c1)"
    by (rule conn_step.by_loop [OF assms(2) loop_step.update [OF assms(1) snap]])
  consider (closed) "sid = [] \<or> app = []" | (known) "sid \<noteq> []" "app \<noteq> []" "?rv = session_revision (conn_session c)"
    | (new) "sid \<noteq> []" "app \<noteq> []" "?rv \<noteq> session_revision (conn_session c)" by blast
  then show ?thesis
  proof cases
    case closed
    then have "f = None" "ss = conn_session c"
      using assms(3) snap by (auto simp: ruleChangedFrameForSession_def)
    then show ?thesis by simp
  next
    case known
    then have "f = None" "ss = conn_session c"
      using assms(3) snap by (auto simp: ruleChangedFrameForSession_def)
    then show ?thesis by simp
  next
    case new
    let ?c2 = "c\<lparr>conn_loop := Push sid app snapshot\<rparr>"
    have f: "f = Some (ruleChangedFrame sid ?rv (digestsFromSnapshot ord snapshot app) s)"
      "ss = setRevision ?rv (conn_session c)"
      using assms(3) snap new by (auto simp: ruleChangedFrameForSession_def Let_def)
    have "conn_step ord s ?c1 ?c2"
      using loop_step.check [where c = ?c1, of sid app snapshot ord s] new
      by (intro conn_step.by_loop) (simp_all add: assms(2))
    moreover have "conn_step ord s ?c2 (c\<lparr>conn_loop := Select, conn_session := ss,
        conn_sent := conn_sent c @ [the f]\<rparr>)"
      using loop_step.push [where c = ?c2 and err = None, of sid app snapshot ord s]
      by (intro conn_step.by_loop) (simp_all add: assms(2) send_def f)
    moreover have "c\<lparr>conn_loop := Select, conn_session := ss, conn_sent := conn_sent c @ [the f]\<rparr> =
        c\<lparr>conn_session := ss, conn_sent := conn_sent c @ [the f]\<rparr>"
      using assms(1) by simp
    moreover have "conn_step ord s c ?c1" using u new by simp
    ultimately have "(conn_step ord s)\<^sup>*\<^sup>* c (c\<lparr>conn_session := ss, conn_sent := conn_sent c @ [the f]\<rparr>)"
      by (metis converse_rtranclp_into_rtranclp rtranclp.rtrancl_refl)
    then show ?thesis by (simp add: f)
  qed
qed

lemma reachable_steps:
  "(conn_step ord s)\<^sup>*\<^sup>* c c' \<Longrightarrow> conn_reachable ord s c \<Longrightarrow> conn_reachable ord s c'"
  by (induction rule: rtranclp_induct) (auto intro: conn_reachable.stepped)

definition pushed_frame ::
    "(string fset \<Rightarrow> string list) \<Rightarrow> Snapshot \<Rightarrow> Server \<Rightarrow> streamSession \<Rightarrow> ServerFrame" where
  "pushed_frame ord snapshot s ss =
     \<lparr>SFrame_SessionId = sess_sessionID ss, SFrame_ServerInstanceId = srv_instanceID s,
      SFrame_Payload = Some (ServerFrame_RuleChanged
        \<lparr>SChanged_GlobalRuleRevision = FormatInt (snap_Version snapshot),
         SChanged_ChangedRules = digestsFromSnapshot ord snapshot (sess_application ss),
         SChanged_RequiresClientResync = True\<rparr>)\<rparr>"

definition after_push ::
    "(string fset \<Rightarrow> string list) \<Rightarrow> Snapshot \<Rightarrow> Server \<Rightarrow> 'e Conn \<Rightarrow> 'e Conn" where
  "after_push ord snapshot s c =
     c\<lparr>conn_session := (conn_session c)\<lparr>sess_lastRevision := FormatInt (snap_Version snapshot)\<rparr>,
       conn_sent := conn_sent c @ [pushed_frame ord snapshot s (conn_session c)]\<rparr>"

lemma loop_from_check:
  assumes "conn_loop c = Check sid app snapshot"
  shows "loop_step ord s c c' \<longleftrightarrow>
    c' = c\<lparr>conn_loop := (if FormatInt (snap_Version snapshot) = sess_lastRevision (conn_session c) then Select
       else Push sid app snapshot)\<rparr>"
  using assms loop_step.check [OF assms, of ord s] by (auto elim: loop_stepE)

lemma loop_from_push:
  assumes "conn_loop c = Push sid app snapshot"
  shows "loop_step ord s c c' \<longleftrightarrow>
    (\<exists>err. c' = send err
      (ruleChangedFrame sid (FormatInt (snap_Version snapshot)) (digestsFromSnapshot ord snapshot app) s)
      (c\<lparr>conn_loop := Select, conn_session := setRevision (FormatInt (snap_Version snapshot)) (conn_session c)\<rparr>))"
proof
  assume "loop_step ord s c c'"
  then show "\<exists>err. c' = send err
      (ruleChangedFrame sid (FormatInt (snap_Version snapshot)) (digestsFromSnapshot ord snapshot app) s)
      (c\<lparr>conn_loop := Select, conn_session := setRevision (FormatInt (snap_Version snapshot)) (conn_session c)\<rparr>)"
    using assms by cases auto
qed (use loop_step.push [OF assms] in blast)

text \<open>C21: the loop of an open session takes an update of the rules off the channel. If its revision
  is the recorded one, it goes back to waiting and nothing changes. Otherwise, as long as the receiving
  goroutine takes no step in between, its next two steps record the revision and send one frame, with
  the session's id, this server's instance, the revision and the digests of the update's rules for the
  session's application, or end the stream with the transport's error; and the two steps can be
  taken.\<close>

theorem loop_pushes_update:
  assumes "conn_loop c = Select" and "conn_result c = None"
    and "sess_sessionID (conn_session c) = sid" and "sid \<noteq> []"
    and "sess_application (conn_session c) = app" and "app \<noteq> []"
    and "c1 = c\<lparr>conn_loop := Check sid app snapshot\<rparr>"
  shows "conn_step ord s c c1 \<and>
    (if FormatInt (snap_Version snapshot) = sess_lastRevision (conn_session c)
     then \<forall>c2. loop_step ord s c1 c2 \<longleftrightarrow> c2 = c
     else (\<forall>c2 c3. loop_step ord s c1 c2 \<longrightarrow> loop_step ord s c2 c3 \<longrightarrow>
         c3 = after_push ord snapshot s c \<or>
         (\<exists>e. conn_result c3 = Some (Some (Transport e)) \<and> conn_sent c3 = conn_sent c)) \<and>
       (conn_step ord s)\<^sup>*\<^sup>* c1 (after_push ord snapshot s c))"
proof -
  let ?rv = "FormatInt (snap_Version snapshot)"
  let ?c2 = "c\<lparr>conn_loop := Push sid app snapshot\<rparr>"
  have c1: "conn_loop c1 = Check sid app snapshot" "conn_session c1 = conn_session c" "c1\<lparr>conn_loop := Select\<rparr> = c"
      "c1\<lparr>conn_loop := Push sid app snapshot\<rparr> = ?c2"
    using assms(1,7) by simp_all
  have same: "c\<lparr>conn_loop := Select, conn_session := x\<rparr> = c\<lparr>conn_session := x\<rparr>" for x
    using assms(1) by (cases c) simp
  have "conn_step ord s c c1"
    using conn_step.by_loop [OF assms(2) loop_step.update [OF assms(1), of sid app ord s snapshot]] assms(3-7) by simp
  moreover have "loop_step ord s c1 c2 \<longleftrightarrow> c2 = c" if "?rv = sess_lastRevision (conn_session c)" for c2
    using that by (simp add: loop_from_check [OF c1(1)] c1)
  moreover have check: "loop_step ord s c1 c2 \<longleftrightarrow> c2 = ?c2" if "?rv \<noteq> sess_lastRevision (conn_session c)" for c2
    using that by (simp add: loop_from_check [OF c1(1)] c1)
  moreover have push: "loop_step ord s ?c2 c3 \<longleftrightarrow> (\<exists>err. c3 = send err (pushed_frame ord snapshot s (conn_session c))
      (c\<lparr>conn_session := (conn_session c)\<lparr>sess_lastRevision := ?rv\<rparr>\<rparr>))" for c3
    using assms(3,5)
    by (simp add: same loop_from_push [of ?c2 sid app snapshot] pushed_frame_def ruleChangedFrame_def setRevision_def)
  moreover have sent: "send None (pushed_frame ord snapshot s (conn_session c))
      (c\<lparr>conn_session := (conn_session c)\<lparr>sess_lastRevision := ?rv\<rparr>\<rparr>) = after_push ord snapshot s c"
    by (simp add: send_def after_push_def)
  moreover have "(conn_step ord s)\<^sup>*\<^sup>* c1 (after_push ord snapshot s c)"
    if new: "?rv \<noteq> sess_lastRevision (conn_session c)"
  proof -
    have "conn_step ord s c1 ?c2"
      using assms(2,7) check [OF new] by (intro conn_step.by_loop) simp_all
    moreover have "conn_step ord s ?c2 (after_push ord snapshot s c)"
      using assms(2) push sent by (intro conn_step.by_loop) (simp, metis)
    ultimately show ?thesis by (metis converse_rtranclp_into_rtranclp rtranclp.rtrancl_refl)
  qed
  ultimately show ?thesis by (auto simp: send_def finish_def after_push_def split: option.splits)
qed

lemma loop_pushes_update_witness:
  "(conn_step sample_ord stream_server)\<^sup>*\<^sup>*
     ((sample_conn sample_ord stream_server 7)\<lparr>conn_loop := Check ''s'' ''a'' (EmptySnapshot 0)\<rparr>)
     (after_push sample_ord (EmptySnapshot 0) stream_server (sample_conn sample_ord stream_server 7)) \<and>
   map frame_revision (conn_sent (after_push sample_ord (EmptySnapshot 0) stream_server
     (sample_conn sample_ord stream_server 7))) = [Some (FormatInt 0)]"
  using loop_pushes_update [of "sample_conn sample_ord stream_server 7" "''s''" "''a''"
      "(sample_conn sample_ord stream_server 7)\<lparr>conn_loop := Check ''s'' ''a'' (EmptySnapshot 0)\<rparr>"
      "EmptySnapshot 0" sample_ord stream_server]
  by (simp add: sample_conn_def open_session_def EmptySnapshot_def after_push_def pushed_frame_def frame_revision_def)

text \<open>C39: frames can reach a client in an order its revisions do not have: an update that is
  pushed while the answer to a hello is still queued overtakes it, and the client, whose last
  frame names the older revision, is pushed nothing more for the newer one.\<close>

theorem queued_hello_overtaken:
  "\<exists>c :: unit Conn. conn_reachable ord s c \<and> conn_received c = [sample_hello] \<and>
     map frame_revision (conn_sent c) = [Some (FormatInt 2), Some (FormatInt 1)] \<and>
     conn_outbound c = [] \<and> \<not> conn_cancelled c \<and>
     fst (ruleChangedFrameForSession ord
       \<lparr>snap_Version = 2, snap_Checksum = ''d'', snap_GeneratedAt = 0, snap_Apps = fmempty\<rparr> s (conn_session c)) = None"
proof -
  let ?v2 = "\<lparr>snap_Version = 2, snap_Checksum = ''d'', snap_GeneratedAt = 0, snap_Apps = fmempty\<rparr>"
  let ?c0 = "sample_conn ord s 1"
  let ?push = "ruleChangedFrame ''s'' (FormatInt 2) (digestsFromSnapshot ord ?v2 ''a'') s"
  let ?c1 = "?c0\<lparr>conn_session := setRevision (FormatInt 2) (conn_session ?c0), conn_sent := [?push]\<rparr>"
  let ?c2 = "?c1\<lparr>conn_outbound := [], conn_sent := [?push, sample_greeting ord s 1]\<rparr>"
  have fields: "conn_loop ?c0 = Select" "conn_result ?c0 = None" "conn_sent ?c0 = []"
    "conn_session ?c0 = \<lparr>sess_sessionID = ''s'', sess_application = ''a'', sess_lastRevision = FormatInt 1\<rparr>"
    "conn_outbound ?c0 = [sample_greeting ord s 1]" "conn_cancelled ?c0 = False"
    "conn_received ?c0 = [sample_hello]"
    by (simp_all add: sample_conn_def open_session_def)
  have "(conn_step ord s)\<^sup>*\<^sup>* ?c0 ?c1"
    using loop_pushes_update_steps [OF fields(1,2), of ord ?v2 s]
    by (simp add: ruleChangedFrameForSession_def fields(3,4) Let_def)
  then have r1: "conn_reachable ord s ?c1"
    using sample_conn_reachable [of ord s 1] by (rule reachable_steps)
  have "conn_step ord s ?c1 ?c2"
    using loop_step.send_outbound [where c = ?c1 and err = None, of "sample_greeting ord s 1" "[]" ord s]
    by (intro conn_step.by_loop) (simp_all add: fields send_def)
  with r1 have "conn_reachable ord s ?c2" by (rule conn_reachable.stepped)
  moreover have "frame_revision (sample_greeting ord s 1) = Some (FormatInt 1)"
    by (simp add: sample_greeting_def sample_view_sel)
  ultimately show ?thesis
    by (intro exI [of _ ?c2]) (simp add: fields ruleChangedFrameForSession_def Let_def)
qed

text \<open>C22: no receiving goroutine outlives its stream: once the loop has returned, the goroutine
  is never blocked on the outbound channel, and it stops after at most two more steps when
  the stream reports its end.\<close>

theorem receiver_stops_after_the_loop:
  assumes "conn_reachable ord s c" and "conn_result c \<noteq> None"
  shows "\<exists>c'. (recv_step ord s)\<^sup>*\<^sup>* c c' \<and> conn_receiver c' = Stopped"
proof -
  have cancelled: "conn_cancelled c" using reachable_ok [OF assms(1)] assms(2) by (simp add: conn_ok_def)
  have stop: "\<exists>c'. (recv_step ord s)\<^sup>*\<^sup>* c1 c' \<and> conn_receiver c' = Stopped"
    if "conn_receiver c1 = Receiving \<or> (\<exists>f nxt. conn_receiver c1 = Enqueue f nxt)" "conn_cancelled c1" for c1
  proof -
    have "\<exists>c'. recv_step ord s c1 c' \<and> conn_receiver c' = Stopped"
      using that recv_step.recv_error [of c1 ord s ContextDone] recv_step.abandon [of c1 _ _ ord s]
      by fastforce
    then show ?thesis by blast
  qed
  show ?thesis
  proof (cases "conn_receiver c")
    case (Greeting f a b ds)
    let ?c1 = "c\<lparr>conn_receiver := Enqueue f (Some (a, b, ds)),
      conn_session := setRevision (hello_revision f) (conn_session c)\<rparr>"
    have "recv_step ord s c ?c1" by (rule recv_step.greet [OF Greeting])
    moreover have "\<exists>c'. (recv_step ord s)\<^sup>*\<^sup>* ?c1 c' \<and> conn_receiver c' = Stopped"
      by (rule stop) (simp_all add: cancelled)
    ultimately show ?thesis by (blast intro: converse_rtranclp_into_rtranclp)
  next
    case (Comparing a b ds)
    let ?c1 = "c\<lparr>conn_receiver := compare_digests ord (sample_view 0) a b ds s\<rparr>"
    have "recv_step ord s c ?c1" by (rule recv_step.compare [OF Comparing])
    moreover have "\<exists>c'. (recv_step ord s)\<^sup>*\<^sup>* ?c1 c' \<and> conn_receiver c' = Stopped"
      by (rule stop) (simp_all add: cancelled compare_digests_def split: list.split)
    ultimately show ?thesis by (blast intro: converse_rtranclp_into_rtranclp)
  qed (use stop [of c] cancelled in auto)
qed

lemma receiver_stops_after_the_loop_witness:
  "\<exists>c'. (recv_step sample_ord stream_server)\<^sup>*\<^sup>* (finish None (sample_conn sample_ord stream_server 1)) c' \<and> conn_receiver c' = Stopped"
proof (rule receiver_stops_after_the_loop)
  have "conn_loop (sample_conn sample_ord stream_server 1) = Select" "conn_result (sample_conn sample_ord stream_server 1) = None"
    by (simp_all add: sample_conn_def open_session_def)
  then have "conn_step sample_ord stream_server (sample_conn sample_ord stream_server 1) (finish None (sample_conn sample_ord stream_server 1))"
    by (blast intro: conn_step.by_loop loop_step.updates_closed)
  then show "conn_reachable sample_ord stream_server (finish None (sample_conn sample_ord stream_server 1))"
    by (rule conn_reachable.stepped [OF sample_conn_reachable])
qed simp

text \<open>Every frame that is not an acknowledgement is answered, under the session id it
  carried: with the hello of its revision, a heartbeat, the changed rules or an error.\<close>

theorem every_frame_is_answered:
  "(\<exists>f. fst (receive ord v frame s ss) \<in> {Enqueue f None} \<union> range (\<lambda>(a, b, ds). Greeting f a b ds) \<and>
      SFrame_SessionId f = CFrame_SessionId frame \<and> SFrame_ServerInstanceId f = srv_instanceID s)
   \<longleftrightarrow> \<not> (\<exists>ack. CFrame_Payload frame = Some (ClientFrame_Ack ack))"
  by (auto simp: receive_def Let_def changed_frame_def image_def
      split: option.splits ClientFrame_Payload.splits list.splits)

end
