(* ===== verification/Spec2Isabelle.thy ===== *)
theory Spec2Isabelle
  imports Cluster Config ConfigLoad ConfigProperties GoFloat GoSort GoStrconv GoStrings GoTime
    GoTimeFormat GoTimeText GrpcFacts GrpcProperties GrpcServer Json JsonCompact JsonGo
    JsonStrings JsonStruct JsonTexts MetricsProperties Notifier Prelude Proto QuotaEngine
    QuotaLimits QuotaProperties Registry RuleBuilder RuleContents RuleExchange RuleModel
    RuleProperties RuleRefinement RuleStore RuntimeClient RuntimeMessages RuntimeProperties
    SHA256 ServiceRestart Session SessionProperties SnapshotCache SnapshotCodec Starter
    StarterProperties Syncer SyncerProperties SyncerSamples Topology TopologyInstruments
    TopologyManager TopologyMetrics TopologyOwners TopologyProperties
begin

text \<open>
  A verification of the distributed quota service of this repository.

  \<^bold>\<open>The program.\<close> Clients ask the service to acquire quota under the rate limit rules of
  their application. The rules come from a control plane with a runtime API: the syncer fetches them as whole
  snapshots or as deltas and puts them into the rule store, from which the quota engine and the gRPC server
  read. The server is one of several; a topology made from the instances that a discovery service lists decides
  by rendezvous hashing which of them owns a quota key, and the others send a client there. A client also holds
  a session, over which it is told that rules have changed. The starter wires these parts together.

  \<^bold>\<open>Theories and sources\<close> (files under \<open>src/internal/\<close> unless another path is
  named).

  \<^item> \<open>Prelude\<close>: the collections \<open>frame_simps\<close> and others, the widths of
    integers, maps in the order Go visits them (an argument \<open>ord\<close>), results and folds that stop at
    an error.
  \<^item> \<open>GoStrings\<close>, \<open>GoStrconv\<close>, \<open>GoTime\<close>, \<open>GoTimeText\<close>,
    \<open>GoSort\<close>, \<open>GoFloat\<close>, \<open>SHA256\<close>, \<open>Json\<close>,
    \<open>JsonGo\<close>, \<open>JsonStruct\<close>, and for the other direction \<open>GoTimeFormat\<close>,
    \<open>JsonStrings\<close>, \<open>JsonTexts\<close>, \<open>JsonCompact\<close>: what the code uses of the
    standard library of Go, with strings as lists of bytes, 64-bit integers that wrap around, float64 by its
    rounding, and JSON as \<open>encoding/json\<close> reads it into raw messages and structs and writes it.
  \<^item> \<open>RuleModel\<close>, \<open>RuleBuilder\<close>: \<open>rulestore/model.go\<close> and
    \<open>rulestore/builder.go\<close>. A snapshot is a record of finite maps; \<open>BuildSnapshot\<close>,
    \<open>ApplyChanges\<close> and every helper return the error of the code or the new value.
    \<open>RuleContents\<close> has the invariant of snapshots, \<open>RuleRefinement\<close> the abstract
    state, a map of published configurations, and its simulation; \<open>RuleProperties\<close> has the
    properties.
  \<^item> \<open>RuleStore\<close>: \<open>rulestore/store.go\<close>, one call at a time, with the locales
    \<open>rule_source\<close> and \<open>rule_store\<close>; \<open>Notifier\<close> is the same file as a step
    relation of goroutines. The functions of the store take the codec of snapshots as an argument.
    \<open>SnapshotCodec\<close> is that codec, \<open>json.Marshal\<close> and \<open>json.Unmarshal\<close> of
    the structs of \<open>model.go\<close>, and \<open>SnapshotCache\<close> gives it to the store.
  \<^item> \<open>Proto\<close>: the messages of \<open>src/api/stellpulsar/v1/stellpulsar.pb.go\<close> and
    their getters.
  \<^item> \<open>QuotaEngine\<close>, \<open>QuotaLimits\<close>, \<open>QuotaProperties\<close>:
    \<open>quota/engine.go\<close>; the engine's buckets are a finite map, \<open>Acquire\<close> one step, and
    a run a list of calls.
  \<^item> \<open>Config\<close>, \<open>ConfigLoad\<close>, \<open>ConfigProperties\<close>:
    \<open>config/config.go\<close>.
  \<^item> \<open>Registry\<close>: \<open>registry/registry.go\<close>, with the locale
    \<open>instance_provider\<close> for what both kinds of provider promise.
  \<^item> \<open>Topology\<close>, \<open>TopologyOwners\<close>, \<open>TopologyManager\<close>,
    \<open>TopologyProperties\<close>: \<open>topology/topology.go\<close>; \<open>TopologyMetrics\<close>,
    \<open>TopologyInstruments\<close>: \<open>topology/metrics.go\<close>, whose effects are a list of
    measurements; \<open>MetricsProperties\<close> says what they tell of an answer of the manager.
  \<^item> \<open>GrpcServer\<close>, \<open>GrpcFacts\<close>, \<open>GrpcProperties\<close>: the unary calls
    of \<open>grpcapi/server.go\<close>; \<open>Session\<close>, \<open>SessionProperties\<close>: its
    bidirectional stream, as the steps of the two goroutines of a connection; \<open>RuleExchange\<close>: the
    calls about rules put together.
  \<^item> \<open>Cluster\<close>: several servers with one topology, as a sequence of their calls.
  \<^item> \<open>RuntimeMessages\<close>, \<open>RuntimeClient\<close>, \<open>RuntimeProperties\<close>:
    \<open>runtimeapi/client.go\<close>; \<open>Syncer\<close>, \<open>SyncerSamples\<close>,
    \<open>SyncerProperties\<close>: \<open>runtimeapi/syncer.go\<close>, whose watch is a step relation over
    the store, the events that wait and the stream. The locale \<open>store_invariant\<close> has what all its
    operations preserve.
  \<^item> \<open>Starter\<close>, \<open>StarterProperties\<close>: \<open>app/starter.go\<close>;
    \<open>service_step\<close> puts the watch, the store's subscriptions and the provider's updates beside each
    other, with the subscriptions of sessions numbered by the store's counter, and \<open>service_run\<close>
    counts its steps. \<open>ServiceRestart\<close> composes two processes, one that wrote the cache and one that starts
    from it.

  \<^bold>\<open>What is shown.\<close> The rules: a delta leads to the rules a full synchronisation would give
  (\<open>delta_equals_full_sync\<close>), snapshots are well formed, an operation fails exactly for the reasons
  named, and the store serves the last snapshot to every lookup and subscriber. The synchronisation: what a
  success stored is of one version and follows the API, a failure leaves the store as it was, retries end, and
  every interleaving keeps the store well formed. The cache: whatever was built can be written, and a new
  process that cannot reach the control plane serves what an old one wrote, if it may start empty
  (\<open>restart_serves_cached_rules\<close>). The quota: one window never grants more than the rule allows,
  over any run, beyond what was left in its bucket, nor do several servers that agree on the topology together (\<open>cluster_quota_bound\<close>);
  the number of buckets is bounded. The topology: it and every owner are functions of the set of instances, where two of
  them differ in what they are sorted by; the owner is the best, two servers with one topology never both serve a key, and a redirected client is served.
  The sessions: an update a client does not know is pushed and never withheld, frames stay in their session, and
  goroutines end; rules a client has fetched are confirmed. The measurements of the topology describe the
  answer. The whole: the instance the service shows to others follows the rules it
  serves. Some theorems show a defect instead: the
  panic of an unsubscription during a notification, overflowing windows, padded ids, a hello that is overtaken,
  a replacement that no provider update follows.

  \<^bold>\<open>Arguments and bounds.\<close> What is outside the repository is an argument: the clock, the
  cache, \<open>math.Log\<close>, the discovery service, the HTTP transport, the environment, the file system,
  the YAML decoder, and what \<open>Init\<close> asks of the framework. Where a theorem needs more of one than
  its type, a hypothesis says so. The fuel of \<open>rawInt64\<close> is longer than the longest raw text of its
  object, which is enough, since a raw text that holds another is longer than it; JSON nests to a depth of
  10000, as in Go. Loops over pages, attempts, lines and digits are functions with termination proofs; loops
  that run until the process ends are step relations. The bounds of the code are kept: 32-bit and 64-bit
  integers, 1 MB lines, 16 frames of a session's channel, one update of a subscription.

  \<^bold>\<open>Not modelled.\<close> Logging; contexts beyond cancellation and the errors they cause; memory
  and aliasing, except that a notifier's channels are addresses (the code clones what it shares); the text of
  errors that are only logged; \<open>src/cmd/main.go\<close>, which hands the starter to the framework; the
  generated code of protocol buffers beyond messages and getters; the normalisation of the framework's own
  configuration. A client of the runtime API is never nil in the running service, but the model of the syncer
  has that case.
\<close>

end
